(* ===== verification/Prelude.thy ===== *)
theory Prelude
  imports Main "HOL-Library.Sublist" "HOL-Library.AList"
begin

text \<open>
  Shared vocabulary of the development: the string, array and property-map operations of the
  JavaScript standard library that the frontend uses, and the error plumbing.

  A JavaScript string is a \<open>string\<close>, a list of code units below 256. The few characters of the
  source's own literals outside that range are named constants holding their UTF-8 bytes; the
  code never takes the length of a string that holds one.
  \<open>undefined\<close> and \<open>null\<close> are \<open>None\<close> where the code treats them alike
  (\<open>??\<close>, \<open>== null\<close>, truthiness).
\<close>

named_theorems js_string \<open>facts about the string operations\<close>
named_theorems js_object \<open>facts about property maps\<close>
named_theorems js_error \<open>facts about computations that may throw\<close>

section \<open>Strings\<close>

abbreviation em_dash :: string where
  "em_dash \<equiv> [CHR 0xE2, CHR 0x80, CHR 0x94]"

abbreviation ellipsis :: string where
  "ellipsis \<equiv> [CHR 0xE2, CHR 0x80, CHR 0xA6]"

abbreviation bullet :: string where
  "bullet \<equiv> [CHR 0xE2, CHR 0x80, CHR 0xA2]"

abbreviation middle_dot :: string where
  "middle_dot \<equiv> [CHR 0xB7]"

abbreviation newline :: char where
  "newline \<equiv> CHR 0x0A"

abbreviation carriage_return :: char where
  "carriage_return \<equiv> CHR 0x0D"

text \<open>The white space and line terminators that \<open>String.prototype.trim\<close> removes, below 256.\<close>

definition js_space :: "char \<Rightarrow> bool" where
  "js_space c \<longleftrightarrow> c \<in> {CHR 0x09, CHR 0x0A, CHR 0x0B, CHR 0x0C, CHR 0x0D, CHR 0x20, CHR 0xA0}"

definition trim :: "string \<Rightarrow> string" where
  "trim s = rev (dropWhile js_space (rev (dropWhile js_space s)))"

fun js_split :: "char \<Rightarrow> string \<Rightarrow> string list" where
  "js_split c [] = [[]]"
| "js_split c (x # xs) =
     (if x = c then [] # js_split c xs
      else case js_split c xs of [] \<Rightarrow> [[x]] | p # ps \<Rightarrow> (x # p) # ps)"

fun js_join :: "string \<Rightarrow> string list \<Rightarrow> string" where
  "js_join sep [] = []"
| "js_join sep [x] = x"
| "js_join sep (x # y # ys) = x @ sep @ js_join sep (y # ys)"

definition js_includes :: "string \<Rightarrow> string \<Rightarrow> bool" where
  "js_includes s t \<longleftrightarrow> sublist t s"

text \<open>\<open>s.replace(/c/g, by)\<close> for a single character, and \<open>s.replace(/\r\n/g, "\n")\<close>.\<close>

definition replace_char :: "char \<Rightarrow> string \<Rightarrow> string \<Rightarrow> string" where
  "replace_char c by s = concat (map (\<lambda>x. if x = c then by else [x]) s)"

fun crlf_to_lf :: "string \<Rightarrow> string" where
  "crlf_to_lf (x # y # s) =
     (if x = carriage_return \<and> y = newline then newline # crlf_to_lf s
      else x # crlf_to_lf (y # s))"
| "crlf_to_lf s = s"

definition lower_char :: "char \<Rightarrow> char" where
  "lower_char c =
     (let n = (of_char c :: nat) in
      if (65 \<le> n \<and> n \<le> 90) \<or> (192 \<le> n \<and> n \<le> 222 \<and> n \<noteq> 215)
      then char_of (n + 32) else c)"

definition to_lower :: "string \<Rightarrow> string" where
  "to_lower s = map lower_char s"

lemma trim_Nil [simp]: "trim [] = []"
  by (simp add: trim_def)

lemma dropWhile_id: "xs = [] \<or> \<not> P (hd xs) \<Longrightarrow> dropWhile P xs = xs"
  by (cases xs) auto

lemma trim_eq_Nil_iff [js_string]: "trim s = [] \<longleftrightarrow> (\<forall>c \<in> set s. js_space c)"
proof (cases "dropWhile js_space s = []")
  case True
  then have "trim s = []" by (simp only: trim_def rev.simps dropWhile.simps)
  with True show ?thesis by simp
next
  case False
  let ?c = "hd (dropWhile js_space s)"
  have mem: "?c \<in> set (dropWhile js_space s)" using False by (rule hd_in_set)
  have no: "\<not> js_space ?c" using False by (rule hd_dropWhile)
  from mem have "?c \<in> set s" by (rule set_dropWhileD)
  moreover have "trim s \<noteq> []"
    unfolding trim_def using mem no by (metis dropWhile_eq_Nil_conv rev_is_Nil_conv set_rev)
  ultimately show ?thesis using no by blast
qed

lemma trim_id: "s = [] \<or> (\<not> js_space (hd s) \<and> \<not> js_space (last s)) \<Longrightarrow> trim s = s"
  by (auto simp: trim_def dropWhile_id hd_rev)

lemma hd_trim: "trim s \<noteq> [] \<Longrightarrow> \<not> js_space (hd (trim s))"
proof -
  assume ne: "trim s \<noteq> []"
  let ?d = "dropWhile js_space s"
  have d: "?d \<noteq> []" using ne unfolding trim_def by (metis dropWhile.simps(1) rev.simps(1))
  then have h: "\<not> js_space (hd ?d)" by (rule hd_dropWhile)
  obtain ys where "rev ?d = ys @ dropWhile js_space (rev ?d)"
    using takeWhile_dropWhile_id [of js_space "rev ?d"] by metis
  then have "?d = trim s @ rev ys" unfolding trim_def by (metis rev_append rev_rev_ident)
  with ne have "hd ?d = hd (trim s)" by (metis hd_append2)
  with h show ?thesis by simp
qed

lemma last_trim: "trim s \<noteq> [] \<Longrightarrow> \<not> js_space (last (trim s))"
  unfolding trim_def by (simp add: last_rev hd_dropWhile)

lemma trim_trim [simp]: "trim (trim s) = trim s"
  using hd_trim last_trim trim_id by blast

lemma set_trim: "set (trim s) \<subseteq> set s"
  by (auto simp: trim_def dest!: set_dropWhileD)

lemma js_split_not_Nil [simp]: "js_split c s \<noteq> []"
  by (cases s) (auto split: list.split)

lemma js_split_plain: "c \<notin> set s \<Longrightarrow> js_split c s = [s]"
  by (induction s) auto

lemma js_split_segment: "c \<notin> set p \<Longrightarrow> js_split c (p @ c # s) = p # js_split c s"
  by (induction p) auto

lemma js_split_join [js_string]:
  "ps \<noteq> [] \<Longrightarrow> \<forall>p \<in> set ps. c \<notin> set p \<Longrightarrow> js_split c (js_join [c] ps) = ps"
  by (induction "[c]" ps rule: js_join.induct) (auto simp: js_split_plain js_split_segment)

lemma js_join_split: "js_join [c] (js_split c s) = s"
proof (induction s)
  case (Cons x s)
  then show ?case
    by (cases "js_split c s"; cases "tl (js_split c s)") auto
qed simp

lemma set_js_split: "\<forall>p \<in> set (js_split c s). c \<notin> set p \<and> set p \<subseteq> set s"
  by (induction s) (auto split: list.splits if_splits)

section \<open>Nullish values\<close>

text \<open>\<open>a ?? b\<close> with a default of the value type, and with a nullish right operand.\<close>

fun coalesce :: "'a option \<Rightarrow> 'a \<Rightarrow> 'a" where
  "coalesce (Some x) d = x"
| "coalesce None d = d"

fun or_else :: "'a option \<Rightarrow> 'a option \<Rightarrow> 'a option" where
  "or_else (Some x) y = Some x"
| "or_else None y = y"

lemma or_else_eq_None [simp]: "or_else x y = None \<longleftrightarrow> x = None \<and> y = None"
  by (cases x) auto

text \<open>\<open>s || d\<close> on a string that may be nullish: the empty string is falsy too.\<close>

definition str_or :: "string option \<Rightarrow> string \<Rightarrow> string" where
  "str_or s d = (case s of None \<Rightarrow> d | Some x \<Rightarrow> if x = [] then d else x)"

text \<open>\<open>[...new Set(xs)]\<close>: the distinct elements in the order of their first occurrence.\<close>

definition js_set :: "'a list \<Rightarrow> 'a list" where
  "js_set xs = rev (remdups (rev xs))"

lemma set_js_set [simp]: "set (js_set xs) = set xs"
  by (simp add: js_set_def)

lemma distinct_js_set [simp]: "distinct (js_set xs)"
  by (simp add: js_set_def)

text \<open>\<open>xs.filter(Boolean)\<close> on strings.\<close>

definition nonempty :: "string list \<Rightarrow> string list" where
  "nonempty xs = filter (\<lambda>s. s \<noteq> []) xs"

lemma set_nonempty [simp]: "set (nonempty xs) = set xs - {[]}"
  by (auto simp: nonempty_def)

section \<open>Computations that may throw\<close>

text \<open>A thrown \<open>Error\<close> is its message.\<close>

type_synonym 'a result = "string + 'a"

fun res_bind :: "'a result \<Rightarrow> ('a \<Rightarrow> 'b result) \<Rightarrow> 'b result" where
  "res_bind (Inl e) f = Inl e"
| "res_bind (Inr x) f = f x"

text \<open>\<open>xs.map((x, i) => ...)\<close> with a callback that may throw: the first error wins.\<close>

fun map_res_from :: "nat \<Rightarrow> (nat \<Rightarrow> 'a \<Rightarrow> 'b result) \<Rightarrow> 'a list \<Rightarrow> 'b list result" where
  "map_res_from i f [] = Inr []"
| "map_res_from i f (x # xs) =
     res_bind (f i x) (\<lambda>y. res_bind (map_res_from (Suc i) f xs) (\<lambda>ys. Inr (y # ys)))"

abbreviation map_res :: "(nat \<Rightarrow> 'a \<Rightarrow> 'b result) \<Rightarrow> 'a list \<Rightarrow> 'b list result" where
  "map_res \<equiv> map_res_from 0"

lemma res_bind_eq_Inr_iff [js_error]:
  "res_bind m f = Inr y \<longleftrightarrow> (\<exists>x. m = Inr x \<and> f x = Inr y)"
  by (cases m) auto

lemma res_bind_eq_Inl_iff [js_error]:
  "res_bind m f = Inl e \<longleftrightarrow> m = Inl e \<or> (\<exists>x. m = Inr x \<and> f x = Inl e)"
  by (cases m) auto

lemma map_res_length: "map_res_from i f xs = Inr ys \<Longrightarrow> length ys = length xs"
  by (induction xs arbitrary: i ys) (auto simp: js_error)

lemma map_res_nth:
  "map_res_from i f xs = Inr ys \<Longrightarrow> k < length xs \<Longrightarrow> f (i + k) (xs ! k) = Inr (ys ! k)"
proof (induction xs arbitrary: i ys k)
  case (Cons x xs)
  then show ?case by (cases k) (force simp: js_error)+
qed simp

lemma map_res_map:
  "map_res_from i f xs = Inr ys \<Longrightarrow> (\<And>k x y. x \<in> set xs \<Longrightarrow> f k x = Inr y \<Longrightarrow> g y = h x) \<Longrightarrow> map g ys = map h xs"
  by (induction xs arbitrary: i ys) (fastforce simp: js_error)+

lemma map_res_accepts:
  assumes "\<And>k x. x \<in> set xs \<Longrightarrow> (\<exists>y. f k x = Inr y) \<longleftrightarrow> P x"
  shows "(\<exists>ys. map_res_from i f xs = Inr ys) \<longleftrightarrow> list_all P xs"
  using assms
proof (induction xs arbitrary: i)
  case (Cons x xs)
  then have "(\<exists>ys. map_res_from (Suc i) f xs = Inr ys) \<longleftrightarrow> list_all P xs" "(\<exists>y. f i x = Inr y) \<longleftrightarrow> P x"
    by auto
  then show ?case by (simp add: js_error) blast
qed simp

lemma res_bind_accepts: "(\<exists>y. res_bind m f = Inr y) \<longleftrightarrow> (\<exists>x y. m = Inr x \<and> f x = Inr y)"
  by (auto simp: js_error)

lemma map_res_set:
  "map_res_from i f xs = Inr ys \<Longrightarrow> y \<in> set ys \<Longrightarrow> \<exists>k x. x \<in> set xs \<and> f k x = Inr y"
  by (induction xs arbitrary: i ys) (fastforce simp: js_error)+

lemma map_res_total:
  "(\<And>k x. x \<in> set xs \<Longrightarrow> f k x = Inr (g x)) \<Longrightarrow> map_res_from i f xs = Inr (map g xs)"
  by (induction xs arbitrary: i) auto

lemma map_res_Inl:
  "map_res_from i f xs = Inl e \<Longrightarrow> \<exists>k < length xs. f (i + k) (xs ! k) = Inl e"
proof (induction xs arbitrary: i)
  case (Cons x xs)
  then consider "f i x = Inl e" | "map_res_from (Suc i) f xs = Inl e"
    by (auto simp: js_error)
  then show ?case
  proof cases
    case 2
    with Cons.IH obtain k where "k < length xs" "f (Suc i + k) (xs ! k) = Inl e" by blast
    then show ?thesis by (intro exI [of _ "Suc k"]) simp
  qed (auto intro: exI [of _ 0])
qed simp

section \<open>Property maps\<close>

text \<open>
  A plain object used as a dictionary is the list of its own properties in property order:
  keys that are array indices come first, by value, then the other keys as they were added.
\<close>

type_synonym 'v obj = "(string \<times> 'v) list"

definition digit_value :: "char \<Rightarrow> nat" where
  "digit_value c = of_char c - 48"

definition is_digit :: "char \<Rightarrow> bool" where
  "is_digit c \<longleftrightarrow> 48 \<le> (of_char c :: nat) \<and> (of_char c :: nat) \<le> 57"

definition digits_value :: "string \<Rightarrow> nat" where
  "digits_value s = foldl (\<lambda>n c. 10 * n + digit_value c) 0 s"

definition index_key :: "string \<Rightarrow> nat option" where
  "index_key s =
     (if s \<noteq> [] \<and> list_all is_digit s \<and> (s = ''0'' \<or> hd s \<noteq> CHR ''0'') \<and> digits_value s < 4294967295
      then Some (digits_value s) else None)"

definition key_precedes :: "string \<Rightarrow> string \<Rightarrow> bool" where
  "key_precedes k l =
     (case index_key k of
        None \<Rightarrow> False
      | Some m \<Rightarrow> (case index_key l of None \<Rightarrow> True | Some n \<Rightarrow> m < n))"

fun obj_insert :: "string \<Rightarrow> 'v \<Rightarrow> 'v obj \<Rightarrow> 'v obj" where
  "obj_insert k v [] = [(k, v)]"
| "obj_insert k v ((l, w) # ps) =
     (if key_precedes k l then (k, v) # (l, w) # ps else (l, w) # obj_insert k v ps)"

definition obj_keys :: "'v obj \<Rightarrow> string list" where
  "obj_keys ps = map fst ps"

definition obj_put :: "string \<Rightarrow> 'v \<Rightarrow> 'v obj \<Rightarrow> 'v obj" where
  "obj_put k v ps = (if k \<in> set (obj_keys ps) then AList.update k v ps else obj_insert k v ps)"

definition obj_get :: "'v obj \<Rightarrow> string \<Rightarrow> 'v option" where
  "obj_get ps k = map_of ps k"

definition from_entries :: "(string \<times> 'v) list \<Rightarrow> 'v obj" where
  "from_entries es = foldl (\<lambda>ps (k, v). obj_put k v ps) [] es"

text \<open>\<open>{...a, ...b}\<close>\<close>

definition obj_spread :: "'v obj \<Rightarrow> 'v obj \<Rightarrow> 'v obj" where
  "obj_spread a b = foldl (\<lambda>ps (k, v). obj_put k v ps) a b"

definition obj_ok :: "'v obj \<Rightarrow> bool" where
  "obj_ok ps \<longleftrightarrow> distinct (obj_keys ps) \<and> sorted_wrt (\<lambda>k l. \<not> key_precedes l k) (obj_keys ps)"

lemma obj_keys_simps [simp]:
  "obj_keys [] = []"
  "obj_keys ((k, v) # ps) = k # obj_keys ps"
  "obj_keys (ps @ qs) = obj_keys ps @ obj_keys qs"
  by (simp_all add: obj_keys_def)

lemma set_keys_obj_insert [simp]: "set (obj_keys (obj_insert k v ps)) = insert k (set (obj_keys ps))"
  by (induction ps) (auto split: if_splits)

lemma get_obj_insert: "k \<notin> set (obj_keys ps) \<Longrightarrow> map_of (obj_insert k v ps) = (map_of ps)(k \<mapsto> v)"
  by (induction ps) auto

lemma set_keys_obj_put [simp]: "set (obj_keys (obj_put k v ps)) = insert k (set (obj_keys ps))"
proof (cases "k \<in> set (obj_keys ps)")
  case True
  then show ?thesis by (simp add: obj_put_def obj_keys_def update_keys insert_absorb)
qed (simp add: obj_put_def)

lemma get_obj_put [js_object]: "obj_get (obj_put k v ps) l = (if l = k then Some v else obj_get ps l)"
  by (simp add: obj_get_def obj_put_def update_conv get_obj_insert)

lemma key_precedes_irrefl [simp]: "\<not> key_precedes k k"
  by (auto simp: key_precedes_def split: option.splits)

lemma key_precedes_trans_not:
  "key_precedes k l \<Longrightarrow> \<not> key_precedes m l \<Longrightarrow> \<not> key_precedes m k"
  by (auto simp: key_precedes_def split: option.splits)

lemma obj_ok_Nil [simp]: "obj_ok []"
  by (simp add: obj_ok_def)

lemma obj_ok_insert: "k \<notin> set (obj_keys ps) \<Longrightarrow> obj_ok ps \<Longrightarrow> obj_ok (obj_insert k v ps)"
proof (induction ps)
  case (Cons p ps)
  obtain l w where p: "p = (l, w)" by (cases p)
  from Cons.prems p have ok: "obj_ok ps" and new: "k \<noteq> l" "k \<notin> set (obj_keys ps)"
    and l: "l \<notin> set (obj_keys ps)" "\<forall>m \<in> set (obj_keys ps). \<not> key_precedes m l"
    by (auto simp: obj_ok_def)
  show ?case
  proof (cases "key_precedes k l")
    case True
    then have "\<not> key_precedes l k" and "\<forall>m \<in> set (obj_keys ps). \<not> key_precedes m k"
      using key_precedes_trans_not key_precedes_irrefl l(2) by blast+
    with ok new l p True show ?thesis by (simp add: obj_ok_def)
  next
    case False
    with Cons.IH [OF new(2) ok] new l p show ?thesis by (simp add: obj_ok_def)
  qed
qed (simp add: obj_ok_def)

lemma obj_ok_put [js_object]: "obj_ok ps \<Longrightarrow> obj_ok (obj_put k v ps)"
proof (cases "k \<in> set (obj_keys ps)")
  case True
  assume "obj_ok ps"
  with True show ?thesis by (simp add: obj_put_def obj_ok_def obj_keys_def update_keys)
qed (simp add: obj_put_def obj_ok_insert)

lemma obj_insert_last:
  "\<forall>l \<in> set (obj_keys ps). \<not> key_precedes k l \<Longrightarrow> obj_insert k v ps = ps @ [(k, v)]"
  by (induction ps) auto

lemma from_entries_Nil [simp]: "from_entries [] = []"
  by (simp add: from_entries_def)

lemma from_entries_snoc:
  "from_entries (es @ [(k, v)]) = obj_put k v (from_entries es)"
  by (simp add: from_entries_def)

lemma obj_ok_from_entries [js_object]: "obj_ok (from_entries es)"
proof (induction es rule: rev_induct)
  case (snoc e es)
  then show ?case by (cases e) (simp add: from_entries_snoc obj_ok_put)
qed simp

text \<open>\<open>Object.fromEntries(Object.entries(o))\<close> is \<open>o\<close>.\<close>

lemma from_entries_id [js_object]: "obj_ok ps \<Longrightarrow> from_entries ps = ps"
proof (induction ps rule: rev_induct)
  case (snoc p ps)
  obtain k v where p: "p = (k, v)" by (cases p)
  have "obj_ok ps" and new: "k \<notin> set (obj_keys ps)"
    and last: "\<forall>l \<in> set (obj_keys ps). \<not> key_precedes k l"
    using snoc.prems p by (auto simp: obj_ok_def sorted_wrt_append)
  with snoc.IH have "from_entries ps = ps" by simp
  with new last p show ?case
    by (simp add: from_entries_snoc obj_put_def obj_insert_last)
qed simp

lemma set_keys_from_entries [simp]: "set (obj_keys (from_entries es)) = set (obj_keys es)"
proof (induction es rule: rev_induct)
  case (snoc e es)
  then show ?case by (cases e) (simp add: from_entries_snoc)
qed simp

lemma get_from_entries [js_object]: "obj_get (from_entries es) k = map_of (rev es) k"
proof (induction es rule: rev_induct)
  case (snoc e es)
  then show ?case by (cases e) (simp add: from_entries_snoc get_obj_put)
qed (simp add: obj_get_def)

section \<open>The keyed-store interface\<close>

text \<open>
  Several pieces of state are dictionaries written with \<open>{...current, [k]: v}\<close> and read with
  \<open>current[k]\<close>. Their clients rely on two laws only.
\<close>

locale keyed_store =
  fixes get :: "'m \<Rightarrow> 'k \<Rightarrow> 'v option"
    and put :: "'k \<Rightarrow> 'v \<Rightarrow> 'm \<Rightarrow> 'm"
    and invar :: "'m \<Rightarrow> bool"
  assumes get_put: "invar m \<Longrightarrow> get (put k v m) l = (if l = k then Some v else get m l)"
    and invar_put: "invar m \<Longrightarrow> invar (put k v m)"
begin

lemma get_put_same: "invar m \<Longrightarrow> get (put k v m) k = Some v"
  by (simp add: get_put)

lemma get_put_other: "invar m \<Longrightarrow> l \<noteq> k \<Longrightarrow> get (put k v m) l = get m l"
  by (simp add: get_put)

lemma invar_fold: "invar m \<Longrightarrow> invar (foldl (\<lambda>m (k, v). put k v m) m es)"
  by (induction es arbitrary: m) (auto simp: invar_put)

lemma get_fold:
  "invar m \<Longrightarrow> get (foldl (\<lambda>m (k, v). put k v m) m es) l =
     (case map_of (rev es) l of None \<Rightarrow> get m l | Some v \<Rightarrow> Some v)"
proof (induction es rule: rev_induct)
  case (snoc e es)
  then show ?case by (cases e) (auto simp: get_put invar_fold)
qed simp

end

interpretation obj: keyed_store obj_get obj_put obj_ok
  by unfold_locales (auto simp: js_object)

text \<open>Dictionaries keyed by a number (\<open>Record<number, V>\<close>), whose property order is never read.\<close>

definition rec_get :: "('k \<times> 'v) list \<Rightarrow> 'k \<Rightarrow> 'v option" where
  "rec_get m k = map_of m k"

definition rec_put :: "'k \<Rightarrow> 'v \<Rightarrow> ('k \<times> 'v) list \<Rightarrow> ('k \<times> 'v) list" where
  "rec_put k v m = AList.update k v m"

interpretation record_by_number: keyed_store rec_get rec_put "\<lambda>m. distinct (map fst m)"
  by unfold_locales (auto simp: rec_get_def rec_put_def update_conv distinct_update)

lemma get_obj_spread [js_object]:
  "obj_ok a \<Longrightarrow> obj_get (obj_spread a b) k =
     (case map_of (rev b) k of None \<Rightarrow> obj_get a k | Some v \<Rightarrow> Some v)"
  unfolding obj_spread_def by (rule obj.get_fold)

lemma obj_ok_spread [js_object]: "obj_ok a \<Longrightarrow> obj_ok (obj_spread a b)"
  unfolding obj_spread_def by (rule obj.invar_fold)

end
