(* ===== verification/JsNumber.thy ===== *)
theory JsNumber
  imports Prelude Complex_Main "HOL-Library.Log_Nat" "HOL-Library.Code_Target_Nat"
begin

text \<open>
  JavaScript numbers: IEEE 754 doubles as the rational they denote, with the three special values
  (the two zeros are not told apart: no operation of the program does), rounding to the nearest
  double, \<open>Number(string)\<close>, \<open>String(number)\<close> with its shortest-digits rule, and the fact that
  the latter is undone by the former.
\<close>

section \<open>Values and rounding\<close>

datatype jsnum = NaN | Infinity | NegInfinity | Num rat

definition pow2 :: "int \<Rightarrow> rat" where
  "pow2 e = (if e \<ge> 0 then of_int (2 ^ nat e) else 1 / of_int (2 ^ nat (- e)))"

definition pow10 :: "int \<Rightarrow> rat" where
  "pow10 e = (if e \<ge> 0 then of_int (10 ^ nat e) else 1 / of_int (10 ^ nat (- e)))"

definition flog2 :: "rat \<Rightarrow> int" where
  "flog2 x = (let (p, q) = quotient_of x; k = bitlen p - bitlen q
              in if pow2 k \<le> x then k else k - 1)"

definition round_half_even :: "rat \<Rightarrow> int" where
  "round_half_even x =
     (let f = \<lfloor>x\<rfloor>; d = x - of_int f
      in if d < 1 / 2 then f else if d > 1 / 2 then f + 1 else if even f then f else f + 1)"

definition to_double :: "rat \<Rightarrow> jsnum" where
  "to_double x =
     (if x = 0 then Num 0
      else let e = max (flog2 \<bar>x\<bar> - 52) (-1074);
               m = round_half_even (\<bar>x\<bar> / pow2 e)
           in if e > 971 \<or> (e = 971 \<and> m \<ge> 2 ^ 53) then (if x > 0 then Infinity else NegInfinity)
              else Num (if x > 0 then of_int m * pow2 e else - (of_int m * pow2 e)))"

definition is_double :: "rat \<Rightarrow> bool" where
  "is_double x \<longleftrightarrow> to_double x = Num x"

fun num_ok :: "jsnum \<Rightarrow> bool" where
  "num_ok (Num x) = is_double x"
| "num_ok _ = True"


section \<open>Operators\<close>

fun num_neg :: "jsnum \<Rightarrow> jsnum" where
  "num_neg NaN = NaN"
| "num_neg Infinity = NegInfinity"
| "num_neg NegInfinity = Infinity"
| "num_neg (Num x) = Num (- x)"

fun is_finite :: "jsnum \<Rightarrow> bool" where
  "is_finite (Num x) = True"
| "is_finite _ = False"

definition num_eq :: "jsnum \<Rightarrow> jsnum \<Rightarrow> bool" where
  "num_eq a b \<longleftrightarrow> a = b \<and> a \<noteq> NaN"

definition num_truthy :: "jsnum \<Rightarrow> bool" where
  "num_truthy n \<longleftrightarrow> n \<noteq> NaN \<and> n \<noteq> Num 0"

fun num_less :: "jsnum \<Rightarrow> jsnum \<Rightarrow> bool" where
  "num_less (Num a) (Num b) = (a < b)"
| "num_less NaN b = False"
| "num_less a NaN = False"
| "num_less NegInfinity b = (b \<noteq> NegInfinity)"
| "num_less a Infinity = (a \<noteq> Infinity)"
| "num_less a b = False"

definition num_ge :: "jsnum \<Rightarrow> jsnum \<Rightarrow> bool" where
  "num_ge a b \<longleftrightarrow> a \<noteq> NaN \<and> b \<noteq> NaN \<and> \<not> num_less a b"

text \<open>Arithmetic: the exact result rounded once, and the rules for the special values.\<close>

definition num_sign :: "jsnum \<Rightarrow> rat" where
  "num_sign n = (case n of Num x \<Rightarrow> sgn x | Infinity \<Rightarrow> 1 | NegInfinity \<Rightarrow> -1 | NaN \<Rightarrow> 0)"

definition num_mul :: "jsnum \<Rightarrow> jsnum \<Rightarrow> jsnum" where
  "num_mul a b =
     (case (a, b) of
        (Num x, Num y) \<Rightarrow> to_double (x * y)
      | _ \<Rightarrow> (let s = num_sign a * num_sign b in
             if s > 0 then Infinity else if s < 0 then NegInfinity else NaN))"

definition num_add :: "jsnum \<Rightarrow> jsnum \<Rightarrow> jsnum" where
  "num_add a b =
     (case (a, b) of
        (Num x, Num y) \<Rightarrow> to_double (x + y)
      | (Num x, _) \<Rightarrow> b
      | (_, Num y) \<Rightarrow> a
      | _ \<Rightarrow> if a = b then a else NaN)"

definition num_sub :: "jsnum \<Rightarrow> jsnum \<Rightarrow> jsnum" where
  "num_sub a b = num_add a (num_neg b)"

text \<open>\<open>Math.round\<close> (halves go up), \<open>Math.min\<close> and \<open>Math.max\<close>.\<close>

definition num_round :: "jsnum \<Rightarrow> jsnum" where
  "num_round n = (case n of Num x \<Rightarrow> Num (of_int \<lfloor>x + 1 / 2\<rfloor>) | _ \<Rightarrow> n)"

definition num_min :: "jsnum \<Rightarrow> jsnum \<Rightarrow> jsnum" where
  "num_min a b = (if a = NaN \<or> b = NaN then NaN else if num_less b a then b else a)"

definition num_max :: "jsnum \<Rightarrow> jsnum \<Rightarrow> jsnum" where
  "num_max a b = (if a = NaN \<or> b = NaN then NaN else if num_less a b then b else a)"

abbreviation num_of_nat :: "nat \<Rightarrow> jsnum" where
  "num_of_nat n \<equiv> Num (of_nat n)"

section \<open>Decimal digits\<close>

definition digit_char :: "nat \<Rightarrow> char" where
  "digit_char d = char_of (48 + d)"

fun nat_digits :: "nat \<Rightarrow> string" where
  "nat_digits n = (if n < 10 then [digit_char n] else nat_digits (n div 10) @ [digit_char (n mod 10)])"

declare nat_digits.simps [simp del]

section \<open>String(number)\<close>

definition dec_exp :: "rat \<Rightarrow> int" where
  "dec_exp x =
     (if x \<ge> 1 then int (length (nat_digits (nat \<lfloor>x\<rfloor>)))
      else 1 - int (length (nat_digits (nat (\<lceil>1 / x\<rceil> - 1)))))"

definition dec_value :: "nat \<times> int \<Rightarrow> rat" where
  "dec_value p = of_nat (fst p) * pow10 (snd p)"

definition nearest_ok :: "rat \<Rightarrow> int \<Rightarrow> nat option" where
  "nearest_ok x e =
     (let q = x / pow10 e; f = nat \<lfloor>q\<rfloor>;
          ok = (\<lambda>s. s > 0 \<and> to_double (dec_value (s, e)) = Num x)
      in if ok f \<and> ok (Suc f) then
           Some (if q - of_nat f < 1 / 2 then f
                 else if q - of_nat f > 1 / 2 then Suc f
                 else if even f then f else Suc f)
         else if ok f then Some f else if ok (Suc f) then Some (Suc f) else None)"

definition exact_decimal :: "rat \<Rightarrow> nat \<times> int" where
  "exact_decimal x =
     (let (p, q) = quotient_of x; j = nat (bitlen q - 1)
      in (nat p * 5 ^ j, - int j))"

fun shortest :: "nat \<Rightarrow> rat \<Rightarrow> int \<Rightarrow> nat \<times> int" where
  "shortest 0 x e = exact_decimal x"
| "shortest (Suc fuel) x e =
     (case nearest_ok x e of Some s \<Rightarrow> (s, e) | None \<Rightarrow> shortest fuel x (e - 1))"

function strip_zeros :: "nat \<times> int \<Rightarrow> nat \<times> int" where
  "strip_zeros (s, e) =
     (if s \<noteq> 0 \<and> s mod 10 = 0 then strip_zeros (s div 10, e + 1) else (s, e))"
  by pat_completeness auto
termination
  by (relation "measure fst") auto

declare strip_zeros.simps [simp del]

definition format_decimal :: "string \<Rightarrow> int \<Rightarrow> string" where
  "format_decimal ds n =
     (let k = int (length ds);
          ex = (if n - 1 < 0 then ''-'' @ nat_digits (nat (1 - n)) else ''+'' @ nat_digits (nat (n - 1)))
      in if k \<le> n \<and> n \<le> 21 then ds @ replicate (nat (n - k)) CHR ''0''
         else if 0 < n \<and> n \<le> 21 then take (nat n) ds @ ''.'' @ drop (nat n) ds
         else if -6 < n \<and> n \<le> 0 then ''0.'' @ replicate (nat (- n)) CHR ''0'' @ ds
         else if k = 1 then ds @ ''e'' @ ex
         else take 1 ds @ ''.'' @ drop 1 ds @ ''e'' @ ex)"

definition format_positive :: "rat \<Rightarrow> string" where
  "format_positive x =
     (let (s, e) = strip_zeros (shortest 17 x (dec_exp x - 1)); ds = nat_digits s
      in format_decimal ds (int (length ds) + e))"

fun num_to_string :: "jsnum \<Rightarrow> string" where
  "num_to_string NaN = ''NaN''"
| "num_to_string Infinity = ''Infinity''"
| "num_to_string NegInfinity = ''-Infinity''"
| "num_to_string (Num x) =
     (if x = 0 then ''0'' else if x < 0 then ''-'' @ format_positive (- x) else format_positive x)"

section \<open>Number(string)\<close>

definition scan_digits :: "string \<Rightarrow> string \<times> string" where
  "scan_digits s = (takeWhile is_digit s, dropWhile is_digit s)"

definition scan_fraction :: "bool \<Rightarrow> string \<Rightarrow> string \<times> string" where
  "scan_fraction lenient s =
     (case s of [] \<Rightarrow> ([], [])
      | c # r \<Rightarrow> if c = CHR ''.'' \<and> (lenient \<or> (r \<noteq> [] \<and> is_digit (hd r))) then scan_digits r
                else ([], s))"

definition scan_exponent :: "string \<Rightarrow> int \<times> string" where
  "scan_exponent s =
     (case s of [] \<Rightarrow> (0, [])
      | c # r \<Rightarrow>
          if c = CHR ''e'' \<or> c = CHR ''E'' then
            (let sg = (r \<noteq> [] \<and> (hd r = CHR ''-'' \<or> hd r = CHR ''+''));
                 (ds, q) = scan_digits (if sg then tl r else r)
             in if ds = [] then (0, s)
                else (if sg \<and> hd r = CHR ''-'' then - int (digits_value ds) else int (digits_value ds), q))
          else (0, s))"

definition scan_decimal :: "bool \<Rightarrow> string \<Rightarrow> string \<times> string \<times> int \<times> string" where
  "scan_decimal lenient s =
     (let (i, r1) = scan_digits s; (f, r2) = scan_fraction lenient r1; (e, r3) = scan_exponent r2
      in (i, f, e, r3))"

definition decimal_of :: "string \<Rightarrow> string \<Rightarrow> int \<Rightarrow> rat" where
  "decimal_of i f e = dec_value (digits_value (i @ f), e - int (length f))"

definition unsigned_number :: "string \<Rightarrow> jsnum" where
  "unsigned_number s =
     (if s = ''Infinity'' then Infinity
      else let (i, f, e, r) = scan_decimal True s
           in if r = [] \<and> (i \<noteq> [] \<or> f \<noteq> []) then to_double (decimal_of i f e) else NaN)"

definition radix_digit :: "char \<Rightarrow> nat" where
  "radix_digit c =
     (let n = (of_char c :: nat)
      in if 48 \<le> n \<and> n \<le> 57 then n - 48
         else if 97 \<le> n \<and> n \<le> 102 then n - 87
         else if 65 \<le> n \<and> n \<le> 70 then n - 55 else 16)"

definition radix_number :: "nat \<Rightarrow> string \<Rightarrow> jsnum" where
  "radix_number b s =
     (if s \<noteq> [] \<and> list_all (\<lambda>c. radix_digit c < b) s
      then to_double (of_nat (foldl (\<lambda>n c. b * n + radix_digit c) 0 s)) else NaN)"

definition string_to_number :: "string \<Rightarrow> jsnum" where
  "string_to_number s =
     (let t = trim s in
      if t = [] then Num 0
      else if prefix ''0x'' t \<or> prefix ''0X'' t then radix_number 16 (drop 2 t)
      else if prefix ''0o'' t \<or> prefix ''0O'' t then radix_number 8 (drop 2 t)
      else if prefix ''0b'' t \<or> prefix ''0B'' t then radix_number 2 (drop 2 t)
      else if hd t = CHR ''-'' then num_neg (unsigned_number (tl t))
      else if hd t = CHR ''+'' then unsigned_number (tl t)
      else unsigned_number t)"

section \<open>Powers and digits\<close>

lemma pow10_powi: "pow10 e = 10 powi e"
  by (simp add: pow10_def power_int_def inverse_eq_divide power_one_over)

lemma pow10_add: "pow10 (a + b) = pow10 a * pow10 b"
  by (simp add: pow10_powi power_int_add)

lemma pow10_pos [simp]: "pow10 e > 0"
  by (simp add: pow10_powi)

lemma pow10_nat [simp]: "pow10 (int n) = 10 ^ n"
  by (simp add: pow10_def)

lemma pow10_0 [simp]: "pow10 0 = 1"
  by (simp add: pow10_def)

lemma of_char_digit_char: "d < 10 \<Longrightarrow> of_char (digit_char d) = 48 + d"
  by (simp add: digit_char_def)

lemma digit_char_props [simp]:
  "d < 10 \<Longrightarrow> is_digit (digit_char d)"
  "d < 10 \<Longrightarrow> digit_value (digit_char d) = d"
  by (simp_all add: is_digit_def digit_value_def of_char_digit_char)

lemma digit_char_eq_0: "d < 10 \<Longrightarrow> digit_char d = CHR ''0'' \<longleftrightarrow> d = 0"
proof -
  assume d: "d < 10"
  have "digit_char d = CHR ''0'' \<longleftrightarrow> (of_char (digit_char d) :: nat) = of_char CHR ''0''"
    by (metis char_of_char)
  with d show ?thesis by (simp add: of_char_digit_char)
qed

lemma digits_value_foldl:
  "foldl (\<lambda>n c. 10 * n + digit_value c) a s = a * 10 ^ length s + digits_value s"
proof (induction s arbitrary: a)
  case (Cons c s)
  have "digits_value (c # s) = foldl (\<lambda>n c. 10 * n + digit_value c) (digit_value c) s"
    by (simp add: digits_value_def)
  with Cons [of "10 * a + digit_value c"] Cons [of "digit_value c"] show ?case
    by (simp add: algebra_simps del: foldl_Cons) (simp add: algebra_simps)
qed (simp add: digits_value_def)

lemma digits_value_append: "digits_value (s @ t) = digits_value s * 10 ^ length t + digits_value t"
proof -
  have "digits_value (s @ t) = foldl (\<lambda>n c. 10 * n + digit_value c) (digits_value s) t"
    by (simp add: digits_value_def)
  then show ?thesis by (simp only: digits_value_foldl)
qed

lemma digits_value_zeros [simp]: "digits_value (replicate k CHR ''0'') = 0"
proof (induction k)
  case (Suc k)
  have "digits_value (CHR ''0'' # replicate k CHR ''0'') = digits_value (replicate k CHR ''0'')"
    by (simp add: digits_value_def digit_value_def)
  with Suc show ?case by simp
qed (simp add: digits_value_def)

lemma nat_digits_value [simp]: "digits_value (nat_digits n) = n"
proof (induction n rule: nat_digits.induct)
  case (1 n)
  then show ?case
    by (cases "n < 10") (simp_all add: nat_digits.simps [of n] digits_value_append, simp_all add: digits_value_def)
qed

lemma nat_digits_all: "list_all is_digit (nat_digits n)"
proof (induction n rule: nat_digits.induct)
  case (1 n)
  then show ?case by (cases "n < 10") (simp_all add: nat_digits.simps [of n])
qed

lemma nat_digits_not_Nil [simp]: "nat_digits n \<noteq> []"
  by (subst nat_digits.simps) simp

lemma hd_nat_digits: "n > 0 \<Longrightarrow> hd (nat_digits n) \<noteq> CHR ''0''"
proof (induction n rule: nat_digits.induct)
  case (1 n)
  then show ?case
    by (cases "n < 10") (simp_all add: nat_digits.simps [of n] digit_char_eq_0)
qed

lemma length_nat_digits: "n > 0 \<Longrightarrow> 10 ^ (length (nat_digits n) - 1) \<le> n \<and> n < 10 ^ length (nat_digits n)"
proof (induction n rule: nat_digits.induct)
  case (1 n)
  show ?case
  proof (cases "n < 10")
    case False
    let ?l = "length (nat_digits (n div 10))"
    from False "1.IH" have "10 ^ (?l - 1) \<le> n div 10" "n div 10 < 10 ^ ?l" by auto
    moreover have "?l \<ge> 1" using nat_digits_not_Nil [of "n div 10"] by (cases "nat_digits (n div 10)") auto
    then have "(10::nat) ^ ?l = 10 * 10 ^ (?l - 1)" by (cases ?l) auto
    ultimately have "10 ^ ?l \<le> n" "n < 10 * 10 ^ ?l" by (simp_all add: less_eq_div_iff_mult_less_eq div_less_iff_less_mult mult.commute)
    with False show ?thesis by (simp add: nat_digits.simps [of n])
  qed (use "1.prems" in \<open>simp add: nat_digits.simps [of n]\<close>)
qed

section \<open>The shortest digits denote the number\<close>

lemma dec_value_strip_zeros [simp]: "dec_value (strip_zeros (s, e)) = dec_value (s, e)"
proof (induction "(s, e)" arbitrary: s e rule: strip_zeros.induct)
  case (1 s e)
  show ?case
  proof (cases "s \<noteq> 0 \<and> s mod 10 = 0")
    case True
    then have s: "s = 10 * (s div 10)" by auto
    have "dec_value (s div 10, e + 1) = of_nat (10 * (s div 10)) * pow10 e"
      by (simp add: dec_value_def pow10_add pow10_nat [of 1, simplified])
    with True 1 s show ?thesis by (simp add: strip_zeros.simps [of s] dec_value_def)
  qed (auto simp: strip_zeros.simps [of s])
qed

lemma strip_zeros_pos: "s > 0 \<Longrightarrow> fst (strip_zeros (s, e)) > 0"
proof (induction "(s, e)" arbitrary: s e rule: strip_zeros.induct)
  case (1 s e)
  then show ?case by (cases "s mod 10 = 0") (auto simp: strip_zeros.simps [of s])
qed

lemma nearest_ok_value:
  "nearest_ok x e = Some s \<Longrightarrow> s > 0 \<and> to_double (dec_value (s, e)) = Num x"
  by (auto simp: nearest_ok_def Let_def split: if_splits)

lemma pow2_cases: "\<exists>k. pow2 e = 2 ^ k \<or> pow2 e = 1 / 2 ^ k"
  by (auto simp: pow2_def)

lemma to_double_dyadic: "to_double x = Num y \<Longrightarrow> \<exists>m k. y = of_int m / 2 ^ k"
proof (cases "x = 0")
  case False
  assume "to_double x = Num y"
  with False obtain m e where y: "y = of_int m * pow2 e"
    unfolding to_double_def Let_def by (auto split: if_splits) (metis mult_minus_left of_int_minus)+
  obtain k where "pow2 e = 2 ^ k \<or> pow2 e = 1 / 2 ^ k" using pow2_cases by blast
  then show ?thesis
  proof
    assume "pow2 e = 2 ^ k"
    with y have "y = of_int (m * 2 ^ k) / 2 ^ 0" by simp
    then show ?thesis by blast
  qed (use y in auto)
qed (auto simp: to_double_def intro: exI [of _ 0])

lemma dvd_pow2: "(q :: nat) dvd 2 ^ k \<Longrightarrow> \<exists>i. q = 2 ^ i"
proof (induction k arbitrary: q)
  case (Suc k)
  show ?case
  proof (cases "even q")
    case True
    then obtain r where r: "q = 2 * r" by blast
    with Suc.prems have "r dvd 2 ^ k" by simp
    with Suc.IH obtain i where "r = 2 ^ i" by blast
    with r have "q = 2 ^ Suc i" by simp
    then show ?thesis by blast
  next
    case False
    then have "coprime q (2 ^ Suc k)" by simp
    with Suc.prems have "q = 1" by (meson coprime_common_divisor dvd_refl nat_dvd_1_iff_1)
    then have "q = 2 ^ 0" by simp
    then show ?thesis by blast
  qed
qed (auto intro: exI [of _ 0])

lemma quotient_of_dyadic:
  assumes x: "x = of_int m / 2 ^ k" and q: "quotient_of x = (p, q)"
  shows "\<exists>i. q = 2 ^ i"
proof -
  have pos: "q > 0" and co: "coprime p q" and eq: "x = of_int p / of_int q"
    using q quotient_of_denom_pos quotient_of_coprime quotient_of_div by blast+
  from x eq pos have "of_int (p * 2 ^ k) = (of_int (m * q) :: rat)"
    by (simp add: field_simps)
  then have "p * 2 ^ k = m * q" by (simp only: of_int_eq_iff)
  then have "q dvd p * 2 ^ k" by simp
  with co have "q dvd 2 ^ k" using coprime_commute coprime_dvd_mult_right_iff by blast
  with pos have "nat q dvd 2 ^ k" by (metis int_dvd_int_iff int_nat_eq of_nat_numeral of_nat_power order_less_imp_le)
  then obtain i where "nat q = 2 ^ i" using dvd_pow2 by blast
  with pos have "q = 2 ^ i" by (metis int_nat_eq of_nat_numeral of_nat_power order_less_imp_le)
  then show ?thesis by blast
qed

lemma exact_decimal_value:
  assumes pos: "x > 0" and dy: "x = of_int m / 2 ^ k"
  shows "fst (exact_decimal x) > 0 \<and> dec_value (exact_decimal x) = x"
proof -
  obtain p q where q: "quotient_of x = (p, q)" by (cases "quotient_of x")
  then obtain i where i: "q = 2 ^ i" using quotient_of_dyadic [OF dy] by blast
  have x: "x = of_int p / 2 ^ i" using quotient_of_div [OF q] i by simp
  with pos have p: "p > 0" by (simp add: zero_less_divide_iff)
  have b: "bitlen ((2::int) ^ i) = 1 + int i"
    using bitlen_pow2 [of 1 i] by (simp add: bitlen_def floorlog_def)
  have "dec_value (nat p * 5 ^ i, - int i) = of_int p * 5 ^ i * pow10 (- int i)"
    using p by (simp add: dec_value_def)
  also have "pow10 (- int i) = 1 / (2 ^ i * 5 ^ i)"
    by (cases "i = 0") (simp_all add: pow10_def flip: power_mult_distrib)
  finally have "dec_value (nat p * 5 ^ i, - int i) = x" using x by simp
  with p show ?thesis by (simp add: exact_decimal_def q i b)
qed

lemma shortest_value:
  assumes pos: "x > 0" and dbl: "is_double x"
  shows "fst (shortest k x e) > 0 \<and> to_double (dec_value (shortest k x e)) = Num x"
proof (induction k arbitrary: e)
  case 0
  obtain m j where "x = of_int m / 2 ^ j" using to_double_dyadic dbl unfolding is_double_def by blast
  from exact_decimal_value [OF pos this] dbl show ?case by (simp add: is_double_def)
next
  case (Suc k)
  then show ?case by (auto split: option.split dest: nearest_ok_value)
qed

section \<open>Number(String(n)) is n\<close>

definition number_stop :: "string \<Rightarrow> bool" where
  "number_stop r \<longleftrightarrow> r = [] \<or> (\<not> is_digit (hd r) \<and> hd r \<notin> {CHR ''.'', CHR ''e'', CHR ''E''})"

lemma scan_digits_append:
  "list_all is_digit ds \<Longrightarrow> r = [] \<or> \<not> is_digit (hd r) \<Longrightarrow> scan_digits (ds @ r) = (ds, r)"
  by (cases r) (auto simp: scan_digits_def takeWhile_append2 dropWhile_append2 list_all_iff
      takeWhile_eq_all_conv)

lemma not_digit [simp]:
  "\<not> is_digit CHR ''.''" "\<not> is_digit CHR ''e''" "\<not> is_digit CHR ''E''"
  "\<not> is_digit CHR ''-''" "\<not> is_digit CHR ''+''" "is_digit CHR ''0''"
  by (simp_all add: is_digit_def)

lemma scan_exponent_stop: "number_stop r \<Longrightarrow> scan_exponent r = (0, r)"
  by (cases r) (auto simp: scan_exponent_def number_stop_def)

lemma scan_fraction_stop:
  "number_stop r \<Longrightarrow> scan_fraction l r = ([], r)"
  "scan_fraction l (CHR ''e'' # r) = ([], CHR ''e'' # r)"
  by (cases r) (auto simp: scan_fraction_def number_stop_def)

lemma scan_fraction_digits:
  "f \<noteq> [] \<Longrightarrow> list_all is_digit f \<Longrightarrow> r = [] \<or> \<not> is_digit (hd r) \<Longrightarrow>
   scan_fraction l (CHR ''.'' # f @ r) = (f, r)"
  by (cases f) (auto simp: scan_fraction_def scan_digits_append [of "_ # _", simplified])

lemma scan_exponent_signed:
  assumes "number_stop r"
  shows "scan_exponent (CHR ''e'' # CHR ''-'' # nat_digits n @ r) = (- int n, r)"
    and "scan_exponent (CHR ''e'' # CHR ''+'' # nat_digits n @ r) = (int n, r)"
proof -
  have "scan_digits (nat_digits n @ r) = (nat_digits n, r)"
    using assms by (intro scan_digits_append nat_digits_all) (auto simp: number_stop_def)
  then show "scan_exponent (CHR ''e'' # CHR ''-'' # nat_digits n @ r) = (- int n, r)"
    and "scan_exponent (CHR ''e'' # CHR ''+'' # nat_digits n @ r) = (int n, r)"
    by (simp_all add: scan_exponent_def)
qed

lemma decimal_of_digits:
  "int (length i) + int (length f) = int (length ds) \<Longrightarrow> i @ f = ds \<Longrightarrow>
   decimal_of i f (n - int (length i)) = dec_value (digits_value ds, n - int (length ds))"
  by (simp add: decimal_of_def algebra_simps)

lemma dec_value_shift: "dec_value (d * 10 ^ j, e) = dec_value (d, e + int j)"
  by (simp add: dec_value_def pow10_add)

lemma digits_value_leading_zeros: "digits_value (CHR ''0'' # replicate j CHR ''0'' @ ds) = digits_value ds"
  using digits_value_zeros [of "Suc j"] digits_value_append [of "replicate (Suc j) CHR ''0''" ds] by simp

definition scans_to :: "bool \<Rightarrow> string \<Rightarrow> string \<Rightarrow> rat \<Rightarrow> bool" where
  "scans_to l s r v \<longleftrightarrow>
     (\<exists>i f e. scan_decimal l (s @ r) = (i, f, e, r) \<and> decimal_of i f e = v \<and> i \<noteq> [] \<and>
        (hd i \<noteq> CHR ''0'' \<or> i = ''0''))"

lemma scans_toI:
  "scan_decimal l (s @ r) = (i, f, e, r) \<Longrightarrow> decimal_of i f e = v \<Longrightarrow> i \<noteq> [] \<Longrightarrow>
   hd i \<noteq> CHR ''0'' \<or> i = ''0'' \<Longrightarrow> scans_to l s r v"
  unfolding scans_to_def by blast

lemma stop_not_digit: "number_stop r \<Longrightarrow> r = [] \<or> \<not> is_digit (hd r)"
  by (auto simp: number_stop_def)

lemma scan_integer:
  "list_all is_digit i \<Longrightarrow> number_stop r \<Longrightarrow> scan_decimal l (i @ r) = (i, [], 0, r)"
  by (simp add: scan_decimal_def scan_digits_append stop_not_digit scan_fraction_stop
      scan_exponent_stop)

lemma scan_with_fraction:
  assumes "list_all is_digit i" "list_all is_digit f" "f \<noteq> []" "number_stop r"
  shows "scan_decimal l (i @ CHR ''.'' # f @ r) = (i, f, 0, r)"
proof -
  have "scan_digits (i @ CHR ''.'' # f @ r) = (i, CHR ''.'' # f @ r)"
    using assms by (intro scan_digits_append) auto
  moreover have "scan_fraction l (CHR ''.'' # f @ r) = (f, r)"
    using assms by (intro scan_fraction_digits stop_not_digit)
  ultimately show ?thesis using assms by (simp add: scan_decimal_def scan_exponent_stop)
qed

lemma scan_with_exponent:
  assumes "list_all is_digit i" "list_all is_digit f" "number_stop r"
    and e: "scan_exponent (CHR ''e'' # q @ r) = (e, r)"
  shows "f \<noteq> [] \<Longrightarrow> scan_decimal l (i @ CHR ''.'' # f @ CHR ''e'' # q @ r) = (i, f, e, r)"
    and "scan_decimal l (i @ CHR ''e'' # q @ r) = (i, [], e, r)"
proof -
  assume f: "f \<noteq> []"
  have "scan_digits (i @ CHR ''.'' # f @ CHR ''e'' # q @ r) = (i, CHR ''.'' # f @ CHR ''e'' # q @ r)"
    using assms by (intro scan_digits_append) auto
  moreover have "scan_fraction l (CHR ''.'' # f @ CHR ''e'' # q @ r) = (f, CHR ''e'' # q @ r)"
    using assms f by (intro scan_fraction_digits) auto
  ultimately show "scan_decimal l (i @ CHR ''.'' # f @ CHR ''e'' # q @ r) = (i, f, e, r)"
    using e by (simp add: scan_decimal_def)
next
  have "scan_digits (i @ CHR ''e'' # q @ r) = (i, CHR ''e'' # q @ r)"
    using assms by (intro scan_digits_append) auto
  then show "scan_decimal l (i @ CHR ''e'' # q @ r) = (i, [], e, r)"
    using e by (simp add: scan_decimal_def scan_fraction_stop)
qed

lemma list_all_take_drop: "list_all P xs \<Longrightarrow> list_all P (take n xs) \<and> list_all P (drop n xs)"
  by (auto simp: list_all_iff dest: in_set_takeD in_set_dropD)

lemma format_decimal_scans:
  assumes ds: "ds \<noteq> []" "list_all is_digit ds" "hd ds \<noteq> CHR ''0''" and r: "number_stop r"
  shows "scans_to l (format_decimal ds n) r (dec_value (digits_value ds, n - int (length ds)))"
proof -
  let ?k = "int (length ds)"
  define q where "q = (if n - 1 < 0 then ''-'' @ nat_digits (nat (1 - n)) else ''+'' @ nat_digits (nat (n - 1)))"
  have q: "scan_exponent (CHR ''e'' # q @ r) = (n - 1, r)"
    using scan_exponent_signed [OF r] by (auto simp: q_def)
  consider (int) "?k \<le> n" "n \<le> 21" | (frac) "0 < n" "n < ?k" "n \<le> 21"
    | (small) "-6 < n" "n \<le> 0" | (exp1) "\<not> (?k \<le> n \<and> n \<le> 21)" "\<not> (0 < n \<and> n \<le> 21)" "\<not> (-6 < n \<and> n \<le> 0)" "?k = 1"
    | (exp) "\<not> (?k \<le> n \<and> n \<le> 21)" "\<not> (0 < n \<and> n \<le> 21)" "\<not> (-6 < n \<and> n \<le> 0)" "?k \<noteq> 1"
    by linarith
  then show ?thesis
  proof cases
    case int
    let ?z = "replicate (nat (n - ?k)) CHR ''0''"
    have "list_all is_digit (ds @ ?z)" using ds by (auto simp: list_all_iff)
    from scan_integer [OF this r, of l] int ds show ?thesis
      by (intro scans_toI [where i = "ds @ ?z" and f = "[]" and e = 0])
        (simp_all add: format_decimal_def decimal_of_def digits_value_append dec_value_shift)
  next
    case frac
    let ?i = "take (nat n) ds" and ?f = "drop (nat n) ds"
    have "?f \<noteq> []" "?i \<noteq> []" "hd ?i = hd ds" using frac ds by auto
    with scan_with_fraction [of ?i ?f r l] list_all_take_drop [OF ds(2), of "nat n"] r frac ds(3)
    show ?thesis
      by (intro scans_toI [where i = ?i and f = ?f and e = 0])
        (auto simp: format_decimal_def decimal_of_def algebra_simps)
  next
    case small
    let ?f = "replicate (nat (- n)) CHR ''0'' @ ds"
    have "list_all is_digit ?f" using ds by (auto simp: list_all_iff)
    moreover have "\<not> int (length ds) \<le> n" using ds small by (cases ds) auto
    ultimately show ?thesis
      using scan_with_fraction [of "''0''" ?f r l] r small ds
      by (intro scans_toI [where i = "''0''" and f = ?f and e = 0])
        (auto simp: format_decimal_def Let_def decimal_of_def digits_value_leading_zeros algebra_simps)
  next
    case exp1
    with scan_with_exponent(2) [OF ds(2) _ r q, of "[]" l] ds show ?thesis
      by (intro scans_toI [where i = ds and f = "[]" and e = "n - 1"])
        (auto simp: format_decimal_def decimal_of_def q_def Let_def)
  next
    case exp
    obtain d ds' where dd: "ds = d # ds'" using ds(1) by (cases ds) auto
    with exp have nz: "ds' \<noteq> []" by auto
    have fmt: "format_decimal ds n = [d] @ CHR ''.'' # ds' @ CHR ''e'' # q"
      by (simp only: format_decimal_def Let_def q_def if_not_P [OF exp(1)] if_not_P [OF exp(2)]
          if_not_P [OF exp(3)] if_not_P [OF exp(4)]) (simp add: dd)
    have "scan_decimal l (format_decimal ds n @ r) = ([d], ds', n - 1, r)"
      using scan_with_exponent(1) [OF _ _ r q nz, of "[d]" l] ds dd unfolding fmt by simp
    then show ?thesis
      using ds dd by (intro scans_toI [where i = "[d]" and f = ds' and e = "n - 1"])
        (auto simp: decimal_of_def algebra_simps)
  qed
qed

definition number_char :: "char \<Rightarrow> bool" where
  "number_char c \<longleftrightarrow> is_digit c \<or> c \<in> {CHR ''.'', CHR ''e'', CHR ''+'', CHR ''-''}"

lemma number_char_not_space: "number_char c \<Longrightarrow> \<not> js_space c"
  by (auto simp: number_char_def is_digit_def js_space_def)

lemma format_decimal_chars:
  "list_all is_digit ds \<Longrightarrow> list_all number_char (format_decimal ds n)"
  using nat_digits_all [of "nat (1 - n)"] nat_digits_all [of "nat (n - 1)"]
  by (auto simp: format_decimal_def Let_def list_all_iff number_char_def
      dest: in_set_takeD in_set_dropD)

lemma format_decimal_hd:
  "ds \<noteq> [] \<Longrightarrow> list_all is_digit ds \<Longrightarrow> format_decimal ds n \<noteq> [] \<and> is_digit (hd (format_decimal ds n))"
  by (cases ds) (auto simp: format_decimal_def Let_def hd_append)

lemma format_positive_facts:
  assumes "x > 0" "is_double x"
  shows "list_all number_char (format_positive x)"
    and "format_positive x \<noteq> []" and "is_digit (hd (format_positive x))"
    and "number_stop r \<Longrightarrow> \<exists>v. scans_to l (format_positive x) r v \<and> to_double v = Num x"
proof -
  define p where "p = strip_zeros (shortest 17 x (dec_exp x - 1))"
  obtain s e where p: "p = (s, e)" by (cases p)
  obtain s' e' where q: "shortest 17 x (dec_exp x - 1) = (s', e')" by fastforce
  have s': "s' > 0" "to_double (dec_value (s', e')) = Num x"
    using shortest_value [OF assms, of 17 "dec_exp x - 1"] q by simp_all
  have s: "s > 0" using strip_zeros_pos [OF s'(1), of e'] p q p_def by simp
  have v: "to_double (dec_value (s, e)) = Num x"
    using dec_value_strip_zeros [of s' e'] s'(2) p q p_def by metis
  have f: "format_positive x = format_decimal (nat_digits s) (int (length (nat_digits s)) + e)"
    using p by (simp add: format_positive_def p_def Let_def)
  show "list_all number_char (format_positive x)"
    unfolding f by (intro format_decimal_chars nat_digits_all)
  show "format_positive x \<noteq> []" and "is_digit (hd (format_positive x))"
    unfolding f using format_decimal_hd [OF nat_digits_not_Nil nat_digits_all] by blast+
  assume r: "number_stop r"
  have "scans_to l (format_positive x) r (dec_value (s, e))"
    using format_decimal_scans [OF nat_digits_not_Nil nat_digits_all hd_nat_digits [OF s] r,
        of l "int (length (nat_digits s)) + e"]
    unfolding f by simp
  with v show "\<exists>v. scans_to l (format_positive x) r v \<and> to_double v = Num x" by blast
qed

lemma unsigned_number_format:
  assumes "x > 0" "is_double x"
  shows "unsigned_number (format_positive x) = Num x"
proof -
  have "number_stop []" by (simp add: number_stop_def)
  from format_positive_facts(4) [OF assms this, of True] obtain v where
    v: "scans_to True (format_positive x) [] v" "to_double v = Num x" by blast
  have "format_positive x \<noteq> ''Infinity''"
    using format_positive_facts(3) [OF assms] by (auto simp: is_digit_def)
  with v show ?thesis by (auto simp: unsigned_number_def scans_to_def)
qed

lemma to_double_minus: "to_double (- x) = num_neg (to_double x)"
  by (auto simp: to_double_def Let_def)

lemma is_double_minus [simp]: "is_double (- x) = is_double x"
  by (auto simp: is_double_def to_double_minus) (metis jsnum.inject num_neg.cases num_neg.simps minus_minus jsnum.distinct)+

text \<open>The first number law: reading back what \<open>String\<close> wrote gives the same number.\<close>

lemma string_to_number_to_string: "num_ok n \<Longrightarrow> string_to_number (num_to_string n) = n"
proof (cases n)
  case Num: (Num x)
  assume ok: "num_ok n"
  have zero: "string_to_number ''0'' = Num 0" by code_simp
  consider "x = 0" | "x > 0" | "x < 0" by linarith
  then show ?thesis
  proof cases
    case 1
    with Num zero show ?thesis by simp
  next
    case 2
    with ok Num have d: "is_double x" by simp
    let ?s = "format_positive x"
    have chars: "\<forall>c \<in> set ?s. number_char c" and ne: "?s \<noteq> []" and hd: "is_digit (hd ?s)"
      using format_positive_facts [OF 2 d] by (auto simp: list_all_iff)
    have "trim ?s = ?s" using chars ne number_char_not_space by (intro trim_id) auto
    moreover have "\<not> prefix (CHR ''0'' # c # []) ?s" if "\<not> number_char c" for c
      using chars that by (auto simp: prefix_def)
    moreover have "hd ?s \<noteq> CHR ''-''" "hd ?s \<noteq> CHR ''+''" using hd not_digit by metis+
    ultimately show ?thesis
      using unsigned_number_format [OF 2 d] ne 2 Num
      by (simp add: string_to_number_def Let_def number_char_def is_digit_def)
  next
    case 3
    with ok Num have d: "- x > 0" "is_double (- x)" by simp_all
    let ?s = "format_positive (- x)"
    have chars: "\<forall>c \<in> set ?s. number_char c" and ne: "?s \<noteq> []"
      using format_positive_facts [OF d] by (auto simp: list_all_iff)
    have "trim (CHR ''-'' # ?s) = CHR ''-'' # ?s"
      using chars ne number_char_not_space by (intro trim_id) (auto simp: js_space_def)
    then show ?thesis
      using unsigned_number_format [OF d] 3 Num by (simp add: string_to_number_def)
  qed
next
  case NaN
  have "string_to_number ''NaN'' = NaN" by code_simp
  with NaN show ?thesis by simp
next
  case Infinity
  have "string_to_number ''Infinity'' = Infinity" by code_simp
  with Infinity show ?thesis by simp
next
  case NegInfinity
  have "string_to_number ''-Infinity'' = NegInfinity" by code_simp
  with NegInfinity show ?thesis by simp
qed

section \<open>Integers\<close>

lemma bitlen_bounds_int: "p > 0 \<Longrightarrow> 2 ^ nat (bitlen p - 1) \<le> p \<and> p < 2 ^ nat (bitlen p)"
  using bitlen_bounds [of p] by auto

lemma flog2_int:
  assumes "p > 0"
  shows "flog2 (of_int p) = bitlen p - 1"
proof -
  have b: "bitlen (1::int) = 1" by (simp add: bitlen_def floorlog_def)
  have pos: "bitlen p > 0" using assms bitlen_eq_zero_iff [of p] bitlen_nonneg [of p] by linarith
  have "pow2 (bitlen p - 1) \<le> of_int p"
    using bitlen_bounds_int [OF assms] pos unfolding pow2_def
    by (metis diff_ge_0_iff_ge int_one_le_iff_zero_less of_int_le_iff)
  then show ?thesis using b by (simp add: flog2_def)
qed

lemma round_half_even_int [simp]: "round_half_even (of_int m) = m"
  by (simp add: round_half_even_def)

lemma to_double_of_int:
  assumes "\<bar>m\<bar> \<le> 2 ^ 53"
  shows "to_double (of_int m) = Num (of_int m)"
proof (cases "m = 0")
  case False
  let ?p = "\<bar>m\<bar>" and ?e = "max (bitlen \<bar>m\<bar> - 1 - 52) (-1074)"
  have p: "?p > 0" using False by simp
  have abs: "\<bar>of_int m :: rat\<bar> = of_int ?p" by simp
  have "\<exists>k. of_int ?p / pow2 ?e = of_int k"
  proof (cases "?e \<le> 0")
    case True
    have "of_int ?p / pow2 ?e = of_int (?p * 2 ^ nat (- ?e))"
      using True by (auto simp: pow2_def)
    then show ?thesis by blast
  next
    case e: False
    then have "bitlen ?p \<ge> 54" by linarith
    then have "(2::int) ^ 53 \<le> 2 ^ nat (bitlen ?p - 1)" by (intro power_increasing) auto
    with bitlen_bounds_int [OF p] assms have m: "?p = 2 ^ 53" by linarith
    have "bitlen ((2::int) ^ 53) = 54"
      using bitlen_pow2 [of 1 53] by (simp add: bitlen_def floorlog_def)
    with m have "of_int ?p / pow2 ?e = of_int (2 ^ 52)" by (simp add: pow2_def)
    then show ?thesis by blast
  qed
  then obtain k where k: "of_int ?p / pow2 ?e = of_int k" by blast
  have "pow2 ?e \<noteq> 0" by (simp add: pow2_def)
  with k have m: "of_int k * pow2 ?e = of_int ?p" by (simp add: field_simps)
  have "bitlen ?p \<le> 54"
    using bitlen_le_iff_power [of ?p 54] assms by simp
  then have small: "?e < 971" by simp
  show ?thesis
    using False k m small p
    by (auto simp: to_double_def Let_def flog2_int [OF p] abs simp del: of_int_abs)
qed (simp add: to_double_def)

lemma is_double_of_int: "\<bar>m\<bar> \<le> 2 ^ 53 \<Longrightarrow> is_double (of_int m)"
  by (simp add: is_double_def to_double_of_int)

lemma is_double_numeral [simp]:
  "numeral k \<le> (2 ^ 53 :: int) \<Longrightarrow> is_double (numeral k)"
  "is_double 0" "is_double 1"
  using is_double_of_int [of "numeral k"] is_double_of_int [of 0] is_double_of_int [of 1] by simp_all

section \<open>Rounding yields doubles\<close>

lemma pow2_powi: "pow2 e = 2 powi e"
  by (simp add: pow2_def power_int_def inverse_eq_divide power_one_over)

lemma pow2_pos [simp]: "pow2 e > 0"
  by (simp add: pow2_powi)

lemma pow2_add: "pow2 (a + b) = pow2 a * pow2 b"
  by (simp add: pow2_powi power_int_add)

lemma pow2_nat [simp]: "pow2 (int n) = 2 ^ n"
  by (simp add: pow2_def)

lemma pow2_mono: "a \<le> b \<Longrightarrow> pow2 a \<le> pow2 b"
  by (simp add: pow2_powi power_int_increasing)

lemma pow2_less_imp: "pow2 a < pow2 b \<Longrightarrow> a < b"
  using pow2_mono [of b a] by linarith

lemma bitlen_pow2_bounds: "p > 0 \<Longrightarrow> pow2 (bitlen p - 1) \<le> of_int p \<and> of_int p < pow2 (bitlen p)"
proof -
  assume p: "p > 0"
  then have pos: "bitlen p \<ge> 1" using bitlen_eq_zero_iff [of p] bitlen_nonneg [of p] by linarith
  from bitlen_bounds_int [OF p] have "2 ^ nat (bitlen p - 1) \<le> p" "p < 2 ^ nat (bitlen p)" by auto
  then have "(of_int (2 ^ nat (bitlen p - 1)) :: rat) \<le> of_int p" "(of_int p :: rat) < of_int (2 ^ nat (bitlen p))"
    by (simp_all only: of_int_le_iff of_int_less_iff)
  with pos show ?thesis by (simp add: pow2_def)
qed

lemma flog2_bounds:
  assumes "x > 0"
  shows "pow2 (flog2 x) \<le> x" and "x < pow2 (flog2 x + 1)"
proof -
  obtain p q where pq: "quotient_of x = (p, q)" by (cases "quotient_of x")
  have q: "q > 0" using quotient_of_denom_pos [OF pq] .
  have x: "x = of_int p / of_int q" using quotient_of_div [OF pq] .
  then have p: "p > 0" using assms q by (simp add: zero_less_divide_iff)
  define k where "k = bitlen p - bitlen q"
  note bp = bitlen_pow2_bounds [OF p] and bq = bitlen_pow2_bounds [OF q]
  have qpos: "(of_int q :: rat) > 0" using q by simp
  have "x * of_int q = of_int p" using x q by simp
  moreover have "x * pow2 (bitlen q - 1) \<le> x * of_int q" "x * of_int q < x * pow2 (bitlen q)"
    using bq assms by simp_all
  ultimately have up: "x * pow2 (bitlen q - 1) < pow2 (bitlen p)" and lo: "pow2 (bitlen p - 1) < x * pow2 (bitlen q)"
    using bp by linarith+
  have "pow2 (bitlen p) = pow2 (k + 1) * pow2 (bitlen q - 1)" "pow2 (bitlen p - 1) = pow2 (k - 1) * pow2 (bitlen q)"
    unfolding k_def by (simp_all add: pow2_add [symmetric])
  with up lo have xk: "x < pow2 (k + 1)" "pow2 (k - 1) < x"
    by (metis mult_less_cancel_right_pos pow2_pos)+
  have f: "flog2 x = (if pow2 k \<le> x then k else k - 1)" by (simp add: flog2_def pq k_def)
  show "pow2 (flog2 x) \<le> x" and "x < pow2 (flog2 x + 1)" using f xk by (auto split: if_splits)
qed

lemma round_half_even_bounds: "x \<le> of_int m \<Longrightarrow> round_half_even x \<le> m"
proof -
  assume "x \<le> of_int m"
  then have "\<lfloor>x\<rfloor> \<le> m" "\<lfloor>x\<rfloor> = m \<Longrightarrow> x = of_int m" by linarith+
  then show ?thesis by (cases "\<lfloor>x\<rfloor> = m") (auto simp: round_half_even_def Let_def)
qed

lemma round_half_even_nonneg: "0 \<le> x \<Longrightarrow> 0 \<le> round_half_even x"
  by (auto simp: round_half_even_def Let_def)

definition dyadic53 :: "rat \<Rightarrow> bool" where
  "dyadic53 x \<longleftrightarrow> (\<exists>m e. x = of_int m * pow2 e \<and> 0 < m \<and> m \<le> 2 ^ 53 \<and> -1074 \<le> e \<and> e \<le> 971 \<and> (e = 971 \<longrightarrow> m < 2 ^ 53))"

lemma to_double_dyadic53:
  assumes "dyadic53 x"
  shows "to_double x = Num x"
proof -
  from assms obtain m e where x: "x = of_int m * pow2 e" and m: "0 < m" "m \<le> 2 ^ 53"
    and e: "-1074 \<le> e" "e \<le> 971" "e = 971 \<longrightarrow> m < 2 ^ 53"
    unfolding dyadic53_def by blast
  have pos: "x > 0" using x m by simp
  define e' where "e' = max (flog2 x - 52) (-1074)"
  have m53: "(of_int m :: rat) \<le> 2 ^ 53" using m(2) by (metis of_int_le_iff of_int_numeral of_int_power)
  then have "x \<le> pow2 (53 + e)" using x by (simp add: pow2_add pow2_nat [of 53, simplified])
  with flog2_bounds(1) [OF pos] have le: "pow2 (flog2 x) \<le> pow2 (53 + e)" by linarith
  then have fe: "flog2 x \<le> 53 + e" using pow2_mono [of "53 + e + 1" "flog2 x"] pow2_add [of "53 + e" 1] pow2_pos [of "53 + e"]
    by (force simp: pow2_def)
  have int: "\<exists>k. x / pow2 e' = of_int k"
  proof (cases "e' \<le> e")
    case True
    have "pow2 e = pow2 e' * pow2 (e - e')" by (simp add: pow2_add [symmetric])
    then have "x / pow2 e' = of_int (m * 2 ^ nat (e - e'))"
      using True by (simp add: x pow2_def)
    then show ?thesis by blast
  next
    case False
    then have e1: "flog2 x = 53 + e" "e' = e + 1" using fe e(1) by (auto simp: e'_def)
    then have "pow2 (53 + e) \<le> x" using flog2_bounds(1) [OF pos] by simp
    then have "(2 :: rat) ^ 53 \<le> of_int m" using x by (simp add: pow2_add pow2_nat [of 53, simplified])
    then have "m = 2 ^ 53" using m(2) m53 by (metis antisym of_int_eq_iff of_int_numeral of_int_power)
    then have "x / pow2 e' = of_int (2 ^ 52)" using e1 x by (simp add: pow2_add) (simp add: pow2_def)
    then show ?thesis by blast
  qed
  then obtain k where k: "x / pow2 e' = of_int k" by blast
  then have xk: "of_int k * pow2 e' = x" by (metis nonzero_eq_divide_eq pow2_pos less_irrefl)
  have "x < pow2 1024"
  proof (cases "e = 971")
    case True
    then have "(of_int m :: rat) < 2 ^ 53" using e(3) by (metis of_int_less_iff of_int_numeral of_int_power)
    then have "x < pow2 53 * pow2 971" using x True by (simp add: pow2_def)
    then show ?thesis by (simp add: pow2_add [symmetric])
  next
    case False
    then have "pow2 (53 + e) \<le> pow2 1023" using e by (intro pow2_mono) simp
    moreover have "pow2 1023 < pow2 1024" by (simp add: pow2_def)
    ultimately show ?thesis using \<open>x \<le> pow2 (53 + e)\<close> by linarith
  qed
  then have big: "flog2 x < 1024" using flog2_bounds(1) [OF pos] pow2_less_imp by fastforce
  then have "e' \<le> 971" by (simp add: e'_def)
  moreover have "e' = 971 \<Longrightarrow> k < 2 ^ 53"
  proof -
    assume "e' = 971"
    with xk \<open>x < pow2 1024\<close> have "of_int k * pow2 971 < pow2 53 * pow2 971" by (simp add: pow2_add [symmetric])
    then have "(of_int k :: rat) < 2 ^ 53" by (simp add: pow2_def)
    then show "k < 2 ^ 53" by (metis of_int_less_iff of_int_numeral of_int_power)
  qed
  ultimately show ?thesis
    using pos k xk by (auto simp: to_double_def Let_def e'_def [symmetric])
qed

lemma to_double_result:
  assumes "x > 0" "to_double x = Num y"
  shows "y = 0 \<or> dyadic53 y"
proof -
  define e m where "e = max (flog2 x - 52) (-1074)" and "m = round_half_even (x / pow2 e)"
  have fin: "\<not> (e > 971 \<or> (e = 971 \<and> m \<ge> 2 ^ 53))" and y: "y = of_int m * pow2 e"
    using assms by (auto simp: to_double_def Let_def e_def m_def split: if_splits)
  have "x < pow2 (flog2 x + 1)" using flog2_bounds(2) [OF assms(1)] .
  also have "\<dots> \<le> pow2 (53 + e)" by (intro pow2_mono) (simp add: e_def)
  finally have "x / pow2 e \<le> of_int (2 ^ 53)"
    by (simp add: pow2_add divide_le_eq) (simp add: pow2_def)
  then have "m \<le> 2 ^ 53" unfolding m_def by (rule round_half_even_bounds)
  moreover have "m \<ge> 0" unfolding m_def by (rule round_half_even_nonneg) (use assms(1) pow2_pos [of e] in \<open>simp add: less_imp_le\<close>)
  moreover have "e \<ge> -1074" by (simp add: e_def)
  ultimately have "m \<noteq> 0 \<Longrightarrow> 0 < m \<and> m \<le> 2 ^ 53 \<and> -1074 \<le> e \<and> e \<le> 971 \<and> (e = 971 \<longrightarrow> m < 2 ^ 53)"
    using fin by linarith
  then show ?thesis using y unfolding dyadic53_def by (cases "m = 0") (simp, blast)
qed

lemma num_ok_to_double [simp]: "num_ok (to_double x)"
proof (cases "to_double x")
  case (Num y)
  have pos: "is_double y" if "x > 0" "to_double x = Num y" for x y
    using to_double_result [OF that] to_double_dyadic53 [of y] is_double_numeral(2) by (auto simp: is_double_def)
  show ?thesis
  proof (cases "x > 0")
    case False
    then consider "x = 0" | "- x > 0" by linarith
    then show ?thesis
    proof cases
      case 2
      have "to_double (- x) = Num (- y)" using Num by (simp add: to_double_minus)
      from pos [OF 2 this] Num show ?thesis by simp
    qed (use Num in \<open>simp add: to_double_def is_double_def\<close>)
  qed (use pos Num in simp)
qed simp_all

lemma num_ok_neg [simp]: "num_ok (num_neg n) = num_ok n"
  by (cases n) simp_all

lemma num_ok_string_to_number [simp]: "num_ok (string_to_number s)"
proof -
  have u: "num_ok (unsigned_number t)" for t by (simp add: unsigned_number_def split: prod.split)
  have r: "num_ok (radix_number b t)" for b t by (simp add: radix_number_def)
  have "is_double 0" by simp
  with u r show ?thesis by (simp add: string_to_number_def Let_def)
qed

end
