(* ===== verification/Json.thy ===== *)
theory Json
  imports JsNumber
begin

text \<open>
  JSON values with \<open>JSON.stringify\<close> (compact and with an indent), \<open>JSON.parse\<close> and
  \<open>String(value)\<close>, and the round trip through both printers. \<open>JSON.parse\<close> runs on fuel: one
  unit per call, and \<open>parse_fuel_enough\<close> shows that twice the input length plus one always suffices.
\<close>

section \<open>Values\<close>

datatype json =
    JNull
  | JBool bool
  | JNum jsnum
  | JStr string
  | JArr "json list"
  | JObj "(string \<times> json) list"

text \<open>Numbers are doubles and finite, objects list their properties in property order.\<close>

fun json_ok :: "json \<Rightarrow> bool" and jsons_ok :: "json list \<Rightarrow> bool" and members_ok :: "(string \<times> json) list \<Rightarrow> bool" where
  "json_ok (JNum n) = (is_finite n \<and> num_ok n)"
| "json_ok (JArr vs) = jsons_ok vs"
| "json_ok (JObj ps) = (obj_ok ps \<and> members_ok ps)"
| "json_ok v = True"
| "jsons_ok [] = True"
| "jsons_ok (v # vs) = (json_ok v \<and> jsons_ok vs)"
| "members_ok [] = True"
| "members_ok ((k, v) # ps) = (json_ok v \<and> members_ok ps)"

section \<open>JSON.stringify\<close>

abbreviation quote_char :: char where "quote_char \<equiv> CHR 0x22"
abbreviation backslash :: char where "backslash \<equiv> CHR 0x5C"

definition hex_digit :: "nat \<Rightarrow> char" where
  "hex_digit d = (if d < 10 then char_of (48 + d) else char_of (87 + d))"

definition escape_char :: "char \<Rightarrow> string" where
  "escape_char c =
     (if c = quote_char \<or> c = backslash then [backslash, c]
      else if c = CHR 0x08 then [backslash, CHR ''b'']
      else if c = CHR 0x09 then [backslash, CHR ''t'']
      else if c = CHR 0x0A then [backslash, CHR ''n'']
      else if c = CHR 0x0C then [backslash, CHR ''f'']
      else if c = CHR 0x0D then [backslash, CHR ''r'']
      else if (of_char c :: nat) < 32 then
        [backslash, CHR ''u'', CHR ''0'', CHR ''0'', hex_digit (of_char c div 16), hex_digit (of_char c mod 16)]
      else [c])"

definition quote :: "string \<Rightarrow> string" where
  "quote s = quote_char # concat (map escape_char s) @ [quote_char]"

definition indentation :: "nat option \<Rightarrow> nat \<Rightarrow> string" where
  "indentation g d = (case g of None \<Rightarrow> [] | Some _ \<Rightarrow> newline # replicate d CHR '' '')"

definition gap_width :: "nat option \<Rightarrow> nat" where
  "gap_width g = (case g of None \<Rightarrow> 0 | Some n \<Rightarrow> n)"

fun print_json :: "nat option \<Rightarrow> nat \<Rightarrow> json \<Rightarrow> string"
  and print_elements :: "nat option \<Rightarrow> nat \<Rightarrow> json list \<Rightarrow> string"
  and print_members :: "nat option \<Rightarrow> nat \<Rightarrow> (string \<times> json) list \<Rightarrow> string" where
  "print_json g d JNull = ''null''"
| "print_json g d (JBool b) = (if b then ''true'' else ''false'')"
| "print_json g d (JNum n) = (if is_finite n then num_to_string n else ''null'')"
| "print_json g d (JStr s) = quote s"
| "print_json g d (JArr vs) =
     (if vs = [] then ''[]''
      else ''['' @ indentation g (d + gap_width g) @ print_elements g (d + gap_width g) vs
        @ indentation g d @ '']'')"
| "print_json g d (JObj ps) =
     (if ps = [] then ''{}''
      else ''{'' @ indentation g (d + gap_width g) @ print_members g (d + gap_width g) ps
        @ indentation g d @ ''}'')"
| "print_elements g d [] = []"
| "print_elements g d (v # vs) =
     print_json g d v @ (if vs = [] then [] else '','' @ indentation g d @ print_elements g d vs)"
| "print_members g d [] = []"
| "print_members g d ((k, v) # ps) =
     quote k @ '':'' @ (if g = None then [] else '' '') @ print_json g d v
       @ (if ps = [] then [] else '','' @ indentation g d @ print_members g d ps)"

definition stringify :: "json \<Rightarrow> string" where
  "stringify v = print_json None 0 v"

definition stringify_indented :: "json \<Rightarrow> string" where
  "stringify_indented v = print_json (Some 2) 0 v"

section \<open>JSON.parse\<close>

definition json_space :: "char \<Rightarrow> bool" where
  "json_space c \<longleftrightarrow> c \<in> {CHR 0x20, CHR 0x09, CHR 0x0A, CHR 0x0D}"

definition skip_ws :: "string \<Rightarrow> string" where
  "skip_ws s = dropWhile json_space s"

text \<open>A code unit from 256 up becomes the bytes of its UTF-8 encoding, as in the literals.\<close>

definition code_unit :: "nat \<Rightarrow> string" where
  "code_unit n =
     (if n < 256 then [char_of n]
      else if n < 2048 then [char_of (192 + n div 64), char_of (128 + n mod 64)]
      else [char_of (224 + n div 4096), char_of (128 + n div 64 mod 64), char_of (128 + n mod 64)])"

definition unescape :: "char \<Rightarrow> char option" where
  "unescape c =
     (if c = quote_char \<or> c = backslash \<or> c = CHR ''/'' then Some c
      else if c = CHR ''b'' then Some (CHR 0x08)
      else if c = CHR ''t'' then Some (CHR 0x09)
      else if c = CHR ''n'' then Some (CHR 0x0A)
      else if c = CHR ''f'' then Some (CHR 0x0C)
      else if c = CHR ''r'' then Some (CHR 0x0D)
      else None)"

fun parse_chars :: "string \<Rightarrow> (string \<times> string) option" where
  "parse_chars [] = None"
| "parse_chars (c # s) =
     (if c = quote_char then Some ([], s)
      else if c = backslash then
        (case s of
           [] \<Rightarrow> None
         | e # t \<Rightarrow>
             if e = CHR ''u'' then
               (case t of
                  h1 # h2 # h3 # h4 # r \<Rightarrow>
                    if list_all (\<lambda>h. radix_digit h < 16) [h1, h2, h3, h4]
                    then map_option (\<lambda>(x, q). (code_unit (((radix_digit h1 * 16 + radix_digit h2) * 16
                            + radix_digit h3) * 16 + radix_digit h4) @ x, q)) (parse_chars r)
                    else None
                | _ \<Rightarrow> None)
             else (case unescape e of
                     None \<Rightarrow> None
                   | Some x \<Rightarrow> map_option (\<lambda>(y, q). (x # y, q)) (parse_chars t)))
      else if (of_char c :: nat) < 32 then None
      else map_option (\<lambda>(x, q). (c # x, q)) (parse_chars s))"

definition parse_number :: "string \<Rightarrow> (json \<times> string) option" where
  "parse_number s =
     (let neg = (s \<noteq> [] \<and> hd s = CHR ''-'');
          (i, f, e, r) = scan_decimal False (if neg then tl s else s)
      in if i \<noteq> [] \<and> (hd i \<noteq> CHR ''0'' \<or> i = ''0'')
         then Some (JNum (if neg then num_neg (to_double (decimal_of i f e)) else to_double (decimal_of i f e)), r)
         else None)"

definition parse_scalar :: "string \<Rightarrow> (json \<times> string) option" where
  "parse_scalar s =
     (if prefix ''null'' s then Some (JNull, drop 4 s)
      else if prefix ''true'' s then Some (JBool True, drop 4 s)
      else if prefix ''false'' s then Some (JBool False, drop 5 s)
      else if prefix [quote_char] s then map_option (\<lambda>(x, r). (JStr x, r)) (parse_chars (tl s))
      else parse_number s)"

fun parse_value :: "nat \<Rightarrow> string \<Rightarrow> (json \<times> string) option"
  and parse_elements :: "nat \<Rightarrow> string \<Rightarrow> (json list \<times> string) option"
  and parse_members :: "nat \<Rightarrow> string \<Rightarrow> ((string \<times> json) list \<times> string) option" where
  "parse_value 0 s = None"
| "parse_value (Suc n) s =
     (let t = skip_ws s in
      if prefix ''['' t then
        (if prefix '']'' (skip_ws (tl t)) then Some (JArr [], tl (skip_ws (tl t)))
         else map_option (\<lambda>(vs, r). (JArr vs, r)) (parse_elements n (tl t)))
      else if prefix ''{'' t then
        (if prefix ''}'' (skip_ws (tl t)) then Some (JObj [], tl (skip_ws (tl t)))
         else map_option (\<lambda>(ps, r). (JObj (from_entries ps), r)) (parse_members n (tl t)))
      else parse_scalar t)"
| "parse_elements 0 s = None"
| "parse_elements (Suc n) s =
     (case parse_value n s of
        None \<Rightarrow> None
      | Some (v, r) \<Rightarrow>
          if prefix '','' (skip_ws r) then
            map_option (\<lambda>(vs, q). (v # vs, q)) (parse_elements n (tl (skip_ws r)))
          else if prefix '']'' (skip_ws r) then Some ([v], tl (skip_ws r))
          else None)"
| "parse_members 0 s = None"
| "parse_members (Suc n) s =
     (if prefix [quote_char] (skip_ws s) then
        (case parse_chars (tl (skip_ws s)) of
           None \<Rightarrow> None
         | Some (k, r) \<Rightarrow>
             if prefix '':'' (skip_ws r) then
               (case parse_value n (tl (skip_ws r)) of
                  None \<Rightarrow> None
                | Some (v, q) \<Rightarrow>
                    if prefix '','' (skip_ws q) then
                      map_option (\<lambda>(ps, z). ((k, v) # ps, z)) (parse_members n (tl (skip_ws q)))
                    else if prefix ''}'' (skip_ws q) then Some ([(k, v)], tl (skip_ws q))
                    else None)
             else None)
      else None)"

definition json_parse :: "string \<Rightarrow> json option" where
  "json_parse s =
     (case parse_value (2 * length s + 1) s of
        None \<Rightarrow> None
      | Some (v, r) \<Rightarrow> if skip_ws r = [] then Some v else None)"

section \<open>String(value)\<close>

fun json_to_string :: "json \<Rightarrow> string" and elements_to_strings :: "json list \<Rightarrow> string list" where
  "json_to_string JNull = ''null''"
| "json_to_string (JBool b) = (if b then ''true'' else ''false'')"
| "json_to_string (JNum n) = num_to_string n"
| "json_to_string (JStr s) = s"
| "json_to_string (JArr vs) = js_join '','' (elements_to_strings vs)"
| "json_to_string (JObj ps) = ''[object Object]''"
| "elements_to_strings [] = []"
| "elements_to_strings (v # vs) = (if v = JNull then [] else json_to_string v) # elements_to_strings vs"

section \<open>The fuel is enough\<close>

lemma prefix_Cons_not_Nil: "prefix (c # p) s \<Longrightarrow> s \<noteq> []"
  by auto

lemma skip_ws_length: "length (skip_ws s) \<le> length s"
  by (simp add: skip_ws_def length_dropWhile_le)

lemma length_tl_skip_ws: "skip_ws s \<noteq> [] \<Longrightarrow> length (tl (skip_ws s)) < length s"
  using skip_ws_length [of s] by (cases "skip_ws s") auto

lemma parse_chars_shorter: "parse_chars s = Some (x, r) \<Longrightarrow> length r < length s"
proof (induction s arbitrary: x r rule: parse_chars.induct)
  case (2 c s)
  then show ?case by (fastforce split: if_splits list.splits option.splits)
qed simp

lemma scan_shorter:
  "scan_digits s = (x, r) \<Longrightarrow> length r \<le> length s"
  "scan_fraction l s = (x, r) \<Longrightarrow> length r \<le> length s"
  "scan_exponent s = (e, r) \<Longrightarrow> length r \<le> length s"
proof -
  show digits: "length r \<le> length s" if "scan_digits s = (x, r)" for s x r
    using that by (auto simp: scan_digits_def length_dropWhile_le)
  then show "scan_fraction l s = (x, r) \<Longrightarrow> length r \<le> length s"
    by (fastforce simp: scan_fraction_def split: list.splits if_splits)
  show "scan_exponent s = (e, r) \<Longrightarrow> length r \<le> length s"
    using digits by (fastforce simp: scan_exponent_def Let_def split: list.splits if_splits prod.splits)
qed

lemma scan_decimal_shorter:
  assumes "scan_decimal l s = (i, f, e, r)" "i \<noteq> []"
  shows "length r < length s"
proof -
  from assms obtain r1 r2 where s: "scan_digits s = (i, r1)" "scan_fraction l r1 = (f, r2)" "scan_exponent r2 = (e, r)"
    by (auto simp: scan_decimal_def split: prod.splits)
  have "length i + length r1 = length s"
    using s(1) by (auto simp: scan_digits_def) (metis length_append takeWhile_dropWhile_id)
  with assms(2) have "length r1 < length s" by (cases i) auto
  with scan_shorter(2) [OF s(2)] scan_shorter(3) [OF s(3)] show ?thesis by linarith
qed

lemma parse_scalar_shorter: "parse_scalar s = Some (v, r) \<Longrightarrow> length r < length s"
proof -
  assume p: "parse_scalar s = Some (v, r)"
  have number: "length r < length s" if "parse_number s = Some (v, r)"
    using that scan_decimal_shorter
    by (fastforce simp: parse_number_def Let_def split: if_splits prod.splits)
  have drop: "prefix p s \<Longrightarrow> p \<noteq> [] \<Longrightarrow> length (drop k s) < length s" if "k > 0" for p k
    using that by (cases s) (auto simp: prefix_def)
  show ?thesis
    using p number drop parse_chars_shorter
    by (fastforce simp: parse_scalar_def prefix_def split: if_splits)
qed

lemma parse_members_SomeD:
  assumes "parse_members (Suc n) s = Some (ps, r)"
  obtains k q v z where "prefix [quote_char] (skip_ws s)" "parse_chars (tl (skip_ws s)) = Some (k, q)"
    "prefix '':'' (skip_ws q)" "parse_value n (tl (skip_ws q)) = Some (v, z)"
    "prefix '','' (skip_ws z) \<or> prefix ''}'' (skip_ws z)"
proof (cases "parse_chars (tl (skip_ws s))")
  case (Some kq)
  obtain k q where kq: "kq = (k, q)" by (cases kq)
  show ?thesis
  proof (cases "parse_value n (tl (skip_ws q))")
    case v: (Some vz)
    obtain v z where "vz = (v, z)" by (cases vz)
    with that [of k q v z] assms Some kq v show ?thesis by (simp split: if_splits)
  qed (use assms Some kq in \<open>simp split: if_splits\<close>)
qed (use assms in \<open>simp split: if_splits\<close>)

lemma parse_shorter:
  "parse_value n s = Some (v, r) \<Longrightarrow> length r < length s"
  "parse_elements n s = Some (vs, r) \<Longrightarrow> length r < length s"
  "parse_members n s = Some (ps, r) \<Longrightarrow> length r < length s"
proof (induction n s and n s and n s arbitrary: v r and vs r and ps r
    rule: parse_value_parse_elements_parse_members.induct)
  case (2 n s)
  have s: "length (skip_ws s) \<le> length s" by (rule skip_ws_length)
  show ?case
  proof (cases "prefix ''['' (skip_ws s) \<or> prefix ''{'' (skip_ws s)")
    case True
    then obtain c t where t: "skip_ws s = c # t" by (cases "skip_ws s") auto
    show ?thesis
      using 2 t s True skip_ws_length [of t] length_tl_skip_ws [of t]
      by (fastforce simp: Let_def prefix_def split: if_splits)
  next
    case False
    with 2 have "parse_scalar (skip_ws s) = Some (v, r)" by (simp add: Let_def)
    with parse_scalar_shorter s show ?thesis by fastforce
  qed
next
  case (4 n s)
  then obtain v q where v: "parse_value n s = Some (v, q)" by (auto split: option.splits)
  with 4 have q: "length q < length s" by simp
  have ne: "skip_ws q \<noteq> []" using 4(3) v by (auto split: if_splits)
  show ?case using 4 v q length_tl_skip_ws [OF ne] by (fastforce split: if_splits)
next
  case (6 n s)
  from 6(3) obtain k q v z where p: "prefix [quote_char] (skip_ws s)" "prefix '':'' (skip_ws q)"
    "prefix '','' (skip_ws z) \<or> prefix ''}'' (skip_ws z)"
    and pk: "parse_chars (tl (skip_ws s)) = Some (k, q)"
    and pv: "parse_value n (tl (skip_ws q)) = Some (v, z)"
    by (rule parse_members_SomeD)
  have k: "skip_ws s \<noteq> []" using p(1) by auto
  have k2: "skip_ws q \<noteq> []" using p(2) by auto
  have v: "skip_ws z \<noteq> []" using p(3) by auto
  have "length q < length s"
    using parse_chars_shorter [OF pk] length_tl_skip_ws [OF k] by simp
  moreover have "length (tl (skip_ws q)) < length q" using k2 by (rule length_tl_skip_ws)
  moreover have "length (tl (skip_ws z)) < length z" using v by (rule length_tl_skip_ws)
  moreover have "length z < length (tl (skip_ws q))" using "6.IH"(1) [OF p(1) pk refl p(2) pv] .
  moreover have "prefix '','' (skip_ws z) \<Longrightarrow> parse_members n (tl (skip_ws z)) = Some (qs, y) \<Longrightarrow>
      length y < length (tl (skip_ws z))" for qs y
    using "6.IH"(2) [OF p(1) pk refl p(2) pv refl] by simp
  ultimately have smaller: "length (tl (skip_ws z)) < length s"
    and rest: "prefix '','' (skip_ws z) \<Longrightarrow> parse_members n (tl (skip_ws z)) = Some (qs, y) \<Longrightarrow> length y < length s" for qs y
    by fastforce+
  show ?case
  proof (cases "prefix '','' (skip_ws z)")
    case True
    with "6.prems" p pk pv obtain qs where "parse_members n (tl (skip_ws z)) = Some (qs, r)" by auto
    with rest True show ?thesis by blast
  next
    case False
    with "6.prems" p pk pv smaller show ?thesis by auto
  qed
qed simp_all

text \<open>Any two amounts of fuel above the bound give the same answer.\<close>

lemma parse_fuel_enough:
  "n > 2 * length s \<Longrightarrow> m > 2 * length s \<Longrightarrow> parse_value n s = parse_value m s"
  "n > 2 * length s + 1 \<Longrightarrow> m > 2 * length s + 1 \<Longrightarrow> parse_elements n s = parse_elements m s"
  "n > 2 * length s + 1 \<Longrightarrow> m > 2 * length s + 1 \<Longrightarrow> parse_members n s = parse_members m s"
proof (induction n s and n s and n s arbitrary: m and m and m
    rule: parse_value_parse_elements_parse_members.induct)
  case (2 n s)
  from "2.prems" obtain k where m: "m = Suc k" by (cases m) auto
  have s: "length (skip_ws s) \<le> length s" by (rule skip_ws_length)
  show ?case
  proof (cases "skip_ws s")
    case (Cons c t)
    from "2.prems" m s Cons have len: "n > 2 * length t + 1" "k > 2 * length t + 1" by simp_all
    have "c = CHR ''['' \<Longrightarrow> \<not> prefix '']'' (skip_ws t) \<Longrightarrow> parse_elements n t = parse_elements k t"
      using "2.IH"(1) [of "skip_ws s" k] len Cons by simp
    moreover have "c = CHR ''{'' \<Longrightarrow> \<not> prefix ''}'' (skip_ws t) \<Longrightarrow> parse_members n t = parse_members k t"
      using "2.IH"(2) [of "skip_ws s" k] len Cons by simp
    ultimately show ?thesis using m Cons by (simp add: Let_def)
  qed (simp add: m Let_def)
next
  case (4 n s)
  from "4.prems" obtain k where m: "m = Suc k" by (cases m) auto
  have v: "parse_value n s = parse_value k s"
    using "4.IH"(1) [of k] "4.prems" m by simp
  show ?case
  proof (cases "parse_value n s")
    case (Some p)
    obtain w r where p: "p = (w, r)" by (cases p)
    have "length r < length s" using Some p parse_shorter(1) by blast
    then have "prefix '','' (skip_ws r) \<longrightarrow> parse_elements n (tl (skip_ws r)) = parse_elements k (tl (skip_ws r))"
      using "4.IH"(2) [OF Some p [symmetric], of k] "4.prems" m length_tl_skip_ws [of r]
      by (cases "skip_ws r") simp_all
    moreover from v Some p have "parse_value k s = Some (w, r)" by simp
    ultimately show ?thesis using m Some p by simp
  qed (use v m in simp)
next
  case (6 n s)
  from "6.prems" obtain k where m: "m = Suc k" by (cases m) auto
  show ?case
  proof (cases "prefix [quote_char] (skip_ws s) \<and> parse_chars (tl (skip_ws s)) \<noteq> None")
    case True
    then obtain x r where x: "parse_chars (tl (skip_ws s)) = Some (x, r)" by auto
    have r: "length r + 1 < length s"
      using parse_chars_shorter [OF x] length_tl_skip_ws [of s] True by fastforce
    show ?thesis
    proof (cases "prefix '':'' (skip_ws r)")
      case colon: True
      let ?t = "tl (skip_ws r)"
      have t: "length ?t < length r" using colon length_tl_skip_ws [of r] by fastforce
      have v: "parse_value n ?t = parse_value k ?t"
        using "6.IH"(1) [OF _ x refl colon, of k] "6.prems" True m t r by simp
      show ?thesis
      proof (cases "parse_value n ?t")
        case (Some p)
        obtain w q where p: "p = (w, q)" by (cases p)
        have "length q < length ?t" using Some p parse_shorter(1) by blast
        then have "prefix '','' (skip_ws q) \<longrightarrow> parse_members n (tl (skip_ws q)) = parse_members k (tl (skip_ws q))"
          using "6.IH"(2) [OF _ x refl colon Some p [symmetric], of k] "6.prems" True m t r length_tl_skip_ws [of q]
          by (cases "skip_ws q") simp_all
        moreover from v Some p have "parse_value k ?t = Some (w, q)" by simp
        ultimately show ?thesis using m Some p True x colon by simp
      qed (use v m True x colon in simp)
    qed (use m True x in simp)
  next
    case False
    with m show ?thesis by (cases "parse_chars (tl (skip_ws s))") auto
  qed
qed simp_all

section \<open>Reading back what was printed\<close>

lemma of_char_less_256: "(of_char c :: nat) < 256"
  by (metis of_char_of of_char_mod_256 mod_less_divisor zero_less_numeral)

lemma radix_digit_hex: "d < 16 \<Longrightarrow> radix_digit (hex_digit d) = d"
  by (auto simp: radix_digit_def hex_digit_def Let_def)

lemma parse_chars_escape:
  "parse_chars (escape_char c @ s) = map_option (\<lambda>(x, q). (c # x, q)) (parse_chars s)"
proof (cases "escape_char c = [c]")
  case True
  then have "c \<noteq> quote_char" "c \<noteq> backslash" "\<not> (of_char c :: nat) < 32"
    by (auto simp: escape_char_def split: if_splits)
  with True show ?thesis by simp
next
  case False
  show ?thesis
  proof (cases "c \<in> {quote_char, backslash, CHR 0x08, CHR 0x09, CHR 0x0A, CHR 0x0C, CHR 0x0D}")
    case True
    then show ?thesis by (auto simp: escape_char_def unescape_def)
  next
    case other: False
    with False have small: "(of_char c :: nat) < 32" by (auto simp: escape_char_def split: if_splits)
    let ?n = "of_char c :: nat"
    have e: "escape_char c = [backslash, CHR ''u'', CHR ''0'', CHR ''0'', hex_digit (?n div 16), hex_digit (?n mod 16)]"
      using other small by (auto simp: escape_char_def)
    have z: "radix_digit CHR ''0'' = 0" by (simp add: radix_digit_def)
    have h: "radix_digit (hex_digit (?n div 16)) = ?n div 16" "radix_digit (hex_digit (?n mod 16)) = ?n mod 16"
      using small by (auto intro: radix_digit_hex)
    have "code_unit (?n div 16 * 16 + ?n mod 16) = [c]" using small by (simp add: code_unit_def)
    moreover have "?n div 16 < 16" using small by simp
    ultimately show ?thesis using small by (simp add: e z h)
  qed
qed

lemma parse_chars_quoted: "parse_chars (concat (map escape_char s) @ quote_char # r) = Some (s, r)"
  by (induction s) (simp_all add: parse_chars_escape)

definition value_stop :: "string \<Rightarrow> bool" where
  "value_stop r \<longleftrightarrow> r = [] \<or> hd r \<in> {CHR '','', CHR '']'', CHR ''}'', newline}"

lemma value_stop_number: "value_stop r \<Longrightarrow> number_stop r"
  by (auto simp: value_stop_def number_stop_def is_digit_def)

lemma parse_number_printed:
  assumes "num_ok n" "is_finite n" "value_stop r"
  shows "parse_number (num_to_string n @ r) = Some (JNum n, r)"
proof -
  obtain x where n: "n = Num x" using assms(2) by (cases n) auto
  have stop: "number_stop r" using assms(3) by (rule value_stop_number)
  consider "x = 0" | "x > 0" | "x < 0" by linarith
  then show ?thesis
  proof cases
    case 1
    have "scan_decimal False (''0'' @ r) = (''0'', [], 0, r)"
      by (rule scan_integer) (use stop in simp_all)
    moreover have "to_double (decimal_of ''0'' [] 0) = Num 0" by code_simp
    ultimately show ?thesis using 1 n by (simp add: parse_number_def)
  next
    case 2
    with assms n have d: "is_double x" by simp
    obtain v where v: "scans_to False (format_positive x) r v" "to_double v = Num x"
      using format_positive_facts(4) [OF 2 d stop] by blast
    have "hd (format_positive x @ r) \<noteq> CHR ''-''"
      using format_positive_facts(2,3) [OF 2 d] by (metis hd_append2 not_digit(4))
    with v 2 n show ?thesis by (auto simp: parse_number_def scans_to_def)
  next
    case 3
    with assms n have d: "- x > 0" "is_double (- x)" by simp_all
    obtain v where v: "scans_to False (format_positive (- x)) r v" "to_double v = Num (- x)"
      using format_positive_facts(4) [OF d stop] by blast
    with 3 n show ?thesis by (auto simp: parse_number_def scans_to_def)
  qed
qed

lemma num_to_string_hd:
  assumes "num_ok n" "is_finite n"
  shows "num_to_string n \<noteq> [] \<and> (is_digit (hd (num_to_string n)) \<or> hd (num_to_string n) = CHR ''-'')"
  using assms format_positive_facts(2,3)
  by (cases n) (auto simp: is_digit_def linorder_neq_iff)

lemma print_json_hd:
  assumes "json_ok v"
  shows "print_json g d v \<noteq> [] \<and> \<not> json_space (hd (print_json g d v))
    \<and> hd (print_json g d v) \<notin> {CHR '']'', CHR ''}''}"
proof (cases v)
  case (JNum n)
  with assms num_to_string_hd [of n] show ?thesis by (auto simp: json_space_def is_digit_def)
qed (auto simp: quote_def json_space_def)

lemma skip_ws_append: "list_all json_space w \<Longrightarrow> skip_ws (w @ s) = skip_ws s"
  by (induction w) (auto simp: skip_ws_def)

lemma skip_ws_id: "s = [] \<or> \<not> json_space (hd s) \<Longrightarrow> skip_ws s = s"
  unfolding skip_ws_def by (rule dropWhile_id)

lemma skip_ws_stop [simp]:
  "skip_ws (CHR '','' # s) = CHR '','' # s" "skip_ws (CHR '']'' # s) = CHR '']'' # s"
  "skip_ws (CHR ''}'' # s) = CHR ''}'' # s" "skip_ws (CHR '':'' # s) = CHR '':'' # s"
  "skip_ws (quote_char # s) = quote_char # s" "skip_ws [] = []"
  by (simp_all add: skip_ws_def json_space_def)

lemma skip_ws_print: "json_ok v \<Longrightarrow> skip_ws (print_json g d v @ r) = print_json g d v @ r"
  using print_json_hd [of v g d] by (intro skip_ws_id) simp

lemma json_space_indentation: "list_all json_space (indentation g d)"
  by (auto simp: indentation_def json_space_def list_all_iff split: option.split)

lemma value_stop_indentation: "value_stop (indentation g d @ c # r) \<longleftrightarrow> g \<noteq> None \<or> value_stop (c # r)"
  by (simp add: indentation_def value_stop_def split: option.split)

lemma parse_printed_scalar:
  assumes "json_ok v" "value_stop r" "\<forall>vs. v \<noteq> JArr vs" "\<forall>ps. v \<noteq> JObj ps"
  shows "parse_scalar (print_json g d v @ r) = Some (v, r)"
proof (cases v)
  case (JNum n)
  with assms have n: "num_ok n" "is_finite n" by simp_all
  from num_to_string_hd [OF this] obtain c s where c: "num_to_string n = c # s"
    and "is_digit c \<or> c = CHR ''-''" by (cases "num_to_string n") auto
  then have "CHR ''n'' \<noteq> c" "CHR ''t'' \<noteq> c" "CHR ''f'' \<noteq> c" "quote_char \<noteq> c"
    by (auto simp: is_digit_def)
  with JNum n parse_number_printed [OF n assms(2)] c show ?thesis by (simp add: parse_scalar_def)
qed (use assms in \<open>simp_all add: parse_scalar_def quote_def parse_chars_quoted\<close>)

lemma parse_value_scalar:
  assumes "json_ok v" "value_stop r" "\<forall>vs. v \<noteq> JArr vs" "\<forall>ps. v \<noteq> JObj ps"
    and "list_all json_space w" "n > k"
  shows "parse_value n (w @ print_json g d v @ r) = Some (v, r)"
proof -
  obtain c s where c: "print_json g d v = c # s" using print_json_hd [OF assms(1)] by (metis list.exhaust)
  have "CHR ''['' \<noteq> c \<and> CHR ''{'' \<noteq> c"
  proof (cases v)
    case (JNum m)
    with assms(1) num_to_string_hd [of m] c show ?thesis by (auto simp: is_digit_def)
  qed (use assms c in \<open>auto simp: quote_def split: if_splits\<close>)
  moreover have "skip_ws (w @ print_json g d v @ r) = print_json g d v @ r"
    using assms by (simp add: skip_ws_append skip_ws_print)
  ultimately show ?thesis
    using parse_printed_scalar [OF assms(1-4), of g d] \<open>n > k\<close> c by (cases n) (simp_all add: Let_def)
qed

lemma print_elements_hd:
  "jsons_ok vs \<Longrightarrow> vs \<noteq> [] \<Longrightarrow> list_all json_space w \<Longrightarrow> \<not> prefix '']'' (skip_ws (w @ print_elements g d vs @ r))"
  using print_json_hd [of "hd vs" g d]
  by (cases vs) (auto simp: skip_ws_append skip_ws_print neq_Nil_conv)

lemma print_members_hd:
  "ps \<noteq> [] \<Longrightarrow> list_all json_space w \<Longrightarrow> \<not> prefix ''}'' (skip_ws (w @ print_members g d ps @ r))"
  by (cases ps) (auto simp: skip_ws_append quote_def)

lemma parse_printed:
  "json_ok v \<Longrightarrow> value_stop r \<Longrightarrow> list_all json_space w \<Longrightarrow> n > 2 * length (w @ print_json g d v @ r) \<Longrightarrow>
     parse_value n (w @ print_json g d v @ r) = Some (v, r)"
  "jsons_ok vs \<Longrightarrow> vs \<noteq> [] \<Longrightarrow> list_all json_space w \<Longrightarrow>
     n > 2 * length (w @ print_elements g d vs @ indentation g e @ '']'' @ r) + 1 \<Longrightarrow>
     parse_elements n (w @ print_elements g d vs @ indentation g e @ '']'' @ r) = Some (vs, r)"
  "members_ok ps \<Longrightarrow> ps \<noteq> [] \<Longrightarrow> list_all json_space w \<Longrightarrow>
     n > 2 * length (w @ print_members g d ps @ indentation g e @ ''}'' @ r) + 1 \<Longrightarrow>
     parse_members n (w @ print_members g d ps @ indentation g e @ ''}'' @ r) = Some (ps, r)"
proof (induction g d v and g d vs and g d ps arbitrary: n r w and n r w e and n r w e
    rule: print_json_print_elements_print_members.induct)
  case (5 g d vs)
  then obtain k where n: "n = Suc k" by (cases n) auto
  show ?case
  proof (cases "vs = []")
    case True
    with 5 n show ?thesis by (simp add: skip_ws_append Let_def) (simp add: skip_ws_def json_space_def Let_def)
  next
    case False
    let ?i = "indentation g (d + gap_width g)"
    let ?s = "?i @ print_elements g (d + gap_width g) vs @ indentation g d @ '']'' @ r"
    have "k > 2 * length ?s + 1" using "5.prems" n False by simp
    with "5.IH" [OF False, of ?i d r k] "5.prems" False have "parse_elements k ?s = Some (vs, r)"
      by (simp add: json_space_indentation)
    moreover have "\<not> prefix '']'' (skip_ws ?s)"
      using print_elements_hd [OF _ False json_space_indentation] "5.prems" by simp
    ultimately show ?thesis
      using "5.prems" n False by (simp add: skip_ws_append Let_def) (simp add: skip_ws_def json_space_def Let_def)
  qed
next
  case (6 g d ps)
  then obtain k where n: "n = Suc k" by (cases n) auto
  have br: "skip_ws (CHR ''{'' # s) = CHR ''{'' # s" for s by (simp add: skip_ws_def json_space_def)
  show ?case
  proof (cases "ps = []")
    case True
    with 6 n show ?thesis by (simp add: skip_ws_append Let_def br)
  next
    case False
    let ?i = "indentation g (d + gap_width g)"
    let ?s = "?i @ print_members g (d + gap_width g) ps @ indentation g d @ ''}'' @ r"
    have "k > 2 * length ?s + 1" using "6.prems" n False by simp
    with "6.IH" [OF False, of ?i d r k] "6.prems" False have "parse_members k ?s = Some (ps, r)"
      by (simp add: json_space_indentation)
    moreover have "\<not> prefix ''}'' (skip_ws ?s)"
      using print_members_hd [OF False json_space_indentation] by simp
    ultimately show ?thesis
      using "6.prems" n False by (simp add: skip_ws_append Let_def br from_entries_id)
  qed
next
  case (8 g d v vs)
  then obtain k where n: "n = Suc k" by (cases n) auto
  let ?q = "if vs = [] then indentation g e @ '']'' @ r
     else '','' @ indentation g d @ print_elements g d vs @ indentation g e @ '']'' @ r"
  have s: "w @ print_elements g d (v # vs) @ indentation g e @ '']'' @ r = w @ print_json g d v @ ?q"
    by simp
  have "value_stop ?q" by (auto simp: value_stop_def indentation_def split: option.split)
  with "8.IH"(1) [of ?q w k] "8.prems" n have v: "parse_value k (w @ print_json g d v @ ?q) = Some (v, ?q)"
    unfolding s by simp
  show ?case
  proof (cases "vs = []")
    case True
    with v n show ?thesis unfolding s by (simp add: skip_ws_append json_space_indentation)
  next
    case False
    with "8.IH"(2) [OF False, of "indentation g d" e r k] "8.prems" n v
    show ?thesis unfolding s by (simp add: json_space_indentation)
  qed
next
  case (10 g d k v ps)
  then obtain m where n: "n = Suc m" by (cases n) auto
  let ?q = "if ps = [] then indentation g e @ ''}'' @ r
     else '','' @ indentation g d @ print_members g d ps @ indentation g e @ ''}'' @ r"
  let ?w = "if g = None then [] else '' ''"
  have s: "w @ print_members g d ((k, v) # ps) @ indentation g e @ ''}'' @ r
     = w @ quote_char # concat (map escape_char k) @ quote_char # '':'' @ ?w @ print_json g d v @ ?q"
    by (simp add: quote_def)
  have "value_stop ?q" by (auto simp: value_stop_def indentation_def split: option.split)
  moreover have "list_all json_space ?w" by (simp add: json_space_def)
  ultimately have v: "parse_value m (?w @ print_json g d v @ ?q) = Some (v, ?q)"
    using "10.IH"(1) [of ?q ?w m] "10.prems" n unfolding s by simp
  show ?case
  proof (cases "ps = []")
    case True
    with v n "10.prems" show ?thesis
      unfolding s by (simp add: skip_ws_append json_space_indentation parse_chars_quoted)
  next
    case False
    with "10.IH"(2) [OF False, of "indentation g d" e r m] "10.prems" n v
    show ?thesis unfolding s by (simp add: skip_ws_append json_space_indentation parse_chars_quoted)
  qed
qed (simp_all only: append_Nil2 list.size simp_thms, (rule parse_value_scalar; simp)+)

lemma json_parse_print:
  assumes "json_ok v"
  shows "json_parse (print_json g d v) = Some v"
  using parse_printed(1) [OF assms, where r = "[]" and w = "[]" and n = "2 * length (print_json g d v) + 1" and g = g and d = d]
  by (simp add: json_parse_def value_stop_def)

section \<open>The codec interface\<close>

text \<open>
  Several parts of the frontend write a value as text and read it back later (a field's draft
  text, the URL, local storage). Their clients rely on the one law of a codec.
\<close>

locale codec =
  fixes encode :: "'a \<Rightarrow> 'c"
    and decode :: "'c \<Rightarrow> 'a option"
    and valid :: "'a \<Rightarrow> bool"
  assumes decode_encode: "valid x \<Longrightarrow> decode (encode x) = Some x"
begin

lemma encode_injective: "valid x \<Longrightarrow> valid y \<Longrightarrow> encode x = encode y \<longleftrightarrow> x = y"
  by (metis decode_encode option.inject)

lemma encode_stable: "valid x \<Longrightarrow> map_option encode (decode (encode x)) = Some (encode x)"
  by (simp add: decode_encode)

end

interpretation compact: codec stringify json_parse json_ok
  by unfold_locales (simp add: stringify_def json_parse_print)

interpretation indented: codec stringify_indented json_parse json_ok
  by unfold_locales (simp add: stringify_indented_def json_parse_print)

section \<open>Printed text has no outer white space\<close>

lemma num_to_string_trim [simp]: "json_ok (JNum n) \<Longrightarrow> trim (num_to_string n) = num_to_string n"
proof -
  assume ok: "json_ok (JNum n)"
  then obtain x where n: "n = Num x" "is_double x" by (cases n) auto
  have "\<forall>c \<in> set (num_to_string n). \<not> js_space c"
    using n format_positive_facts(1) [of x] format_positive_facts(1) [of "- x"] number_char_not_space
    by (auto simp: list_all_iff js_space_def linorder_neq_iff)
  moreover have "num_to_string n \<noteq> []" using ok num_to_string_hd by simp
  ultimately show ?thesis by (intro trim_id) auto
qed

lemma trim_print_json [js_string]: "json_ok v \<Longrightarrow> trim (print_json g d v) = print_json g d v"
proof (cases v)
  case (JNum n)
  assume "json_ok v"
  with JNum show ?thesis by simp
qed (auto intro!: trim_id simp: js_space_def quote_def)

end
