(* ===== verification/Types.thy ===== *)
theory Types
  imports Json
begin

text \<open>
  The data of the program: one record per object type of \<open>langextract.ts\<close>, \<open>LangExtractEditor.tsx\<close>,
  \<open>lib/\<close> and \<open>App.tsx\<close>, one datatype per union of literals. A field that may be absent
  or null is an option, \<open>unknown\<close> is \<open>json\<close>, and fields whose names several types share carry a prefix.
\<close>

section \<open>LangExtract drafts, configurations and feedback\<close>

datatype value_kind = StringKind | StringArrayKind

record draft_attribute =
  attr_key :: string
  attr_value :: string
  attr_kind :: value_kind

record draft_extraction =
  draft_class :: string
  draft_span :: string
  draft_attributes :: "draft_attribute list"

record draft_example =
  draft_text :: string
  draft_extractions :: "draft_extraction list"

datatype attribute_value = Text string | Texts "string list"

record config_extraction =
  extraction_class :: string
  extraction_text :: string
  attributes :: "attribute_value obj option"

record config_example =
  example_text :: string
  extractions :: "config_extraction list"

record langextract_config =
  prompt_description :: "string option"
  config_examples :: "config_example list option"

record feedback_suggestion =
  suggestion_key :: string
  suggestion_version_id :: jsnum
  suggestion_text :: string
  suggestion_extractions :: "config_extraction list"
  occurrence_count :: jsnum
  source_result_ids :: "jsnum list"
  source_field_names :: "string list"
  last_reviewed_at :: "string option"

record feedback_diagnostics =
  reviewed_result_count :: jsnum
  reviewed_edit_count :: jsnum
  generated_suggestion_count :: jsnum
  dismissed_suggestion_count :: jsnum
  visible_suggestion_count :: jsnum
  skipped_missing_document_text :: jsnum
  skipped_missing_target_field :: jsnum
  skipped_missing_grounding :: jsnum
  skipped_span_override :: jsnum
  skipped_span_mismatch :: jsnum
  skipped_empty_context :: jsnum
  skipped_no_contextual_extractions :: jsnum

datatype feedback_status = FeedbackIdle | FeedbackLoading | FeedbackReady | FeedbackError

record feedback_list_response =
  response_suggestions :: "feedback_suggestion list"
  response_diagnostics :: feedback_diagnostics

record suggestion_dismissal =
  dismissal_version_id :: jsnum
  dismissal_key :: string
  dismissal_dismissed :: bool
  dismissal_updated_at :: string

section \<open>Providers\<close>

datatype provider_mode = Local | Cloud

datatype api_style = MockStyle | OpenaiCompatible | AzureOpenai | LangextractStyle

record provider_settings =
  mode :: provider_mode
  provider_type :: string
  provider_label :: "string option"
  is_persisted_default :: "bool option"
  api_style :: "api_style option"
  base_url :: "string option"
  api_key_env_var :: "string option"
  api_key_required :: "bool option"
  deployment :: "string option"
  api_version :: "string option"
  model :: string
  temperature :: jsnum
  max_tokens :: jsnum
  supports_json_mode :: bool
  allow_external_processing :: bool
  timeout_seconds :: "jsnum option"
  retry_count :: "jsnum option"
  chunk_size :: "jsnum option"

record provider_capabilities =
  supports_chat_completions :: bool
  capable_json_mode :: bool
  supports_streaming :: bool
  supports_remote_processing :: bool
  requires_api_key :: bool
  supports_local_runtime :: bool

record catalog_entry =
  entry_key :: string
  entry_label :: string
  entry_description :: string
  entry_mode :: provider_mode
  entry_provider_type :: string
  entry_api_style :: api_style
  entry_base_url :: "string option"
  entry_model :: string
  entry_enabled :: bool
  entry_recommended :: bool
  entry_api_key_env_var :: "string option"
  entry_deployment :: "string option"
  entry_tags :: "string list"
  entry_capabilities :: provider_capabilities
  entry_settings :: provider_settings

record provider_health =
  health_key :: string
  health_provider_type :: string
  health_ready :: bool
  health_status :: string
  health_checks :: "string list"

record provider_probe =
  probe_provider_type :: string
  reachable :: bool
  probe_status :: string
  probe_detail :: string
  probe_endpoint :: "string option"
  probe_status_code :: "jsnum option"

record provider_controls =
  custom_provider_probe_max_age_hours :: jsnum

record parser_status =
  parser_state :: string
  parser_timestamp :: "string option"
  docling_enabled :: bool
  docling_prewarm :: bool
  docling_pdf_ocr_retry :: bool
  docling_image_ocr :: bool
  prewarm_status :: "string option"
  prewarm_attempted :: bool
  prewarm_error :: "string option"
  supported_extensions :: "string list"
  supported_classes :: "string list"

record custom_profile =
  profile_id :: string
  profile_name :: string
  profile_settings :: provider_settings
  last_probe_at :: "string option"
  last_probe_status :: "string option"
  last_probe_detail :: "string option"
  profile_created_at :: string
  profile_updated_at :: string

text \<open>The custom provider form: \<open>api_key_env_var\<close> is the one field that is never stored.\<close>

datatype custom_api_style = CustomOpenaiCompatible | CustomAzureOpenai

record persisted_draft =
  cd_label :: string
  cd_mode :: provider_mode
  cd_api_style :: custom_api_style
  cd_provider_type :: string
  cd_base_url :: string
  cd_model :: string
  cd_deployment :: string
  cd_api_version :: string
  cd_allow_external_processing :: bool
  cd_supports_json_mode :: bool
  cd_temperature :: string
  cd_max_tokens :: string
  cd_timeout_seconds :: string
  cd_retry_count :: string
  cd_chunk_size :: string

record custom_draft = persisted_draft +
  cd_api_key_env_var :: string

section \<open>Templates\<close>

record template_summary =
  template_id :: jsnum
  summary_name :: string
  summary_description :: string
  summary_document_type :: string
  is_locked :: bool
  latest_version :: string
  summary_created_at :: string
  summary_updated_at :: string

record template_field =
  field_def_name :: string
  field_def_label :: string
  field_def_type :: string
  required :: "bool option"
  citation_required :: "bool option"
  field_def_description :: "string option"
  instructions :: "string option"
  allowed_values :: "string list option"
  output_currency :: "string option"
  schema :: "json obj option"
  field_schema :: "json obj option"

record template_calculated =
  calculated_name :: string
  calculated_label :: string
  formula :: string
  calculated_output_type :: string

record template_definition =
  template_name :: string
  template_version :: string
  document_type :: string
  description :: string
  llm_provider_settings :: provider_settings
  definition_langextract_config :: "langextract_config option"
  extracted_fields :: "template_field list"
  calculated_fields :: "template_calculated list"
  export_formats :: "string list"

record template_version_record =
  version_id :: jsnum
  version_template_id :: jsnum
  version_name :: string
  definition_of :: template_definition
  version_created_at :: string

record draft_template =
  dt_template_name :: string
  dt_document_type :: string
  dt_description :: string
  dt_template_version :: string
  dt_local_only :: bool
  dt_prompt_description :: string
  dt_examples :: "draft_example list"

record dry_run_field =
  dry_field_name :: string
  dry_label :: string
  dry_data_type :: string
  dry_validation_status :: string
  dry_validation_errors :: "string list"
  dry_requires_review :: bool
  dry_confidence :: jsnum
  dry_extracted_value :: "string option"
  dry_normalized_value :: json
  dry_source_text :: string
  dry_notes :: string

record dry_run_response =
  dry_ok :: bool
  schema_errors :: "string list"
  dry_notes_of_document :: "string list"
  dry_fields :: "dry_run_field list"
  dry_fields_requiring_review :: "string list"

record field_change =
  changed_name :: string
  change_kind :: string
  change_details :: "string list"

record version_diff =
  before_version :: string
  after_version :: string
  extracted_added :: "string list"
  extracted_removed :: "string list"
  extracted_changed :: "field_change list"
  calculated_added :: "string list"
  calculated_removed :: "string list"
  calculated_changed :: "field_change list"
  langextract_changed :: bool

section \<open>Documents, jobs and results\<close>

record document_record =
  document_id :: jsnum
  original_filename :: string
  content_type :: string
  document_status :: string
  document_created_at :: string

record job_record =
  job_id :: jsnum
  job_document_id :: jsnum
  job_version_id :: jsnum
  provider_override :: "provider_settings option"
  job_status :: string
  error_message :: "string option"
  progress_stage :: "string option"
  progress_pct :: "jsnum option"
  attempt_count :: "jsnum option"
  job_created_at :: string
  job_updated_at :: string

record failure_guidance =
  guidance_title :: string
  guidance_detail :: string

datatype field_kind = Extracted | Calculated

record review_field =
  field_name :: string
  field_label :: string
  field_kind :: field_kind
  data_type :: "string option"
  output_type :: "string option"
  extracted_value :: "json option"
  normalized_value :: "json option"
  calculated_value :: "json option"
  confidence_score :: "jsnum option"
  source_text :: "string option"
  char_start :: "jsnum option"
  char_end :: "jsnum option"
  page_number :: "jsnum option"
  location_reference :: "string option"
  validation_status :: string
  validation_errors :: "string list"
  extraction_notes :: "string option"
  calculation_notes :: "string option"
  requires_review :: bool

record result_payload =
  result_document_id :: string
  result_document_type :: string
  result_template_name :: string
  result_template_version :: string
  llm_provider :: provider_settings
  extraction_status :: string
  review_status :: "string option"
  result_extracted :: "review_field list"
  result_calculated :: "review_field list"
  fields_requiring_review :: "string list"
  document_level_notes :: "string list"
  reviewed_at :: "string option"

record result_envelope =
  result_id :: jsnum
  result_job_id :: jsnum
  result_of :: result_payload

record export_record =
  export_id :: jsnum
  export_result_id :: jsnum
  export_job_id :: jsnum
  export_format :: string
  file_path :: string
  content_sha256 :: "string option"
  exported_at :: "string option"
  reviewer :: "string option"
  export_version_id :: "jsnum option"
  manifest_json :: "json obj option"
  export_created_at :: string

record audit_event =
  audit_id :: jsnum
  audit_actor :: string
  audit_action :: string
  audit_object_type :: string
  audit_object_id :: string
  audit_metadata :: "json obj"
  audit_created_at :: string

record tenant_usage =
  tenant_id :: string
  tenant_suspended :: bool
  suspension_reason :: "string option"
  tenant_documents :: jsnum
  tenant_jobs_completed :: jsnum
  tenant_results :: jsnum
  tenant_exports :: jsnum
  latest_activity_at :: "string option"

record export_policy =
  require_review_cleared :: bool

record dev_status =
  status_templates :: jsnum
  status_documents :: jsnum
  status_jobs :: jsnum
  status_results :: jsnum

record desktop_status =
  tauri_mode :: bool
  project_root :: "string option"
  runtime_source :: string
  app_data_dir :: "string option"
  docker_available :: bool
  compose_available :: bool
  backend_host :: string
  backend_port :: jsnum
  backend_reachable :: bool
  desktop_message :: string

record desktop_logs =
  logs_source :: string
  logs_content :: string

section \<open>Navigation\<close>

datatype page_id = PageExtractions | PageTemplates | PageSettings | PageAudit | PageAdmin | PageHelp

record nav_item =
  nav_id :: page_id
  nav_label :: string
  nav_icon :: page_id

datatype workspace_stage = StageDraft | StageProcessing | StageReview | StageReady | StageFailed

section \<open>Enumerations\<close>

text \<open>The literals the source compares and serialises.\<close>

primrec mode_name :: "provider_mode \<Rightarrow> string" where
  "mode_name Local = ''local''"
| "mode_name Cloud = ''cloud''"

primrec api_style_name :: "api_style \<Rightarrow> string" where
  "api_style_name MockStyle = ''mock''"
| "api_style_name OpenaiCompatible = ''openai_compatible''"
| "api_style_name AzureOpenai = ''azure_openai''"
| "api_style_name LangextractStyle = ''langextract''"

primrec custom_style :: "custom_api_style \<Rightarrow> api_style" where
  "custom_style CustomOpenaiCompatible = OpenaiCompatible"
| "custom_style CustomAzureOpenai = AzureOpenai"

lemma mode_name_inj: "mode_name a = mode_name b \<longleftrightarrow> a = b"
  by (cases a; cases b) simp_all

lemma api_style_name_inj: "api_style_name a = api_style_name b \<longleftrightarrow> a = b"
  by (cases a; cases b) simp_all

end
