(* ===== verification/LangExtract.thy ===== *)
theory LangExtract
  imports Types
begin

text \<open>
  \<open>langextract.ts\<close>: the draft of a LangExtract configuration (prompt and examples), its conversion
  from and to the stored configuration, the comparison of a draft example with a feedback
  suggestion, field coverage, readiness and guidance. \<open>localeCompare\<close> is a parameter.
\<close>

section \<open>Empty drafts and drafts of stored examples\<close>

definition createEmptyLangExtractAttribute :: draft_attribute where
  "createEmptyLangExtractAttribute = \<lparr>attr_key = '''', attr_value = '''', attr_kind = StringKind\<rparr>"

definition createEmptyLangExtractExtraction :: draft_extraction where
  "createEmptyLangExtractExtraction = \<lparr>draft_class = '''', draft_span = '''', draft_attributes = []\<rparr>"

definition createEmptyLangExtractExample :: draft_example where
  "createEmptyLangExtractExample =
     \<lparr>draft_text = '''', draft_extractions = [createEmptyLangExtractExtraction]\<rparr>"

fun draft_attribute_of :: "string \<times> attribute_value \<Rightarrow> draft_attribute" where
  "draft_attribute_of (k, Texts vs) =
     \<lparr>attr_key = k, attr_value = js_join [newline] vs, attr_kind = StringArrayKind\<rparr>"
| "draft_attribute_of (k, Text v) = \<lparr>attr_key = k, attr_value = v, attr_kind = StringKind\<rparr>"

definition draft_extraction_of :: "config_extraction \<Rightarrow> draft_extraction" where
  "draft_extraction_of x =
     \<lparr>draft_class = extraction_class x, draft_span = extraction_text x,
      draft_attributes = map draft_attribute_of (coalesce (attributes x) [])\<rparr>"

definition buildDraftLangExtractExamples :: "langextract_config option \<Rightarrow> draft_example list" where
  "buildDraftLangExtractExamples config =
     map (\<lambda>e. \<lparr>draft_text = example_text e, draft_extractions = map draft_extraction_of (extractions e)\<rparr>)
       (coalesce (Option.bind config config_examples) [])"

definition buildDraftLangExtractExampleFromSuggestion :: "feedback_suggestion \<Rightarrow> draft_example" where
  "buildDraftLangExtractExampleFromSuggestion s =
     \<lparr>draft_text = suggestion_text s,
      draft_extractions = map draft_extraction_of (suggestion_extractions s)\<rparr>"

section \<open>Comparing a draft example with a suggestion\<close>

record comparable_extraction =
  comparable_class :: string
  comparable_span :: string
  comparable_attributes :: "attribute_value obj"

record comparable_example =
  comparable_text :: string
  comparable_extractions :: "comparable_extraction list"

definition normalizeComparableText :: "string \<Rightarrow> string" where
  "normalizeComparableText v = trim (crlf_to_lf v)"

text \<open>\<open>Array.prototype.sort\<close> is stable, so a comparator that orders consistently leaves one result.\<close>

fun insert_entry :: "(string \<Rightarrow> string \<Rightarrow> int) \<Rightarrow> string \<times> 'v \<Rightarrow> (string \<times> 'v) list \<Rightarrow> (string \<times> 'v) list" where
  "insert_entry cmp x [] = [x]"
| "insert_entry cmp x (y # ys) = (if cmp (fst x) (fst y) \<le> 0 then x # y # ys else y # insert_entry cmp x ys)"

definition sort_entries :: "(string \<Rightarrow> string \<Rightarrow> int) \<Rightarrow> (string \<times> 'v) list \<Rightarrow> (string \<times> 'v) list" where
  "sort_entries cmp es = foldr (insert_entry cmp) es []"

definition text_lines :: "string \<Rightarrow> string list" where
  "text_lines v = nonempty (map trim (js_split newline v))"

text \<open>One round of the loop: \<open>None\<close> is the early \<open>return null\<close>.\<close>

definition comparable_draft_entry :: "draft_attribute \<Rightarrow> (string \<times> attribute_value) option" where
  "comparable_draft_entry a =
     (let key = trim (attr_key a) in
      if key = [] then None
      else if attr_kind a = StringArrayKind then
        (let values = text_lines (attr_value a) in
         if values = [] then None else Some (key, Texts values))
      else let v = trim (attr_value a) in if v = [] then None else Some (key, Text v))"

fun collect_options :: "('a \<Rightarrow> 'b option) \<Rightarrow> 'a list \<Rightarrow> 'b list option" where
  "collect_options f [] = Some []"
| "collect_options f (x # xs) =
     (case f x of None \<Rightarrow> None | Some y \<Rightarrow> map_option ((#) y) (collect_options f xs))"

definition buildComparableDraftAttributes ::
    "(string \<Rightarrow> string \<Rightarrow> int) \<Rightarrow> draft_attribute list \<Rightarrow> attribute_value obj option" where
  "buildComparableDraftAttributes cmp as =
     map_option (\<lambda>es. from_entries (sort_entries cmp es)) (collect_options comparable_draft_entry as)"

fun comparable_suggestion_entry :: "string \<times> attribute_value \<Rightarrow> string \<times> attribute_value" where
  "comparable_suggestion_entry (k, Texts vs) = (trim k, Texts (nonempty (map trim vs)))"
| "comparable_suggestion_entry (k, Text v) = (trim k, Text (trim v))"

definition buildComparableSuggestionAttributes ::
    "(string \<Rightarrow> string \<Rightarrow> int) \<Rightarrow> attribute_value obj option \<Rightarrow> attribute_value obj" where
  "buildComparableSuggestionAttributes cmp as =
     from_entries (sort_entries cmp (map comparable_suggestion_entry (coalesce as [])))"

definition comparable_draft_extraction ::
    "(string \<Rightarrow> string \<Rightarrow> int) \<Rightarrow> draft_extraction \<Rightarrow> comparable_extraction option" where
  "comparable_draft_extraction cmp x =
     (let cls = trim (draft_class x); span = trim (draft_span x);
          as = buildComparableDraftAttributes cmp (draft_attributes x)
      in if cls = [] \<or> span = [] then None
         else map_option (\<lambda>a. \<lparr>comparable_class = cls, comparable_span = span, comparable_attributes = a\<rparr>) as)"

definition buildComparableDraftExample ::
    "(string \<Rightarrow> string \<Rightarrow> int) \<Rightarrow> draft_example \<Rightarrow> comparable_example option" where
  "buildComparableDraftExample cmp e =
     (let text = normalizeComparableText (draft_text e) in
      if text = [] \<or> draft_extractions e = [] then None
      else map_option (\<lambda>xs. \<lparr>comparable_text = text, comparable_extractions = xs\<rparr>)
             (collect_options (comparable_draft_extraction cmp) (draft_extractions e)))"

definition comparable_suggestion_extraction ::
    "(string \<Rightarrow> string \<Rightarrow> int) \<Rightarrow> config_extraction \<Rightarrow> comparable_extraction" where
  "comparable_suggestion_extraction cmp x =
     \<lparr>comparable_class = trim (extraction_class x), comparable_span = trim (extraction_text x),
      comparable_attributes = buildComparableSuggestionAttributes cmp (attributes x)\<rparr>"

definition buildComparableSuggestion ::
    "(string \<Rightarrow> string \<Rightarrow> int) \<Rightarrow> feedback_suggestion \<Rightarrow> comparable_example" where
  "buildComparableSuggestion cmp s =
     \<lparr>comparable_text = normalizeComparableText (suggestion_text s),
      comparable_extractions = map (comparable_suggestion_extraction cmp) (suggestion_extractions s)\<rparr>"

text \<open>The objects as \<open>JSON.stringify\<close> sees them.\<close>

fun attribute_json :: "attribute_value \<Rightarrow> json" where
  "attribute_json (Text v) = JStr v"
| "attribute_json (Texts vs) = JArr (map JStr vs)"

definition attributes_json :: "attribute_value obj \<Rightarrow> json" where
  "attributes_json as = JObj (map (\<lambda>(k, v). (k, attribute_json v)) as)"

definition comparable_extraction_json :: "comparable_extraction \<Rightarrow> json" where
  "comparable_extraction_json x = JObj
     [(''extraction_class'', JStr (comparable_class x)), (''extraction_text'', JStr (comparable_span x)),
      (''attributes'', attributes_json (comparable_attributes x))]"

definition comparable_json :: "comparable_example \<Rightarrow> json" where
  "comparable_json e = JObj
     [(''text'', JStr (comparable_text e)),
      (''extractions'', JArr (map comparable_extraction_json (comparable_extractions e)))]"

definition doesDraftLangExtractExampleMatchSuggestion ::
    "(string \<Rightarrow> string \<Rightarrow> int) \<Rightarrow> draft_example \<Rightarrow> feedback_suggestion \<Rightarrow> bool" where
  "doesDraftLangExtractExampleMatchSuggestion cmp e s =
     (case buildComparableDraftExample cmp e of
        None \<Rightarrow> False
      | Some c \<Rightarrow> stringify (comparable_json c) = stringify (comparable_json (buildComparableSuggestion cmp s)))"

definition getAppliedLangExtractSuggestionKeys ::
    "(string \<Rightarrow> string \<Rightarrow> int) \<Rightarrow> draft_example list \<Rightarrow> feedback_suggestion list \<Rightarrow> string list" where
  "getAppliedLangExtractSuggestionKeys cmp es ss =
     map suggestion_key
       (filter (\<lambda>s. list_ex (\<lambda>e. doesDraftLangExtractExampleMatchSuggestion cmp e s) es) ss)"

section \<open>Field coverage\<close>

record field_coverage =
  coveredFields :: "string list"
  coveredRequiredFields :: "string list"
  missingRequiredFields :: "string list"

text \<open>The examples are given by the extraction classes of each, all that the code reads of them.\<close>

definition covered_set :: "string list list \<Rightarrow> string list \<Rightarrow> string set" where
  "covered_set examples validFieldNames =
     {trim c | c e. e \<in> set examples \<and> c \<in> set e \<and> trim c \<noteq> [] \<and>
        (nonempty (map trim validFieldNames) = [] \<or> trim c \<in> set (nonempty (map trim validFieldNames)))}"

definition covered_fields_list :: "string list list \<Rightarrow> string list \<Rightarrow> string list" where
  "covered_fields_list examples validFieldNames =
     (let valid = nonempty (map trim validFieldNames) in
      js_set (concat (map (\<lambda>e. filter (\<lambda>c. c \<noteq> [] \<and> (valid = [] \<or> c \<in> set valid)) (map trim e)) examples)))"

definition getLangExtractFieldCoverage :: "string list list \<Rightarrow> string list \<Rightarrow> string list \<Rightarrow> field_coverage" where
  "getLangExtractFieldCoverage examples validFieldNames requiredFieldNames =
     (let requiredFields = nonempty (map trim requiredFieldNames);
          covered = covered_fields_list examples validFieldNames
      in \<lparr>coveredFields = filter (\<lambda>f. f \<in> set covered) validFieldNames,
          coveredRequiredFields = filter (\<lambda>f. f \<in> set covered) requiredFields,
          missingRequiredFields = filter (\<lambda>f. f \<notin> set covered) requiredFields\<rparr>)"

definition config_classes :: "config_example list \<Rightarrow> string list list" where
  "config_classes es = map (\<lambda>e. map extraction_class (extractions e)) es"

definition draft_classes :: "draft_example list \<Rightarrow> string list list" where
  "draft_classes es = map (\<lambda>e. map draft_class (draft_extractions e)) es"

section \<open>Readiness for extraction\<close>

definition isLangExtractProviderSettings :: "provider_settings option \<Rightarrow> bool" where
  "isLangExtractProviderSettings s =
     (case s of None \<Rightarrow> False
      | Some p \<Rightarrow> provider_type p = ''langextract'' \<and> api_style p = Some LangextractStyle)"

definition required_names :: "template_definition \<Rightarrow> string list" where
  "required_names d = map field_def_name (filter (\<lambda>f. required f = Some True) (extracted_fields d))"

definition field_names :: "template_definition \<Rightarrow> string list" where
  "field_names d = map field_def_name (extracted_fields d)"

text \<open>\<open>ready\<close> is \<open>None\<close>, otherwise the message.\<close>

definition getLangExtractExtractionReadiness :: "template_definition \<Rightarrow> provider_settings option \<Rightarrow> string option" where
  "getLangExtractExtractionReadiness d override =
     (let settings = or_else override (Some (llm_provider_settings d)) in
      if \<not> isLangExtractProviderSettings settings then None
      else let examples = coalesce (Option.bind (definition_langextract_config d) config_examples) [] in
      if examples = [] then
        Some ''Add LangExtract examples in the schema builder before running extraction.''
      else let missing = missingRequiredFields
             (getLangExtractFieldCoverage (config_classes examples) (field_names d) (required_names d)) in
      if missing \<noteq> [] then
        Some (''LangExtract examples must cover every required field. Missing: '' @ js_join '', '' missing @ ''.'')
      else if trim (coalesce (Option.bind (definition_langextract_config d) prompt_description) '''') = [] then
        Some ''Add a LangExtract prompt description in the schema builder before running extraction.''
      else None)"

section \<open>Completeness and guidance of a draft\<close>

definition isDraftAttributeComplete :: "draft_attribute \<Rightarrow> bool" where
  "isDraftAttributeComplete a =
     (if trim (attr_key a) = [] then False
      else if attr_kind a = StringArrayKind then list_ex (\<lambda>v. trim v \<noteq> []) (js_split newline (attr_value a))
      else trim (attr_value a) \<noteq> [])"

definition isDraftExtractionComplete :: "draft_extraction \<Rightarrow> bool" where
  "isDraftExtractionComplete x \<longleftrightarrow>
     trim (draft_class x) \<noteq> [] \<and> trim (draft_span x) \<noteq> [] \<and>
     list_all isDraftAttributeComplete (draft_attributes x)"

definition isDraftExampleComplete :: "draft_example \<Rightarrow> bool" where
  "isDraftExampleComplete e \<longleftrightarrow>
     trim (draft_text e) \<noteq> [] \<and> draft_extractions e \<noteq> [] \<and>
     list_all isDraftExtractionComplete (draft_extractions e)"

record draft_guidance =
  isReady :: bool
  messages :: "string list"

definition add_prompt_message :: string where
  "add_prompt_message = ''Add a prompt that names the target facts, grounding expectations, and when ambiguous matches should stay review-required.''"

definition strengthen_prompt_message :: string where
  "strengthen_prompt_message = ''Strengthen the prompt with edge cases or review guidance so the extraction rules are more specific than the field labels alone.''"

definition finish_example_message :: string where
  "finish_example_message = ''Finish at least one complete grounded example before saving this draft.''"

definition second_example_message :: string where
  "second_example_message = ''Add a second complete example with different wording or layout so LangExtract does not overfit a single document pattern.''"

definition usable_draft_message :: string where
  "usable_draft_message = ''This draft has a usable prompt, multiple complete examples, and required field coverage. Next, vary layouts and phrasing before shipping.''"

definition getLangExtractDraftGuidance ::
    "string \<Rightarrow> draft_example list \<Rightarrow> string list \<Rightarrow> string list \<Rightarrow> draft_guidance" where
  "getLangExtractDraftGuidance prompt examples validFieldNames requiredFieldNames =
     (let promptDescription = trim prompt;
          complete = filter isDraftExampleComplete examples;
          incomplete = length examples - length complete;
          missing = missingRequiredFields
            (getLangExtractFieldCoverage (draft_classes complete) validFieldNames requiredFieldNames);
          problems =
            (if promptDescription = [] then
               [add_prompt_message]
             else if length promptDescription < 80 then
               [strengthen_prompt_message]
             else [])
            @ (if complete = [] then
                 [finish_example_message]
               else if length complete = 1 then
                 [second_example_message]
               else [])
            @ (if incomplete > 0 then
                 [nat_digits incomplete @ '' example draft'' @ (if incomplete = 1 then '''' else ''s'')
                    @ '' still need complete source text, field names, spans, or attribute values.'']
               else [])
            @ (if missing \<noteq> [] then
                 [''Cover the remaining required fields in complete examples: '' @ js_join '', '' missing @ ''.'']
               else []);
          shown = (if problems = [] then
            [usable_draft_message]
            else problems)
      in \<lparr>isReady = (length shown = 1), messages = shown\<rparr>)"

section \<open>Building the stored examples\<close>

definition nth_example :: "nat \<Rightarrow> string" where
  "nth_example i = ''LangExtract example '' @ nat_digits (Suc i)"

definition nth_extraction :: "nat \<Rightarrow> nat \<Rightarrow> string" where
  "nth_extraction i j = nth_example i @ '' extraction '' @ nat_digits (Suc j)"

definition build_attribute :: "nat \<Rightarrow> nat \<Rightarrow> nat \<Rightarrow> draft_attribute \<Rightarrow> (string \<times> attribute_value) result" where
  "build_attribute i j k a =
     (let here = nth_extraction i j @ '' attribute '' @ nat_digits (Suc k);
          key = trim (attr_key a)
      in if key = [] then Inl (here @ '' needs a name.'')
         else if attr_kind a = StringArrayKind then
           (let values = text_lines (attr_value a) in
            if values = [] then Inl (here @ '' needs at least one value.'') else Inr (key, Texts values))
         else let v = trim (attr_value a) in
           if v = [] then Inl (here @ '' needs a value.'') else Inr (key, Text v))"

text \<open>The run-time check of the attributes: \<open>None\<close> is \<open>undefined\<close>.\<close>

definition is_string_array :: "json \<Rightarrow> bool" where
  "is_string_array v = (case v of JArr vs \<Rightarrow> list_all (\<lambda>x. case x of JStr s \<Rightarrow> True | _ \<Rightarrow> False) vs | _ \<Rightarrow> False)"

definition validateLangExtractAttributes :: "json option \<Rightarrow> nat \<Rightarrow> nat \<Rightarrow> unit result" where
  "validateLangExtractAttributes v i j =
     (let here = ''LangExtract examples['' @ nat_digits (Suc i) @ ''].extractions['' @ nat_digits (Suc j) @ ''].attributes''
      in case v of
           None \<Rightarrow> Inr ()
         | Some (JObj ps) \<Rightarrow>
             (case find (\<lambda>(k, x). \<not> ((case x of JStr s \<Rightarrow> True | _ \<Rightarrow> False) \<or> is_string_array x)) ps of
                None \<Rightarrow> Inr ()
              | Some (k, x) \<Rightarrow> Inl (here @ ''.'' @ k @ '' must be a string or string array.''))
         | Some x \<Rightarrow> Inl (here @ '' must be an object.''))"

definition build_extraction :: "string list \<Rightarrow> nat \<Rightarrow> nat \<Rightarrow> draft_extraction \<Rightarrow> config_extraction result" where
  "build_extraction known i j x =
     (let cls = trim (draft_class x); span = trim (draft_span x) in
      if cls = [] then Inl (nth_extraction i j @ '' needs a field name.'')
      else if known \<noteq> [] \<and> cls \<notin> set known then
        Inl (nth_extraction i j @ '' references unknown field \"'' @ cls @ ''\". Available fields: ''
          @ js_join '', '' known @ ''.'')
      else if span = [] then Inl (nth_extraction i j @ '' needs source text.'')
      else res_bind (map_res (build_attribute i j) (draft_attributes x)) (\<lambda>es.
        let as = from_entries es in
        res_bind (validateLangExtractAttributes (Some (attributes_json as)) i j) (\<lambda>_.
          Inr \<lparr>extraction_class = cls, extraction_text = span, attributes = Some as\<rparr>)))"

definition build_example :: "string list \<Rightarrow> nat \<Rightarrow> draft_example \<Rightarrow> config_example result" where
  "build_example known i e =
     (let text = trim (draft_text e) in
      if text = [] then Inl (nth_example i @ '' needs source text.'')
      else if draft_extractions e = [] then Inl (nth_example i @ '' needs at least one extraction.'')
      else res_bind (map_res (build_extraction known i) (draft_extractions e)) (\<lambda>xs.
        Inr \<lparr>example_text = text, extractions = xs\<rparr>))"

definition buildLangExtractExamples ::
    "draft_example list \<Rightarrow> string list \<Rightarrow> string list \<Rightarrow> config_example list result" where
  "buildLangExtractExamples examples validFieldNames requiredFieldNames =
     (let known = js_set (nonempty (map trim validFieldNames)) in
      res_bind (map_res (build_example known) examples) (\<lambda>parsed.
        let missing = missingRequiredFields
              (getLangExtractFieldCoverage (config_classes parsed) validFieldNames requiredFieldNames)
        in if missing \<noteq> [] then
             Inl (''LangExtract examples must cover every required extracted field. Missing example coverage for: ''
               @ js_join '', '' missing @ ''.'')
           else Inr parsed))"

section \<open>The preview\<close>

definition config_extraction_json :: "config_extraction \<Rightarrow> json" where
  "config_extraction_json x = JObj
     ([(''extraction_class'', JStr (extraction_class x)), (''extraction_text'', JStr (extraction_text x))]
      @ (case attributes x of None \<Rightarrow> [] | Some as \<Rightarrow> [(''attributes'', attributes_json as)]))"

definition config_example_json :: "config_example \<Rightarrow> json" where
  "config_example_json e = JObj
     [(''text'', JStr (example_text e)), (''extractions'', JArr (map config_extraction_json (extractions e)))]"

definition config_json :: "string \<Rightarrow> config_example list \<Rightarrow> json" where
  "config_json prompt es = JObj
     [(''prompt_description'', JStr prompt), (''examples'', JArr (map config_example_json es))]"

text \<open>\<open>Inl\<close> is the \<open>error\<close> of the preview, \<open>Inr\<close> its \<open>content\<close>.\<close>

definition buildLangExtractPreview ::
    "string \<Rightarrow> draft_example list \<Rightarrow> string list \<Rightarrow> string list \<Rightarrow> string option result" where
  "buildLangExtractPreview prompt examples validFieldNames requiredFieldNames =
     (let promptDescription = trim prompt in
      res_bind (buildLangExtractExamples examples validFieldNames requiredFieldNames) (\<lambda>parsed.
        if promptDescription = [] \<and> parsed = [] then Inr None
        else Inr (Some (stringify_indented (config_json promptDescription parsed)))))"
section \<open>Coverage\<close>

lemma set_covered_fields_list: "set (covered_fields_list es vs) = covered_set es vs"
  by (auto simp: covered_fields_list_def covered_set_def Let_def)

lemma missingRequiredFields_eq:
  "missingRequiredFields (getLangExtractFieldCoverage es vs rs)
     = filter (\<lambda>f. f \<notin> covered_set es vs) (nonempty (map trim rs))"
  by (simp add: getLangExtractFieldCoverage_def Let_def set_covered_fields_list)

lemma covered_set_eq:
  "covered_set es vs = {c \<in> set (concat (map (map trim) es)). c \<noteq> [] \<and>
     (nonempty (map trim vs) = [] \<or> c \<in> set (nonempty (map trim vs)))}"
  by (auto simp: covered_set_def simp del: set_nonempty)

lemma covered_set_trimmed:
  "map (map trim) es = map (map trim) fs \<Longrightarrow> covered_set es vs = covered_set fs vs"
  by (simp only: covered_set_eq)

section \<open>A draft is accepted when it is complete\<close>

lemma text_lines_eq_Nil: "text_lines v = [] \<longleftrightarrow> \<not> list_ex (\<lambda>l. trim l \<noteq> []) (js_split newline v)"
  by (auto simp: text_lines_def nonempty_def list_ex_iff filter_empty_conv)

lemma build_attribute_accepts:
  "(\<exists>p. build_attribute i j k a = Inr p) \<longleftrightarrow> isDraftAttributeComplete a"
  by (auto simp: build_attribute_def isDraftAttributeComplete_def Let_def text_lines_eq_Nil)

lemma attribute_json_checked: "(case attribute_json v of JStr s \<Rightarrow> True | _ \<Rightarrow> False) \<or> is_string_array (attribute_json v)"
  by (cases v) (auto simp: is_string_array_def list_all_iff)

lemma validate_built [simp]: "validateLangExtractAttributes (Some (attributes_json as)) i j = Inr ()"
proof -
  have "find (\<lambda>(k, x). \<not> ((case x of JStr s \<Rightarrow> True | _ \<Rightarrow> False) \<or> is_string_array x))
      (map (\<lambda>(k, v). (k, attribute_json v)) as) = None"
    using attribute_json_checked unfolding find_None_iff by fastforce
  then show ?thesis by (simp add: validateLangExtractAttributes_def attributes_json_def)
qed

definition known_class :: "string list \<Rightarrow> draft_extraction \<Rightarrow> bool" where
  "known_class known x \<longleftrightarrow> known = [] \<or> trim (draft_class x) \<in> set known"

lemma build_extraction_accepts:
  "(\<exists>y. build_extraction known i j x = Inr y) \<longleftrightarrow> isDraftExtractionComplete x \<and> known_class known x"
proof -
  have "(\<exists>ys. map_res (build_attribute i j) (draft_attributes x) = Inr ys)
      \<longleftrightarrow> list_all isDraftAttributeComplete (draft_attributes x)"
    by (rule map_res_accepts) (rule build_attribute_accepts)
  then show ?thesis
    by (auto simp: build_extraction_def isDraftExtractionComplete_def known_class_def Let_def res_bind_accepts)
qed

lemma build_example_accepts:
  "(\<exists>y. build_example known i e = Inr y) \<longleftrightarrow>
     isDraftExampleComplete e \<and> list_all (known_class known) (draft_extractions e)"
proof -
  have "(\<exists>ys. map_res (build_extraction known i) (draft_extractions e) = Inr ys)
      \<longleftrightarrow> list_all (\<lambda>x. isDraftExtractionComplete x \<and> known_class known x) (draft_extractions e)"
    by (rule map_res_accepts) (rule build_extraction_accepts)
  then show ?thesis
    by (auto simp: build_example_def isDraftExampleComplete_def Let_def res_bind_accepts list_all_iff)
qed

lemma build_extraction_class:
  "build_extraction known i j x = Inr y \<Longrightarrow> extraction_class y = trim (draft_class x)"
  by (auto simp: build_extraction_def Let_def js_error split: if_splits)

lemma build_example_classes:
  assumes "build_example known i e = Inr y"
  shows "map extraction_class (extractions y) = map (\<lambda>x. trim (draft_class x)) (draft_extractions e)"
proof -
  from assms obtain xs where xs: "map_res (build_extraction known i) (draft_extractions e) = Inr xs"
    and y: "extractions y = xs"
    by (auto simp: build_example_def Let_def js_error split: if_splits)
  show ?thesis unfolding y by (rule map_res_map [OF xs]) (rule build_extraction_class)
qed

lemma parsed_classes:
  assumes "map_res (build_example known) examples = Inr parsed"
  shows "config_classes parsed = map (map trim) (draft_classes examples)"
  unfolding config_classes_def draft_classes_def map_map
  by (rule map_res_map [OF assms]) (simp add: build_example_classes)

lemma covered_set_parsed:
  "map_res (build_example known) examples = Inr parsed \<Longrightarrow>
   covered_set (config_classes parsed) vs = covered_set (draft_classes examples) vs"
  by (rule covered_set_trimmed) (simp add: parsed_classes comp_def)

text \<open>
  C21: The builder of the stored examples succeeds exactly on the drafts whose examples are all
  complete in the sense of the guidance, whose field names are all known (when any field is known),
  and whose examples cover every required field.
\<close>

theorem buildLangExtractExamples_accepts:
  "(\<exists>parsed. buildLangExtractExamples examples vs rs = Inr parsed) \<longleftrightarrow>
     list_all isDraftExampleComplete examples \<and>
     list_all (\<lambda>e. list_all (known_class (js_set (nonempty (map trim vs)))) (draft_extractions e)) examples \<and>
     set (nonempty (map trim rs)) \<subseteq> covered_set (draft_classes examples) vs"
proof -
  let ?known = "js_set (nonempty (map trim vs))"
  have "(\<exists>ys. map_res (build_example ?known) examples = Inr ys) \<longleftrightarrow>
      list_all (\<lambda>e. isDraftExampleComplete e \<and> list_all (known_class ?known) (draft_extractions e)) examples"
    by (rule map_res_accepts) (rule build_example_accepts)
  moreover have "(\<exists>parsed. buildLangExtractExamples examples vs rs = Inr parsed) \<longleftrightarrow>
      (\<exists>ys. map_res (build_example ?known) examples = Inr ys) \<and>
      set (nonempty (map trim rs)) \<subseteq> covered_set (draft_classes examples) vs"
    by (cases "map_res (build_example ?known) examples")
      (auto simp: buildLangExtractExamples_def Let_def missingRequiredFields_eq
        covered_set_parsed filter_empty_conv split: if_splits)
  ultimately show ?thesis by (auto simp: list_all_iff)
qed

lemma map_res_from_map: "map_res_from i f (map g xs) = map_res_from i (\<lambda>k x. f k (g x)) xs"
  by (induction xs arbitrary: i) auto

section \<open>Opening a stored configuration and saving it again\<close>

text \<open>What the builder writes: trimmed, non-blank texts, and arrays of single non-blank lines.\<close>

definition plain_text :: "string \<Rightarrow> bool" where
  "plain_text s \<longleftrightarrow> s \<noteq> [] \<and> trim s = s"

fun attribute_stored :: "attribute_value \<Rightarrow> bool" where
  "attribute_stored (Text v) = plain_text v"
| "attribute_stored (Texts vs) = (vs \<noteq> [] \<and> (\<forall>v \<in> set vs. plain_text v \<and> newline \<notin> set v))"

definition extraction_stored :: "config_extraction \<Rightarrow> bool" where
  "extraction_stored x \<longleftrightarrow> plain_text (extraction_class x) \<and> plain_text (extraction_text x) \<and>
     (case attributes x of None \<Rightarrow> False
      | Some as \<Rightarrow> obj_ok as \<and> (\<forall>(k, v) \<in> set as. plain_text k \<and> attribute_stored v))"

definition example_stored :: "config_example \<Rightarrow> bool" where
  "example_stored e \<longleftrightarrow> plain_text (example_text e) \<and> extractions e \<noteq> [] \<and>
     list_all extraction_stored (extractions e)"

lemma plain_trim: "trim s \<noteq> [] \<Longrightarrow> plain_text (trim s)"
  by (simp add: plain_text_def)

lemma text_lines_stored: "v \<in> set (text_lines s) \<Longrightarrow> plain_text v \<and> newline \<notin> set v"
  using set_js_split [of newline s] set_trim by (fastforce simp: text_lines_def plain_text_def)

lemma text_lines_join:
  assumes "vs \<noteq> []" "\<forall>v \<in> set vs. plain_text v \<and> newline \<notin> set v"
  shows "text_lines (js_join [newline] vs) = vs"
proof -
  have "js_split newline (js_join [newline] vs) = vs" using assms by (intro js_split_join) auto
  moreover have "map trim vs = vs" using assms(2) by (auto simp: plain_text_def map_idI)
  moreover have "nonempty vs = vs" using assms(2) by (auto simp: plain_text_def nonempty_def filter_id_conv)
  ultimately show ?thesis by (simp add: text_lines_def)
qed

lemma build_attribute_stored:
  "build_attribute i j k a = Inr (key, v) \<Longrightarrow> plain_text key \<and> attribute_stored v"
  using text_lines_stored [of _ "attr_value a"]
  by (auto simp: build_attribute_def Let_def plain_trim split: if_splits)

lemma obj_from_entries_set: "(k, v) \<in> set (from_entries es) \<Longrightarrow> (k, v) \<in> set es"
proof -
  assume "(k, v) \<in> set (from_entries es)"
  moreover have "distinct (map fst (from_entries es))"
    using obj_ok_from_entries [of es] by (simp add: obj_ok_def obj_keys_def)
  ultimately have "obj_get (from_entries es) k = Some v" by (simp add: obj_get_def)
  then have "map_of (rev es) k = Some v" by (simp add: get_from_entries)
  then show ?thesis by (auto dest: map_of_SomeD)
qed

lemma build_extraction_stored:
  assumes "build_extraction known i j x = Inr y" shows "extraction_stored y"
proof -
  from assms obtain es where es: "map_res (build_attribute i j) (draft_attributes x) = Inr es"
    and y: "y = \<lparr>extraction_class = trim (draft_class x), extraction_text = trim (draft_span x),
             attributes = Some (from_entries es)\<rparr>"
    and "trim (draft_class x) \<noteq> []" "trim (draft_span x) \<noteq> []"
    by (auto simp: build_extraction_def Let_def js_error split: if_splits)
  moreover have "plain_text k \<and> attribute_stored v" if "(k, v) \<in> set (from_entries es)" for k v
    using map_res_set [OF es obj_from_entries_set [OF that]] build_attribute_stored by blast
  ultimately show ?thesis by (auto simp: extraction_stored_def plain_trim obj_ok_from_entries)
qed

lemma build_example_stored:
  assumes "build_example known i e = Inr y" shows "example_stored y"
proof -
  from assms obtain xs where xs: "map_res (build_extraction known i) (draft_extractions e) = Inr xs"
    and "y = \<lparr>example_text = trim (draft_text e), extractions = xs\<rparr>" "trim (draft_text e) \<noteq> []"
      "draft_extractions e \<noteq> []"
    by (auto simp: build_example_def Let_def js_error split: if_splits)
  moreover have "list_all extraction_stored xs"
    using map_res_set [OF xs] build_extraction_stored by (fastforce simp: list_all_iff)
  ultimately show ?thesis using map_res_length [OF xs] by (auto simp: example_stored_def plain_trim)
qed

lemma build_attribute_reopened:
  "plain_text k \<Longrightarrow> attribute_stored v \<Longrightarrow> build_attribute i j n (draft_attribute_of (k, v)) = Inr (k, v)"
  by (cases v) (auto simp: build_attribute_def Let_def text_lines_join plain_text_def)

lemma build_extraction_reopened:
  assumes "extraction_stored x" "known = [] \<or> extraction_class x \<in> set known"
  shows "build_extraction known i j (draft_extraction_of x) = Inr x"
proof -
  from assms(1) obtain as where as: "attributes x = Some as" "obj_ok as"
    and st: "\<forall>(k, v) \<in> set as. plain_text k \<and> attribute_stored v"
    and x: "plain_text (extraction_class x)" "plain_text (extraction_text x)"
    by (auto simp: extraction_stored_def split: option.splits)
  have "map_res (build_attribute i j) (map draft_attribute_of as) = Inr (map (\<lambda>a. a) as)"
    unfolding map_res_from_map by (rule map_res_total) (use st build_attribute_reopened in auto)
  with as x assms(2) show ?thesis
    by (auto simp: build_extraction_def draft_extraction_of_def Let_def plain_text_def from_entries_id)
qed

lemma build_example_reopened:
  assumes "example_stored e" "\<forall>x \<in> set (extractions e). known = [] \<or> extraction_class x \<in> set known"
  shows "build_example known i \<lparr>draft_text = example_text e,
           draft_extractions = map draft_extraction_of (extractions e)\<rparr> = Inr e"
proof -
  have "map_res (build_extraction known i) (map draft_extraction_of (extractions e))
      = Inr (map (\<lambda>x. x) (extractions e))"
    unfolding map_res_from_map
    by (rule map_res_total) (use assms build_extraction_reopened in \<open>auto simp: example_stored_def list_all_iff\<close>)
  with assms show ?thesis by (auto simp: build_example_def example_stored_def plain_text_def Let_def)
qed

lemma parsed_known:
  assumes "map_res (build_example known) examples = Inr parsed" "e \<in> set parsed" "x \<in> set (extractions e)"
  shows "known = [] \<or> extraction_class x \<in> set known"
proof -
  from map_res_set [OF assms(1,2)] obtain i d where d: "build_example known i d = Inr e" by blast
  then obtain xs where xs: "map_res (build_extraction known i) (draft_extractions d) = Inr xs" "extractions e = xs"
    by (auto simp: build_example_def Let_def js_error split: if_splits)
  with map_res_set [OF xs(1)] assms(3) obtain j y where y: "build_extraction known i j y = Inr x" by blast
  then have "known_class known y" using build_extraction_accepts by blast
  with build_extraction_class [OF y] show ?thesis by (simp add: known_class_def)
qed

lemma buildLangExtractExamples_InrD:
  assumes "buildLangExtractExamples examples vs rs = Inr parsed"
  shows "map_res (build_example (js_set (nonempty (map trim vs)))) examples = Inr parsed"
    and "set (nonempty (map trim rs)) \<subseteq> covered_set (config_classes parsed) vs"
  using assms
  by (auto simp: buildLangExtractExamples_def Let_def js_error missingRequiredFields_eq filter_empty_conv
      split: if_splits)

lemma saved_again:
  assumes "buildLangExtractExamples examples vs rs = Inr parsed"
  shows "buildLangExtractExamples
     (buildDraftLangExtractExamples (Some \<lparr>prompt_description = p, config_examples = Some parsed\<rparr>)) vs rs = Inr parsed"
proof -
  let ?known = "js_set (nonempty (map trim vs))"
  note parsed = buildLangExtractExamples_InrD [OF assms]
  have "\<forall>e \<in> set parsed. example_stored e"
    using map_res_set [OF parsed(1)] build_example_stored by blast
  then have "map_res_from 0 (\<lambda>i e. build_example ?known i \<lparr>draft_text = example_text e,
      draft_extractions = map draft_extraction_of (extractions e)\<rparr>) parsed = Inr (map (\<lambda>e. e) parsed)"
    using parsed_known [OF parsed(1)] by (intro map_res_total build_example_reopened) blast+
  then have "map_res (build_example ?known) (buildDraftLangExtractExamples
      (Some \<lparr>prompt_description = p, config_examples = Some parsed\<rparr>)) = Inr parsed"
    by (simp add: buildDraftLangExtractExamples_def map_res_from_map)
  moreover have "missingRequiredFields (getLangExtractFieldCoverage (config_classes parsed) vs rs) = []"
    using parsed(2) by (auto simp: missingRequiredFields_eq filter_empty_conv)
  ultimately show ?thesis by (simp add: buildLangExtractExamples_def)
qed

text \<open>
  C22: Whatever the builder stored survives being opened as a draft and saved again unchanged:
  the second save succeeds and writes the same examples.
\<close>

theorem saved_examples_reopen:
  assumes "buildLangExtractExamples examples vs rs = Inr parsed"
  shows "buildLangExtractExamples
     (buildDraftLangExtractExamples (Some \<lparr>prompt_description = p, config_examples = Some parsed\<rparr>)) vs rs = Inr parsed"
  using assms by (rule saved_again)

definition one_example_draft :: "draft_example list" where
  "one_example_draft = [\<lparr>draft_text = ''Client: A'',
     draft_extractions = [\<lparr>draft_class = ''client'', draft_span = ''A'', draft_attributes = []\<rparr>]\<rparr>]"

lemma one_example_saved:
  "buildLangExtractExamples one_example_draft [] [] = Inr [\<lparr>example_text = ''Client: A'',
     extractions = [\<lparr>extraction_class = ''client'', extraction_text = ''A'', attributes = Some []\<rparr>]\<rparr>]"
  by code_simp

lemma saved_examples_reopen_witness:
  "\<exists>parsed. buildLangExtractExamples one_example_draft [] [] = Inr parsed
     \<and> buildLangExtractExamples
          (buildDraftLangExtractExamples (Some \<lparr>prompt_description = None, config_examples = Some parsed\<rparr>)) [] [] = Inr parsed"
  using one_example_saved saved_examples_reopen [OF one_example_saved] by blast

section \<open>Matching is equality of the comparable forms\<close>

lemma members_ok_iff: "members_ok ps \<longleftrightarrow> (\<forall>(k, v) \<in> set ps. json_ok v)"
  by (induction ps) auto

lemma jsons_ok_iff: "jsons_ok vs \<longleftrightarrow> list_all json_ok vs"
  by (induction vs) auto

lemma attribute_json_ok: "json_ok (attribute_json v)"
  by (cases v) (auto simp: jsons_ok_iff list_all_iff)

lemma attribute_json_inj: "attribute_json v = attribute_json w \<longleftrightarrow> v = w"
proof -
  have "map JStr xs = map JStr ys \<longleftrightarrow> xs = ys" for xs ys
    by (rule inj_map_eq_map) (simp add: inj_def)
  then show ?thesis by (cases v; cases w) auto
qed

lemma attributes_json_ok: "obj_ok as \<Longrightarrow> json_ok (attributes_json as)"
  by (auto simp: attributes_json_def members_ok_iff attribute_json_ok obj_ok_def obj_keys_def comp_def case_prod_unfold)

lemma attributes_json_inj: "attributes_json as = attributes_json bs \<longleftrightarrow> as = bs"
proof -
  have "inj (\<lambda>(k, v). (k :: string, attribute_json v))" by (auto simp: inj_def attribute_json_inj)
  then show ?thesis by (simp add: attributes_json_def inj_map_eq_map)
qed

lemma no_index_keys:
  "\<not> is_digit (hd k) \<Longrightarrow> k \<noteq> [] \<Longrightarrow> index_key k = None"
  by (cases k) (auto simp: index_key_def)

definition comparable_ok :: "comparable_example \<Rightarrow> bool" where
  "comparable_ok e \<longleftrightarrow> (\<forall>x \<in> set (comparable_extractions e). obj_ok (comparable_attributes x))"

lemma literal_keys:
  "index_key ''text'' = None" "index_key ''extractions'' = None" "index_key ''extraction_class'' = None"
  "index_key ''extraction_text'' = None" "index_key ''attributes'' = None"
  by (simp_all add: no_index_keys is_digit_def)

lemma comparable_json_ok: "comparable_ok e \<Longrightarrow> json_ok (comparable_json e)"
  by (auto simp: comparable_json_def comparable_ok_def comparable_extraction_json_def jsons_ok_iff list_all_iff
      attributes_json_ok obj_ok_def key_precedes_def literal_keys)

lemma comparable_json_inj: "comparable_json a = comparable_json b \<longleftrightarrow> a = b"
proof -
  have "inj comparable_extraction_json"
    by (auto simp: inj_def comparable_extraction_json_def attributes_json_inj)
  then show ?thesis
    by (auto simp: comparable_json_def inj_map_eq_map)
qed

lemma comparable_forms_ok:
  "buildComparableDraftExample cmp e = Some c \<Longrightarrow> comparable_ok c"
  "comparable_ok (buildComparableSuggestion cmp s)"
proof -
  have collect: "collect_options f xs = Some ys \<Longrightarrow> y \<in> set ys \<Longrightarrow> \<exists>x \<in> set xs. f x = Some y"
    for f :: "'a \<Rightarrow> 'b option" and xs ys y
    by (induction xs arbitrary: ys) (auto split: option.splits)
  show "buildComparableDraftExample cmp e = Some c \<Longrightarrow> comparable_ok c"
    by (auto simp: buildComparableDraftExample_def Let_def comparable_ok_def comparable_draft_extraction_def
        buildComparableDraftAttributes_def obj_ok_from_entries dest!: collect split: if_splits)
  show "comparable_ok (buildComparableSuggestion cmp s)"
    by (auto simp: buildComparableSuggestion_def comparable_ok_def comparable_suggestion_extraction_def
        buildComparableSuggestionAttributes_def obj_ok_from_entries)
qed

text \<open>
  Comparing the serialised texts decides equality of the normalised structures: a draft example
  matches a suggestion exactly when it is complete and normalises to what the suggestion normalises to.
\<close>

theorem matches_iff_same_comparable:
  "doesDraftLangExtractExampleMatchSuggestion cmp e s \<longleftrightarrow>
     buildComparableDraftExample cmp e = Some (buildComparableSuggestion cmp s)"
  using compact.encode_injective [OF comparable_json_ok comparable_json_ok, OF comparable_forms_ok]
  by (auto simp: doesDraftLangExtractExampleMatchSuggestion_def comparable_json_inj split: option.split)

section \<open>A draft made from a suggestion matches it\<close>

text \<open>
  The suggestions this holds for: non-blank texts and names, no blank attribute value, and no line
  break inside an array item (the draft keeps an array as one text, an item per line).
\<close>

fun attribute_single_lines :: "attribute_value \<Rightarrow> bool" where
  "attribute_single_lines (Text v) = (trim v \<noteq> [])"
| "attribute_single_lines (Texts vs) = (list_ex (\<lambda>v. trim v \<noteq> []) vs \<and> list_all (\<lambda>v. newline \<notin> set v) vs)"

definition suggestion_applicable :: "feedback_suggestion \<Rightarrow> bool" where
  "suggestion_applicable s \<longleftrightarrow>
     normalizeComparableText (suggestion_text s) \<noteq> [] \<and> suggestion_extractions s \<noteq> [] \<and>
     list_all (\<lambda>x. trim (extraction_class x) \<noteq> [] \<and> trim (extraction_text x) \<noteq> [] \<and>
       list_all (\<lambda>(k, v). trim k \<noteq> [] \<and> attribute_single_lines v) (coalesce (attributes x) []))
       (suggestion_extractions s)"

lemma collect_options_map:
  "\<forall>x \<in> set xs. f (g x) = Some (h x) \<Longrightarrow> collect_options f (map g xs) = Some (map h xs)"
  by (induction xs) auto

lemma comparable_entry_of_draft:
  assumes "trim k \<noteq> []" "attribute_single_lines v"
  shows "comparable_draft_entry (draft_attribute_of (k, v)) = Some (comparable_suggestion_entry (k, v))"
proof (cases v)
  case (Texts vs)
  with assms have "vs \<noteq> []" "\<forall>v \<in> set vs. newline \<notin> set v" "list_ex (\<lambda>v. trim v \<noteq> []) vs"
    by (auto simp: list_all_iff)
  then have "text_lines (js_join [newline] vs) = nonempty (map trim vs)" "nonempty (map trim vs) \<noteq> []"
    by (auto simp: text_lines_def js_split_join nonempty_def filter_empty_conv list_ex_iff)
  with Texts assms show ?thesis by (simp add: comparable_draft_entry_def Let_def)
qed (use assms in \<open>simp add: comparable_draft_entry_def Let_def\<close>)

lemma comparable_extraction_of_draft:
  assumes "trim (extraction_class x) \<noteq> []" "trim (extraction_text x) \<noteq> []"
    and "list_all (\<lambda>(k, v). trim k \<noteq> [] \<and> attribute_single_lines v) (coalesce (attributes x) [])"
  shows "comparable_draft_extraction cmp (draft_extraction_of x) = Some (comparable_suggestion_extraction cmp x)"
proof -
  have "collect_options comparable_draft_entry (map draft_attribute_of (coalesce (attributes x) []))
      = Some (map comparable_suggestion_entry (coalesce (attributes x) []))"
    using assms(3) comparable_entry_of_draft by (intro collect_options_map) (auto simp: list_all_iff)
  with assms show ?thesis
    by (simp add: comparable_draft_extraction_def draft_extraction_of_def Let_def
        buildComparableDraftAttributes_def comparable_suggestion_extraction_def buildComparableSuggestionAttributes_def)
qed

lemma comparable_of_applicable:
  assumes "suggestion_applicable s"
  shows "buildComparableDraftExample cmp (buildDraftLangExtractExampleFromSuggestion s)
    = Some (buildComparableSuggestion cmp s)"
proof -
  have "collect_options (comparable_draft_extraction cmp) (map draft_extraction_of (suggestion_extractions s))
      = Some (map (comparable_suggestion_extraction cmp) (suggestion_extractions s))"
    using assms comparable_extraction_of_draft
    by (intro collect_options_map) (auto simp: suggestion_applicable_def list_all_iff)
  with assms show ?thesis
    by (simp add: buildComparableDraftExample_def buildDraftLangExtractExampleFromSuggestion_def Let_def
        buildComparableSuggestion_def suggestion_applicable_def)
qed

text \<open>
  Appending the example made from an applicable suggestion marks that suggestion as applied,
  whatever the other examples and suggestions are and however the locale orders names.
\<close>

theorem applied_suggestion_is_recognised:
  assumes "suggestion_applicable s" "s \<in> set suggestions"
  shows "suggestion_key s \<in> set (getAppliedLangExtractSuggestionKeys cmp
           (examples @ [buildDraftLangExtractExampleFromSuggestion s]) suggestions)"
  using assms comparable_of_applicable [OF assms(1), of cmp]
  by (auto simp: getAppliedLangExtractSuggestionKeys_def doesDraftLangExtractExampleMatchSuggestion_def)

definition sample_suggestion :: feedback_suggestion where
  "sample_suggestion =
     \<lparr>suggestion_key = ''k1'', suggestion_version_id = Num 3, suggestion_text = ''Client: A  '',
      suggestion_extractions =
        [\<lparr>extraction_class = ''client'', extraction_text = ''A'',
          attributes = Some [(''tags'', Texts [''x '', '''', ''y'']), (''kind'', Text ''org'')]\<rparr>],
      occurrence_count = Num 2, source_result_ids = [], source_field_names = [], last_reviewed_at = None\<rparr>"

lemma applied_suggestion_is_recognised_witness:
  "suggestion_key sample_suggestion \<in> set (getAppliedLangExtractSuggestionKeys (\<lambda>a b. 0)
     ([] @ [buildDraftLangExtractExampleFromSuggestion sample_suggestion]) [sample_suggestion])"
  by (rule applied_suggestion_is_recognised) (code_simp, simp)

section \<open>The guidance\<close>

definition guidance_problems :: "string \<Rightarrow> draft_example list \<Rightarrow> string list \<Rightarrow> string list \<Rightarrow> nat" where
  "guidance_problems prompt examples vs rs =
     (if length (trim prompt) < 80 then 1 else 0)
     + (if length (filter isDraftExampleComplete examples) < 2 then 1 else 0)
     + (if list_all isDraftExampleComplete examples then 0 else 1)
     + (if set (nonempty (map trim rs)) \<subseteq> covered_set (draft_classes (filter isDraftExampleComplete examples)) vs
        then 0 else 1)"

lemma length_filter_complete: "0 < length xs - length (filter P xs) \<longleftrightarrow> \<not> list_all P xs"
proof -
  have "length (filter P xs) = length xs \<longleftrightarrow> list_all P xs"
    by (metis list_all_iff filter_id_conv length_filter_less nat_neq_iff)
  with length_filter_le [of P xs] show ?thesis by linarith
qed

text \<open>
  The guidance shows one message per failed check (a short prompt, fewer than two complete
  examples, incomplete examples, uncovered required fields), or the all-clear when none fails, and
  it reports the draft as ready when at most one check fails.
\<close>

theorem guidance_ready_iff:
  "length (messages (getLangExtractDraftGuidance prompt examples vs rs)) = max 1 (guidance_problems prompt examples vs rs)
   \<and> isReady (getLangExtractDraftGuidance prompt examples vs rs) = (guidance_problems prompt examples vs rs \<le> 1)"
proof -
  have two: "length (filter isDraftExampleComplete examples) < 2 \<longleftrightarrow>
      filter isDraftExampleComplete examples = [] \<or> length (filter isDraftExampleComplete examples) = 1"
    by (cases "filter isDraftExampleComplete examples") (auto simp: less_Suc_eq)
  have short: "length (trim prompt) < 80 \<longleftrightarrow> trim prompt = [] \<or> length (trim prompt) < 80" by auto
  have miss: "missingRequiredFields (getLangExtractFieldCoverage es vs rs) = [] \<longleftrightarrow>
      set (nonempty (map trim rs)) \<subseteq> covered_set es vs" for es
    by (auto simp: missingRequiredFields_eq filter_empty_conv)
  show ?thesis
    unfolding getLangExtractDraftGuidance_def guidance_problems_def Let_def two length_filter_complete
    by (simp add: miss)
qed

text \<open>
  A draft with a long enough prompt, one complete example and nothing else wrong still has a
  problem to report, yet is reported as ready.
\<close>

theorem guidance_ready_with_a_problem:
  "getLangExtractDraftGuidance (replicate 80 CHR ''p'') one_example_draft [''client''] [''client''] =
     \<lparr>isReady = True, messages = [second_example_message]\<rparr>"
  by code_simp
end
