(* ===== verification/ReviewDraft.thy ===== *)
theory ReviewDraft
  imports LangExtract
begin

text \<open>
  The value of a review field as editable text and back (\<open>lib/review-draft.ts\<close>), the confidence
  rule and hints (\<open>lib/review-helpers.ts\<close>, \<open>review-field-hint.ts\<close>), job progress
  (\<open>lib/job-progress.ts\<close>) and the edits a review sends (\<open>buildReviewEditsForResult\<close> in \<open>App.tsx\<close>).
  \<open>Number.prototype.toLocaleString\<close> with two fraction digits is the parameter \<open>loc\<close>.
\<close>

section \<open>Field types and values\<close>

definition STRUCTURED_FIELD_TYPES :: "string set" where
  "STRUCTURED_FIELD_TYPES = {''json_object'', ''structured_object'', ''table''}"

definition isRecord :: "json \<Rightarrow> bool" where
  "isRecord v = (case v of JObj ps \<Rightarrow> True | _ \<Rightarrow> False)"

text \<open>\<open>value.key\<close>, \<open>None\<close> when the value is no object or has no such property.\<close>

definition property :: "json \<Rightarrow> string \<Rightarrow> json option" where
  "property v k = (case v of JObj ps \<Rightarrow> obj_get ps k | _ \<Rightarrow> None)"

definition nullish :: "json option \<Rightarrow> json option" where
  "nullish v = (case v of Some JNull \<Rightarrow> None | _ \<Rightarrow> v)"

definition original_value :: "review_field \<Rightarrow> json" where
  "original_value f = coalesce (or_else (nullish (normalized_value f)) (extracted_value f)) JNull"

definition getReviewFieldType :: "review_field \<Rightarrow> template_field option \<Rightarrow> string" where
  "getReviewFieldType f d = to_lower (coalesce (or_else (data_type f) (map_option field_def_type d)) ''text'')"

section \<open>From the value to the draft\<close>

text \<open>\<open>JSON.stringify\<close> does not throw on JSON data, so the \<open>String(value)\<close> fallback is not reached.\<close>

definition formatStructuredDraftValue :: "json \<Rightarrow> string" where
  "formatStructuredDraftValue v = (if v = JNull then '''' else stringify_indented v)"

text \<open>\<open>typeof value === "number"\<close> and its siblings, with the text the branch returns.\<close>

fun number_text :: "json option \<Rightarrow> string option" where
  "number_text (Some (JNum n)) = Some (num_to_string n)"
| "number_text _ = None"

fun bool_text :: "json option \<Rightarrow> string option" where
  "bool_text (Some (JBool b)) = Some (if b then ''true'' else ''false'')"
| "bool_text _ = None"

fun string_text :: "json option \<Rightarrow> string option" where
  "string_text (Some (JStr s)) = Some s"
| "string_text _ = None"

definition getInitialReviewDraft :: "review_field \<Rightarrow> template_field option \<Rightarrow> string" where
  "getInitialReviewDraft f d =
     (let v = original_value f; type = getReviewFieldType f d; inner = property v ''value'' in
      if v = JNull then ''''
      else if type \<in> STRUCTURED_FIELD_TYPES then formatStructuredDraftValue v
      else coalesce
        (or_else (if type = ''currency'' then number_text (property v ''amount'') else None)
        (or_else (if type = ''boolean'' then or_else (bool_text (Some v)) (bool_text inner) else None)
        (or_else (or_else (string_text inner) (number_text inner))
        (or_else (or_else (string_text (Some v)) (number_text (Some v))) (bool_text (Some v))))))
        (stringify v))"

section \<open>From the draft to the value\<close>

definition parseStructuredReviewDraft :: "string \<Rightarrow> string \<Rightarrow> string \<Rightarrow> json result" where
  "parseStructuredReviewDraft label raw type =
     (let trimmed = trim raw in
      if trimmed = [] then Inr JNull
      else case json_parse trimmed of
        None \<Rightarrow> Inl (label @ '' must be valid JSON.'')
      | Some parsed \<Rightarrow>
          (let array = (case parsed of JArr vs \<Rightarrow> True | _ \<Rightarrow> False) in
           if type = ''table'' then
             (if \<not> array then Inl (label @ '' must be a JSON array of rows.'') else Inr parsed)
           else if type = ''json_object'' \<or> type = ''structured_object'' then
             (if \<not> isRecord parsed \<and> \<not> array then Inl (label @ '' must be a JSON object or array.'') else Inr parsed)
           else Inr parsed))"

definition parseReviewDraft ::
    "(jsnum \<Rightarrow> string) \<Rightarrow> review_field \<Rightarrow> string \<Rightarrow> template_field option \<Rightarrow> json result" where
  "parseReviewDraft loc f raw d =
     (let trimmed = trim raw; type = getReviewFieldType f d in
      if trimmed = [] then Inr JNull
      else if type \<in> STRUCTURED_FIELD_TYPES then parseStructuredReviewDraft (field_label f) raw type
      else if type = ''currency'' then
        (let amount = string_to_number trimmed in
         if amount = NaN then Inl (field_label f @ '' must be a valid number.'')
         else let currency =
                (case Option.bind (normalized_value f) (\<lambda>v. property v ''currency'') of
                   Some (JStr c) \<Rightarrow> c | _ \<Rightarrow> ''USD'')
              in Inr (JObj [(''amount'', JNum amount), (''currency'', JStr currency),
                            (''display_value'', JStr (currency @ '' '' @ loc amount))]))
      else if type = ''date'' then Inr (JObj [(''value'', JStr trimmed), (''display_value'', JStr trimmed)])
      else if type = ''number'' then
        (let v = string_to_number trimmed in
         if v = NaN then Inl (field_label f @ '' must be a valid number.'') else Inr (JObj [(''value'', JNum v)]))
      else if type = ''boolean'' then Inr (JBool (trimmed = ''true''))
      else Inr (JObj [(''value'', JStr raw)]))"

definition validateJsonDraft :: "string \<Rightarrow> string option" where
  "validateJsonDraft raw =
     (if trim raw = [] then None
      else case json_parse (trim raw) of Some _ \<Rightarrow> None | None \<Rightarrow> Some ''Enter valid JSON.'')"

section \<open>Confidence, hints and progress\<close>

definition REVIEW_HIGH_CONFIDENCE_MIN :: jsnum where
  "REVIEW_HIGH_CONFIDENCE_MIN = to_double (85 / 100)"

definition isHighConfidenceField :: "review_field \<Rightarrow> jsnum \<Rightarrow> bool" where
  "isHighConfidenceField f threshold =
     (if \<not> requires_review f \<or> validation_status f = ''invalid'' then False
      else case confidence_score f of None \<Rightarrow> False | Some score \<Rightarrow> num_ge score threshold)"

definition reviewFieldHint :: "string \<Rightarrow> template_field option \<Rightarrow> string" where
  "reviewFieldHint type d =
     (if type = ''boolean'' then ''Choose the confirmed value.''
      else if type = ''paragraph'' then ''Save the verified text exactly as it should appear in the result.''
      else if type = ''date'' then ''Use the normalized date when the source is clear.''
      else if type = ''category'' \<or> type = ''multi_select'' then
        (if coalesce (Option.bind d allowed_values) [] \<noteq> [] then ''Pick one of the allowed schema values.''
         else ''Enter the confirmed category value.'')
      else if type = ''currency'' then
        ''Enter the amount in '' @ coalesce (Option.bind d output_currency) ''USD'' @ ''.''
      else if type = ''number'' \<or> type = ''percentage'' then ''Enter the confirmed numeric value.''
      else ''Edit the normalized value before saving.'')"

definition JOB_STAGE_LABELS :: "string obj" where
  "JOB_STAGE_LABELS =
     [(''queued'', ''Waiting in queue''), (''parsing'', ''Parsing document''),
      (''extracting'', ''Extracting fields''), (''validating'', ''Validating results''),
      (''calculating'', ''Running calculations''), (''completed'', ''Complete''),
      (''failed'', ''Failed''), (''running'', ''Processing'')]"

definition getJobStageLabel :: "string option \<Rightarrow> string" where
  "getJobStageLabel stage =
     (case stage of
        None \<Rightarrow> ''Processing''
      | Some s \<Rightarrow>
          if s = [] then ''Processing''
          else coalesce (obj_get JOB_STAGE_LABELS s) (replace_char CHR ''_'' '' '' s))"

definition clampProgressPct :: "jsnum option \<Rightarrow> jsnum" where
  "clampProgressPct v =
     (case v of
        None \<Rightarrow> Num 0
      | Some n \<Rightarrow> if n = NaN then Num 0 else num_max (Num 0) (num_min (Num 100) (num_round n)))"

section \<open>The edits a review sends\<close>

record review_edit =
  edit_field :: string
  edit_value :: json
  edit_reason :: string

definition getFieldDefinition :: "template_definition option \<Rightarrow> string \<Rightarrow> template_field option" where
  "getFieldDefinition d name = Option.bind d (\<lambda>t. find (\<lambda>f. field_def_name f = name) (extracted_fields t))"

definition field_edit ::
    "(jsnum \<Rightarrow> string) \<Rightarrow> string obj \<Rightarrow> template_definition option \<Rightarrow> review_field \<Rightarrow> review_edit option result" where
  "field_edit loc drafts d f =
     (let def = getFieldDefinition d (field_name f);
          draft = coalesce (obj_get drafts (field_name f)) (getInitialReviewDraft f def)
      in res_bind (parseReviewDraft loc f draft def) (\<lambda>parsed.
           Inr (if stringify parsed = stringify (original_value f) then None
                else Some \<lparr>edit_field = field_name f, edit_value = parsed,
                           edit_reason = ''Updated from extraction workspace''\<rparr>)))"

definition buildReviewEditsForResult ::
    "(jsnum \<Rightarrow> string) \<Rightarrow> string obj \<Rightarrow> result_payload \<Rightarrow> template_definition option \<Rightarrow> review_edit list result" where
  "buildReviewEditsForResult loc drafts r d =
     res_bind (map_res (\<lambda>_. field_edit loc drafts d) (result_extracted r)) (\<lambda>es.
       Inr (List.map_filter id es))"

text \<open>The drafts the review form starts from, one per extracted field.\<close>

definition initial_review_drafts :: "result_payload \<Rightarrow> template_definition option \<Rightarrow> string obj" where
  "initial_review_drafts r d =
     from_entries (map (\<lambda>f. (field_name f, getInitialReviewDraft f (getFieldDefinition d (field_name f))))
       (result_extracted r))"

section \<open>Reading back an untouched draft\<close>

text \<open>The shapes that the editor of each field type writes itself.\<close>

definition canonical_value :: "(jsnum \<Rightarrow> string) \<Rightarrow> string \<Rightarrow> json \<Rightarrow> bool" where
  "canonical_value loc type v \<longleftrightarrow>
     v = JNull \<or>
     (if type = ''table'' then json_ok v \<and> (\<exists>vs. v = JArr vs)
      else if type \<in> STRUCTURED_FIELD_TYPES then json_ok v \<and> (isRecord v \<or> (\<exists>vs. v = JArr vs))
      else if type = ''currency'' then
        (\<exists>a c. num_ok a \<and> is_finite a \<and>
           v = JObj [(''amount'', JNum a), (''currency'', JStr c), (''display_value'', JStr (c @ '' '' @ loc a))])
      else if type = ''date'' then \<exists>s. plain_text s \<and> v = JObj [(''value'', JStr s), (''display_value'', JStr s)]
      else if type = ''number'' then \<exists>n. num_ok n \<and> is_finite n \<and> v = JObj [(''value'', JNum n)]
      else if type = ''boolean'' then \<exists>b. v = JBool b
      else \<exists>s. trim s \<noteq> [] \<and> v = JObj [(''value'', JStr s)])"

lemma nullish_Some: "nullish x = Some v \<Longrightarrow> x = Some v \<and> v \<noteq> JNull"
  by (auto simp: nullish_def split: option.splits json.splits)

lemma stringify_not_Nil: "json_ok v \<Longrightarrow> stringify_indented v \<noteq> [] \<and> trim (stringify_indented v) = stringify_indented v"
  using print_json_hd [of v "Some 2" 0] by (simp add: stringify_indented_def trim_print_json)

lemma parse_structured_initial:
  assumes "type \<in> STRUCTURED_FIELD_TYPES" "json_ok v" "v \<noteq> JNull"
    and "if type = ''table'' then \<exists>vs. v = JArr vs else isRecord v \<or> (\<exists>vs. v = JArr vs)"
  shows "parseStructuredReviewDraft label (formatStructuredDraftValue v) type = Inr v"
proof -
  have "parseStructuredReviewDraft label (stringify_indented v) type =
      (let array = (case v of JArr vs \<Rightarrow> True | _ \<Rightarrow> False) in
       if type = ''table'' then
         (if \<not> array then Inl (label @ '' must be a JSON array of rows.'') else Inr v)
       else if type = ''json_object'' \<or> type = ''structured_object'' then
         (if \<not> isRecord v \<and> \<not> array then Inl (label @ '' must be a JSON object or array.'') else Inr v)
       else Inr v)"
    using stringify_not_Nil [OF assms(2)] indented.decode_encode [OF assms(2)]
    by (simp add: parseStructuredReviewDraft_def)
  with assms(3,4) show ?thesis
    by (cases v) (simp_all add: formatStructuredDraftValue_def isRecord_def Let_def split: if_splits)
qed

lemma num_to_string_nonempty: "num_ok n \<Longrightarrow> is_finite n \<Longrightarrow> num_to_string n \<noteq> [] \<and> trim (num_to_string n) = num_to_string n"
  using num_to_string_hd [of n] num_to_string_trim [of n] by simp

lemma not_structured [simp]:
  "''currency'' \<notin> STRUCTURED_FIELD_TYPES" "''date'' \<notin> STRUCTURED_FIELD_TYPES"
  "''number'' \<notin> STRUCTURED_FIELD_TYPES" "''boolean'' \<notin> STRUCTURED_FIELD_TYPES"
  by (simp_all add: STRUCTURED_FIELD_TYPES_def)

lemma trim_bool_text [simp]: "trim ''true'' = ''true''" "trim ''false'' = ''false''"
  by (simp_all add: trim_id js_space_def)

lemma original_not_null:
  "original_value f = v \<Longrightarrow> v \<noteq> JNull \<Longrightarrow> nullish (normalized_value f) = None \<or> normalized_value f = Some v"
  by (auto simp: original_value_def nullish_def split: option.splits json.splits)

lemma canonical_plainE:
  assumes "canonical_value loc t v" "t \<notin> STRUCTURED_FIELD_TYPES" "v \<noteq> JNull"
  obtains
      (currency) a c where "t = ''currency''" "num_ok a" "is_finite a"
        "v = JObj [(''amount'', JNum a), (''currency'', JStr c), (''display_value'', JStr (c @ '' '' @ loc a))]"
    | (date) s where "t = ''date''" "plain_text s" "v = JObj [(''value'', JStr s), (''display_value'', JStr s)]"
    | (number) n where "t = ''number''" "num_ok n" "is_finite n" "v = JObj [(''value'', JNum n)]"
    | (boolean) b where "t = ''boolean''" "v = JBool b"
    | (other) s where "t \<noteq> ''currency''" "t \<noteq> ''date''" "t \<noteq> ''number''" "t \<noteq> ''boolean''" "trim s \<noteq> []"
        "v = JObj [(''value'', JStr s)]"
proof -
  have t: "t \<noteq> ''table''" using assms(2) by (auto simp: STRUCTURED_FIELD_TYPES_def)
  note can = assms(1) [unfolded canonical_value_def if_not_P [OF t] if_not_P [OF assms(2)], simplified assms(3) simp_thms]
  show thesis
  proof (cases "t = ''currency''")
    case True
    with can show thesis by (auto intro: currency [OF True])
  next
    case c: False
    show thesis
    proof (cases "t = ''date''")
      case True
      with can c show thesis by (auto intro: date [OF True])
    next
      case d: False
      show thesis
      proof (cases "t = ''number''")
        case True
        with can c d show thesis by (auto intro: number [OF True])
      next
        case n: False
        show thesis
        proof (cases "t = ''boolean''")
          case True
          with can c d n show thesis by (auto intro: boolean [OF True])
        next
          case False
          with can c d n show thesis by (auto intro: other [OF c d n False])
        qed
      qed
    qed
  qed
qed

lemma parse_initial_draft:
  assumes "canonical_value loc (getReviewFieldType f d) (original_value f)"
    and "getReviewFieldType f d = ''currency'' \<Longrightarrow> nullish (normalized_value f) \<noteq> None"
  shows "parseReviewDraft loc f (getInitialReviewDraft f d) d = Inr (original_value f)"
proof (cases "original_value f = JNull")
  case True
  then show ?thesis by (simp add: parseReviewDraft_def getInitialReviewDraft_def)
next
  case False
  let ?t = "getReviewFieldType f d" and ?v = "original_value f"
  note can = assms(1) [unfolded canonical_value_def]
  show ?thesis
  proof (cases "?t \<in> STRUCTURED_FIELD_TYPES")
    case True
    with can False have ok: "json_ok ?v"
      "if ?t = ''table'' then \<exists>vs. ?v = JArr vs else isRecord ?v \<or> (\<exists>vs. ?v = JArr vs)"
      by (auto split: if_splits)
    from parse_structured_initial [OF True ok(1) False ok(2)] stringify_not_Nil [OF ok(1)] True False show ?thesis
      by (simp add: parseReviewDraft_def getInitialReviewDraft_def formatStructuredDraftValue_def Let_def)
  next
    case plain: False
    from assms(1) plain False show ?thesis
    proof (cases rule: canonical_plainE)
      case (currency a c)
      have nv: "normalized_value f = Some ?v"
        using original_not_null [OF refl False] assms(2) [OF currency(1)] by simp
      have "a \<noteq> NaN" using currency by auto
      with currency num_to_string_nonempty [of a] string_to_number_to_string [of a] nv show ?thesis
        by (simp add: parseReviewDraft_def getInitialReviewDraft_def Let_def property_def obj_get_def)
    next
      case (date s)
      then show ?thesis
        by (simp add: parseReviewDraft_def getInitialReviewDraft_def Let_def property_def obj_get_def plain_text_def)
    next
      case (number n)
      have "n \<noteq> NaN" using number by auto
      with number num_to_string_nonempty [of n] string_to_number_to_string [of n] show ?thesis
        by (simp add: parseReviewDraft_def getInitialReviewDraft_def Let_def property_def obj_get_def)
    next
      case (boolean b)
      then show ?thesis
        by (cases b) (simp_all add: parseReviewDraft_def getInitialReviewDraft_def Let_def property_def)
    next
      case (other s)
      with plain show ?thesis
        by (simp add: parseReviewDraft_def getInitialReviewDraft_def Let_def property_def obj_get_def)
    qed
  qed
qed

text \<open>A field whose value its own editor could have written.\<close>

definition canonical_field :: "(jsnum \<Rightarrow> string) \<Rightarrow> template_definition option \<Rightarrow> review_field \<Rightarrow> bool" where
  "canonical_field loc d f \<longleftrightarrow>
     (let type = getReviewFieldType f (getFieldDefinition d (field_name f)) in
      canonical_value loc type (original_value f) \<and>
      (type = ''currency'' \<longrightarrow> nullish (normalized_value f) \<noteq> None))"

lemma field_edit_untouched:
  assumes "canonical_field loc d f"
    and "obj_get drafts (field_name f) \<in> {None, Some (getInitialReviewDraft f (getFieldDefinition d (field_name f)))}"
  shows "field_edit loc drafts d f = Inr None"
  using assms parse_initial_draft [of loc f "getFieldDefinition d (field_name f)"]
  by (auto simp: field_edit_def canonical_field_def Let_def)

lemma initial_review_drafts_get:
  assumes "distinct (map field_name (result_extracted r))" "f \<in> set (result_extracted r)"
  shows "obj_get (initial_review_drafts r d) (field_name f)
    = Some (getInitialReviewDraft f (getFieldDefinition d (field_name f)))"
proof -
  let ?es = "map (\<lambda>f. (field_name f, getInitialReviewDraft f (getFieldDefinition d (field_name f)))) (result_extracted r)"
  have "distinct (map fst (rev ?es))" using assms(1) by (simp add: comp_def rev_map [symmetric])
  moreover have "(field_name f, getInitialReviewDraft f (getFieldDefinition d (field_name f))) \<in> set (rev ?es)"
    using assms(2) by auto
  ultimately show ?thesis
    unfolding initial_review_drafts_def get_from_entries by (rule map_of_is_SomeI)
qed

lemma untouched_edits:
  assumes "distinct (map field_name (result_extracted r))"
    and "\<forall>f \<in> set (result_extracted r). canonical_field loc d f"
  shows "buildReviewEditsForResult loc (initial_review_drafts r d) r d = Inr []"
proof -
  have "map_res (\<lambda>_. field_edit loc (initial_review_drafts r d) d) (result_extracted r)
      = Inr (map (\<lambda>_. None) (result_extracted r))"
    using assms initial_review_drafts_get by (intro map_res_total field_edit_untouched) auto
  moreover have "List.map_filter id (map (\<lambda>_. None :: review_edit option) xs) = []" for xs :: "review_field list"
    by (induction xs) (simp_all add: List.map_filter_simps)
  ultimately show ?thesis by (simp add: buildReviewEditsForResult_def)
qed

text \<open>
  Submitting the review form untouched sends no edits, when every field holds a value its editor
  could have written and the field names are distinct.
\<close>

theorem untouched_review_sends_no_edits:
  assumes "distinct (map field_name (result_extracted r))"
    and "\<forall>f \<in> set (result_extracted r). canonical_field loc d f"
  shows "buildReviewEditsForResult loc (initial_review_drafts r d) r d = Inr []"
  using assms by (rule untouched_edits)

definition sample_field :: "string \<Rightarrow> string \<Rightarrow> json \<Rightarrow> review_field" where
  "sample_field name type v =
     \<lparr>field_name = name, field_label = name, field_kind = Extracted, data_type = Some type, output_type = None,
      extracted_value = None, normalized_value = Some v, calculated_value = None, confidence_score = None,
      source_text = None, char_start = None, char_end = None, page_number = None, location_reference = None,
      validation_status = ''valid'', validation_errors = [], extraction_notes = None, calculation_notes = None,
      requires_review = False\<rparr>"

definition sample_provider :: provider_settings where
  "sample_provider =
     \<lparr>mode = Local, provider_type = ''mock'', provider_label = None, is_persisted_default = None,
      api_style = Some MockStyle, base_url = None, api_key_env_var = None, api_key_required = None,
      deployment = None, api_version = None, model = ''m'', temperature = Num 0, max_tokens = Num 10,
      supports_json_mode = True, allow_external_processing = False, timeout_seconds = None,
      retry_count = None, chunk_size = None\<rparr>"

definition sample_result :: "review_field list \<Rightarrow> result_payload" where
  "sample_result fs =
     \<lparr>result_document_id = ''1'', result_document_type = ''d'', result_template_name = ''t'',
      result_template_version = ''1'', llm_provider = sample_provider, extraction_status = ''ok'',
      review_status = None, result_extracted = fs, result_calculated = [], fields_requiring_review = [],
      document_level_notes = [], reviewed_at = None\<rparr>"

lemma untouched_review_sends_no_edits_witness:
  "buildReviewEditsForResult (\<lambda>_. ''x'')
     (initial_review_drafts (sample_result [sample_field ''a'' ''Number'' (JObj [(''value'', JNum (Num 5))]),
        sample_field ''b'' ''table'' (JArr [JObj [(''k'', JStr ''v'')]])]) None)
     (sample_result [sample_field ''a'' ''Number'' (JObj [(''value'', JNum (Num 5))]),
        sample_field ''b'' ''table'' (JArr [JObj [(''k'', JStr ''v'')]])]) None = Inr []"
proof (rule untouched_review_sends_no_edits)
  have types: "to_lower ''Number'' = ''number''" "to_lower ''table'' = ''table''" by code_simp+
  show "\<forall>f \<in> set (result_extracted (sample_result [sample_field ''a'' ''Number'' (JObj [(''value'', JNum (Num 5))]),
        sample_field ''b'' ''table'' (JArr [JObj [(''k'', JStr ''v'')]])])). canonical_field (\<lambda>_. ''x'') None f"
    by (simp add: sample_result_def sample_field_def canonical_field_def Let_def getReviewFieldType_def types
        canonical_value_def original_value_def nullish_def STRUCTURED_FIELD_TYPES_def obj_ok_def)
qed (simp add: sample_result_def sample_field_def)

text \<open>
  A currency value whose display text is not the one the form would build, such as the text found
  in the document, is sent as an edit although the user touched nothing.
\<close>

theorem untouched_currency_sends_an_edit:
  assumes "getReviewFieldType f (getFieldDefinition d (field_name f)) = ''currency''"
    and "num_ok a" "is_finite a" "shown \<noteq> c @ '' '' @ loc a"
    and "normalized_value f = Some (JObj [(''amount'', JNum a), (''currency'', JStr c), (''display_value'', JStr shown)])"
  shows "field_edit loc [] d f = Inr (Some
     \<lparr>edit_field = field_name f,
      edit_value = JObj [(''amount'', JNum a), (''currency'', JStr c), (''display_value'', JStr (c @ '' '' @ loc a))],
      edit_reason = ''Updated from extraction workspace''\<rparr>)"
proof -
  let ?v = "\<lambda>s. JObj [(''amount'', JNum a), (''currency'', JStr c), (''display_value'', JStr s)]"
  have orig: "original_value f = ?v shown" using assms(5) by (simp add: original_value_def nullish_def)
  have "a \<noteq> NaN" using assms(3) by auto
  then have parse: "parseReviewDraft loc f (getInitialReviewDraft f (getFieldDefinition d (field_name f)))
      (getFieldDefinition d (field_name f)) = Inr (?v (c @ '' '' @ loc a))"
    using assms(1-3,5) num_to_string_nonempty [of a] string_to_number_to_string [of a] orig
    by (simp add: parseReviewDraft_def getInitialReviewDraft_def Let_def property_def obj_get_def)
  have "index_key ''amount'' = None" "index_key ''currency'' = None" "index_key ''display_value'' = None"
    by (simp_all add: no_index_keys is_digit_def)
  then have ok: "json_ok (?v s)" for s
    using assms(2,3) by (simp add: obj_ok_def key_precedes_def)
  have "stringify (?v (c @ '' '' @ loc a)) \<noteq> stringify (?v shown)"
    using compact.encode_injective [OF ok ok] assms(4) by simp
  with parse orig show ?thesis by (simp add: field_edit_def Let_def obj_get_def)
qed

lemma untouched_currency_sends_an_edit_witness:
  "field_edit (\<lambda>_. ''4,250.00'') [] None (sample_field ''t'' ''currency''
      (JObj [(''amount'', JNum (Num 4250)), (''currency'', JStr ''USD''), (''display_value'', JStr ''$4,250.00'')]))
    = Inr (Some \<lparr>edit_field = field_name (sample_field ''t'' ''currency''
      (JObj [(''amount'', JNum (Num 4250)), (''currency'', JStr ''USD''), (''display_value'', JStr ''$4,250.00'')])),
      edit_value = JObj [(''amount'', JNum (Num 4250)), (''currency'', JStr ''USD''),
        (''display_value'', JStr (''USD'' @ '' '' @ ''4,250.00''))],
      edit_reason = ''Updated from extraction workspace''\<rparr>)"
proof (rule untouched_currency_sends_an_edit)
  have "to_lower ''currency'' = ''currency''" by code_simp
  then show "getReviewFieldType (sample_field ''t'' ''currency'' v) (getFieldDefinition None n) = ''currency''" for v n
    by (simp add: getReviewFieldType_def sample_field_def)
qed (simp_all add: sample_field_def)

section \<open>Progress\<close>

text \<open>The progress bar always gets a whole number from 0 to 100, whatever number the server sends.\<close>

theorem clampProgressPct_bounds: "\<exists>k :: nat. k \<le> 100 \<and> clampProgressPct v = Num (of_nat k)"
proof (cases v)
  case (Some n)
  show ?thesis
  proof (cases n)
    case (Num x)
    define r where "r = \<lfloor>x + 1 / 2\<rfloor>"
    have "num_max (Num 0) (num_min (Num 100) (Num (of_int r))) = Num (of_int (max 0 (min 100 r)))"
      by (auto simp: num_max_def num_min_def max_def min_def)
    with Some Num have "clampProgressPct v = Num (of_nat (nat (max 0 (min 100 r))))"
      by (simp add: clampProgressPct_def num_round_def r_def)
    moreover have "nat (max 0 (min 100 r)) \<le> 100" by linarith
    ultimately show ?thesis by blast
  qed (use Some in \<open>auto simp: clampProgressPct_def num_round_def num_max_def num_min_def
      intro: exI [of _ 0] exI [of _ 100]\<close>)
qed (auto simp: clampProgressPct_def intro: exI [of _ 0])

end
