(* ===== verification/ReviewEditors.thy ===== *)
theory ReviewEditors
  imports ReviewDraft
begin

text \<open>
  The editors of \<open>components/review\<close>: which control a field type gets, the table editor and the
  schema-driven object editor (both parse the draft text, edit, and write it back), the raw JSON
  editor's validation state, and the source panels (highlighted segments, evidence badges).
  The message of a \<open>SyntaxError\<close> is the engine's, a parameter.
\<close>

section \<open>The control of a field type\<close>

datatype editor_control =
    JsonControl
  | StructuredControl
  | TableControl
  | BooleanSelect
  | ChoiceSelect "string list"
  | ParagraphInput
  | NumberInput string
  | DateInput
  | TextInput

definition reviewFieldEditor :: "string \<Rightarrow> template_field option \<Rightarrow> editor_control" where
  "reviewFieldEditor type d =
     (let allowed = coalesce (Option.bind d allowed_values) [] in
      if type = ''json_object'' then JsonControl
      else if type = ''structured_object'' then StructuredControl
      else if type = ''table'' then TableControl
      else if type = ''boolean'' then BooleanSelect
      else if (type = ''category'' \<or> type = ''multi_select'') \<and> allowed \<noteq> [] then ChoiceSelect allowed
      else if type = ''paragraph'' then ParagraphInput
      else if type = ''number'' \<or> type = ''currency'' \<or> type = ''percentage'' then
        NumberInput (if type = ''percentage'' then ''0.01'' else ''any'')
      else if type = ''date'' then DateInput
      else TextInput)"

text \<open>The values the control itself can produce.\<close>

definition control_options :: "editor_control \<Rightarrow> string list option" where
  "control_options c =
     (case c of
        BooleanSelect \<Rightarrow> Some ['''', ''true'', ''false'']
      | ChoiceSelect vs \<Rightarrow> Some ('''' # vs)
      | _ \<Rightarrow> None)"

section \<open>The table editor\<close>

type_synonym table_row = "string obj"

text \<open>\<open>String(value ?? "")\<close>\<close>

definition cell_text :: "json \<Rightarrow> string" where
  "cell_text v = (if v = JNull then '''' else json_to_string v)"

definition table_row_of :: "nat \<Rightarrow> json \<Rightarrow> table_row result" where
  "table_row_of i entry =
     (case entry of
        JObj ps \<Rightarrow> Inr (from_entries (map (\<lambda>(k, v). (k, cell_text v)) ps))
      | _ \<Rightarrow> Inl (''Row '' @ nat_digits (Suc i) @ '' must be an object.''))"

definition parseTableDraft :: "(string \<Rightarrow> string) \<Rightarrow> string \<Rightarrow> table_row list \<times> string option" where
  "parseTableDraft syntax_error raw =
     (let trimmed = trim raw in
      if trimmed = [] then ([], None)
      else case json_parse trimmed of
        None \<Rightarrow> ([], Some (syntax_error trimmed))
      | Some (JArr entries) \<Rightarrow>
          (case map_res table_row_of entries of
             Inl message \<Rightarrow> ([], Some message)
           | Inr rows \<Rightarrow> (rows, None))
      | Some _ \<Rightarrow> ([], Some ''Table value must be a JSON array of row objects.''))"

definition row_json :: "table_row \<Rightarrow> json" where
  "row_json row = JObj (map (\<lambda>(k, v). (k, JStr v)) row)"

definition serializeTableRows :: "table_row list \<Rightarrow> string" where
  "serializeTableRows rows = formatStructuredDraftValue (JArr (map row_json rows))"

definition table_columns :: "table_row list \<Rightarrow> string list" where
  "table_columns rows = js_set (concat (map obj_keys rows))"

text \<open>The next draft text each action passes to \<open>onChange\<close>.\<close>

definition update_cell_rows :: "nat \<Rightarrow> string \<Rightarrow> string \<Rightarrow> table_row list \<Rightarrow> table_row list" where
  "update_cell_rows i column v rows =
     map (\<lambda>(j, row). if j = i then obj_put column v row else row) (enumerate 0 rows)"

definition updateCell :: "nat \<Rightarrow> string \<Rightarrow> string \<Rightarrow> table_row list \<Rightarrow> string" where
  "updateCell i column v rows = serializeTableRows (update_cell_rows i column v rows)"

definition add_row_rows :: "table_row list \<Rightarrow> table_row list" where
  "add_row_rows rows = rows @ [from_entries (map (\<lambda>c. (c, '''')) (table_columns rows))]"

definition addRow :: "table_row list \<Rightarrow> string" where
  "addRow rows = serializeTableRows (add_row_rows rows)"

definition new_column_name :: "table_row list \<Rightarrow> string" where
  "new_column_name rows = ''column_'' @ nat_digits (length (table_columns rows) + 1)"

definition add_column_rows :: "table_row list \<Rightarrow> table_row list" where
  "add_column_rows rows =
     (if rows \<noteq> [] then map (obj_put (new_column_name rows) '''') rows else [[(new_column_name rows, '''')]])"

definition addColumn :: "table_row list \<Rightarrow> string" where
  "addColumn rows = serializeTableRows (add_column_rows rows)"

section \<open>The schema-driven object editor\<close>

text \<open>\<open>Object.entries\<close> of any value; \<open>None\<close> is the TypeError on \<open>null\<close>.\<close>

definition object_entries :: "json \<Rightarrow> (string \<times> json) list option" where
  "object_entries v =
     (case v of
        JObj ps \<Rightarrow> Some ps
      | JArr vs \<Rightarrow> Some (map (\<lambda>(i, x). (nat_digits i, x)) (enumerate 0 vs))
      | JStr s \<Rightarrow> Some (map (\<lambda>(i, c). (nat_digits i, JStr [c])) (enumerate 0 s))
      | JNull \<Rightarrow> None
      | _ \<Rightarrow> Some [])"

definition schemaProperties :: "template_field option \<Rightarrow> json obj" where
  "schemaProperties d =
     (case or_else (Option.bind d schema) (Option.bind d field_schema) of
        None \<Rightarrow> []
      | Some s \<Rightarrow>
          (case obj_get s ''properties'' of
             Some (JObj ps) \<Rightarrow> ps
           | Some (JArr vs) \<Rightarrow> coalesce (object_entries (JArr vs)) []
           | _ \<Rightarrow> []))"

definition parseObjectDraft :: "string \<Rightarrow> string obj option" where
  "parseObjectDraft raw =
     (let trimmed = trim raw in
      if trimmed = [] then Some []
      else map_option (\<lambda>ps. from_entries (map (\<lambda>(k, v). (k, cell_text v)) ps))
        (Option.bind (json_parse trimmed) object_entries))"

definition object_editor_error :: "string \<Rightarrow> string option" where
  "object_editor_error raw =
     (if parseObjectDraft raw = None then Some ''Enter valid JSON for this structured field.'' else None)"

definition coerceValue :: "json obj \<Rightarrow> string \<Rightarrow> string \<Rightarrow> json" where
  "coerceValue properties name next =
     (let type = Option.bind (obj_get properties name) (\<lambda>p. property p ''type'') in
      if type = Some (JStr ''boolean'') then
        (if next = ''true'' then JBool True else if next = ''false'' then JBool False else JStr next)
      else if type = Some (JStr ''number'') \<or> type = Some (JStr ''integer'') then
        (let parsed = string_to_number next in if parsed = NaN then JStr next else JNum parsed)
      else JStr next)"

definition update_value_object :: "json obj \<Rightarrow> string obj \<Rightarrow> string \<Rightarrow> string \<Rightarrow> json obj" where
  "update_value_object properties vals key next =
     from_entries (map (\<lambda>name. (name,
        if name = key then coerceValue properties name next
        else coerceValue properties name (coalesce (obj_get vals name) '''')))
       (obj_keys properties))"

definition updateValue :: "json obj \<Rightarrow> string \<Rightarrow> string \<Rightarrow> string \<Rightarrow> string" where
  "updateValue properties raw key next =
     stringify_indented (JObj (update_value_object properties (coalesce (parseObjectDraft raw) []) key next))"

section \<open>The raw JSON editor\<close>

text \<open>Its state is the error shown; a change re-validates only while one is shown.\<close>

definition json_editor_initial :: "string \<Rightarrow> string option" where
  "json_editor_initial draft = validateJsonDraft draft"

definition json_editor_blur :: "string \<Rightarrow> string option \<Rightarrow> string option" where
  "json_editor_blur draft error = validateJsonDraft draft"

definition json_editor_change :: "string \<Rightarrow> string option \<Rightarrow> string option" where
  "json_editor_change next error =
     (if error \<noteq> None \<and> error \<noteq> Some '''' then validateJsonDraft next else error)"

section \<open>Source panels\<close>

text \<open>\<open>text.slice(a, b)\<close>: indices are truncated, count from the end when negative, and are clamped.\<close>

definition slice_index :: "nat \<Rightarrow> jsnum \<Rightarrow> nat" where
  "slice_index len n =
     (case n of
        NaN \<Rightarrow> 0
      | Infinity \<Rightarrow> len
      | NegInfinity \<Rightarrow> 0
      | Num x \<Rightarrow>
          (let i = (if x < 0 then \<lceil>x\<rceil> else \<lfloor>x\<rfloor>) in
           if i < 0 then nat (int len + i) else min len (nat i)))"

definition js_slice :: "string \<Rightarrow> jsnum \<Rightarrow> jsnum \<Rightarrow> string" where
  "js_slice s a b = drop (slice_index (length s) a) (take (slice_index (length s) b) s)"

record text_segment =
  segment_text :: string
  highlighted :: bool

definition text_segments :: "string \<Rightarrow> jsnum option \<Rightarrow> jsnum option \<Rightarrow> text_segment list" where
  "text_segments text start stop =
     (case (start, stop) of
        (Some s, Some e) \<Rightarrow>
          if text = [] \<or> num_less s (Num 0) \<or> num_ge s e \<or> num_less (num_of_nat (length text)) e
          then [\<lparr>segment_text = text, highlighted = False\<rparr>]
          else filter (\<lambda>g. length (segment_text g) > 0)
            [\<lparr>segment_text = js_slice text (Num 0) s, highlighted = False\<rparr>,
             \<lparr>segment_text = js_slice text s e, highlighted = True\<rparr>,
             \<lparr>segment_text = js_slice text e (num_of_nat (length text)), highlighted = False\<rparr>]
      | _ \<Rightarrow> [\<lparr>segment_text = text, highlighted = False\<rparr>])"

definition formatConfidence :: "jsnum option \<Rightarrow> string" where
  "formatConfidence score =
     (case score of None \<Rightarrow> em_dash | Some s \<Rightarrow> num_to_string (num_round (num_mul s (Num 100))) @ ''%'')"

definition formatCharInterval :: "jsnum option \<Rightarrow> jsnum option \<Rightarrow> string" where
  "formatCharInterval start stop =
     (case (start, stop) of
        (Some s, Some e) \<Rightarrow> ''Chars '' @ num_to_string s @ ''-'' @ num_to_string e
      | _ \<Rightarrow> ''Chars '' @ em_dash)"

definition source_evidence_snippet :: "review_field \<Rightarrow> string option" where
  "source_evidence_snippet f =
     (let s = trim (coalesce (source_text f) '''') in if s = [] then None else Some s)"

definition source_evidence_badges :: "review_field \<Rightarrow> string list" where
  "source_evidence_badges f =
     [case page_number f of
        Some n \<Rightarrow> if num_truthy n then ''Page '' @ num_to_string n else ''Page '' @ em_dash
      | None \<Rightarrow> ''Page '' @ em_dash,
      str_or (location_reference f) ''Unknown location'',
      formatCharInterval (char_start f) (char_end f),
      ''Confidence '' @ formatConfidence (confidence_score f)]"

section \<open>Tables survive being written and read\<close>

lemma map_pair_obj_keys [simp]: "obj_keys (map (\<lambda>(k, v). (k, f v)) ps) = obj_keys ps"
  by (simp add: obj_keys_def comp_def case_prod_unfold)

lemma row_json_ok: "obj_ok row \<Longrightarrow> json_ok (row_json row)"
  by (auto simp: row_json_def members_ok_iff obj_ok_def)

lemma table_row_of_json: "obj_ok row \<Longrightarrow> table_row_of i (row_json row) = Inr row"
proof -
  assume "obj_ok row"
  moreover have "map (\<lambda>(k, v). (k, cell_text v)) (map (\<lambda>(k, v). (k, JStr v)) row) = row"
    by (auto simp: cell_text_def intro: map_idI)
  ultimately show ?thesis by (simp add: table_row_of_def row_json_def from_entries_id)
qed

lemma table_json_ok: "list_all obj_ok rows \<Longrightarrow> json_ok (JArr (map row_json rows))"
  by (auto simp: jsons_ok_iff list_all_iff row_json_ok)

lemma table_reads_back:
  assumes "list_all obj_ok rows"
  shows "parseTableDraft syntax_error (serializeTableRows rows) = (rows, None)"
proof -
  have "map_res table_row_of (map row_json rows) = Inr (map (\<lambda>r. r) rows)"
    unfolding map_res_from_map
    by (rule map_res_total) (use assms in \<open>auto simp: list_all_iff table_row_of_json\<close>)
  with stringify_not_Nil [OF table_json_ok [OF assms]] indented.decode_encode [OF table_json_ok [OF assms]]
  show ?thesis by (simp add: parseTableDraft_def serializeTableRows_def formatStructuredDraftValue_def)
qed

text \<open>A table written by the editor is read back as the same rows, without an error.\<close>

theorem table_round_trip:
  assumes "list_all obj_ok rows"
  shows "parseTableDraft syntax_error (serializeTableRows rows) = (rows, None)"
  using assms by (rule table_reads_back)

lemma table_round_trip_witness:
  "parseTableDraft id (serializeTableRows [[(''sku'', ''A1''), (''qty'', ''2'')], []])
     = ([[(''sku'', ''A1''), (''qty'', ''2'')], []], None)"
proof (rule table_round_trip)
  have "index_key ''sku'' = None" "index_key ''qty'' = None" by (simp_all add: no_index_keys is_digit_def)
  then show "list_all obj_ok [[(''sku'', ''A1''), (''qty'', ''2'')], []]"
    by (simp add: obj_ok_def key_precedes_def)
qed

lemma table_row_of_ok: "table_row_of i v = Inr row \<Longrightarrow> obj_ok row"
  by (cases v) (auto simp: table_row_of_def obj_ok_from_entries)

lemma parsed_rows_ok:
  assumes "parseTableDraft se raw = (rows, err)"
  shows "list_all obj_ok rows"
proof (cases "trim raw = []")
  case False
  show ?thesis
  proof (cases "\<exists>vs rs. json_parse (trim raw) = Some (JArr vs) \<and> map_res table_row_of vs = Inr rs")
    case True
    then obtain vs rs where "json_parse (trim raw) = Some (JArr vs)" "map_res table_row_of vs = Inr rs" by blast
    with assms False have rows: "map_res table_row_of vs = Inr rows" by (simp add: parseTableDraft_def)
    show ?thesis unfolding list_all_iff
    proof
      fix row assume "row \<in> set rows"
      from map_res_set [OF rows this] show "obj_ok row" by (elim exE conjE) (rule table_row_of_ok)
    qed
  next
    case other: False
    then have "rows = []"
    proof (cases "json_parse (trim raw)")
      case (Some v)
      with assms False other show ?thesis
        by (cases v; cases "map_res table_row_of (case v of JArr vs \<Rightarrow> vs)") (auto simp: parseTableDraft_def)
    qed (use assms False in \<open>simp add: parseTableDraft_def\<close>)
    then show ?thesis by simp
  qed
qed (use assms in \<open>simp add: parseTableDraft_def\<close>)

definition cell :: "table_row list \<Rightarrow> nat \<Rightarrow> string \<Rightarrow> string option" where
  "cell rows i column = (if i < length rows then obj_get (rows ! i) column else None)"

lemma length_update_cell_rows [simp]: "length (update_cell_rows i c v rows) = length rows"
  by (simp add: update_cell_rows_def)

lemma nth_update_cell_rows:
  "j < length rows \<Longrightarrow> update_cell_rows i c v rows ! j = (if j = i then obj_put c v (rows ! j) else rows ! j)"
  by (simp add: update_cell_rows_def nth_enumerate_eq)

text \<open>
  Editing a cell of any draft text the editor can read changes that cell only: after the text is
  read back, the edited cell holds the new value and every other cell what it held before.
\<close>

theorem updateCell_changes_one_cell:
  assumes "parseTableDraft se raw = (rows, None)" "i < length rows"
  shows "\<exists>rows'. parseTableDraft se (updateCell i column v rows) = (rows', None) \<and> length rows' = length rows \<and>
     (\<forall>j c. cell rows' j c = (if j = i \<and> c = column then Some v else cell rows j c))"
proof -
  have ok: "list_all obj_ok rows" using parsed_rows_ok assms(1) by blast
  then have "list_all obj_ok (update_cell_rows i column v rows)"
    by (auto simp: list_all_length nth_update_cell_rows obj_ok_put)
  then have "parseTableDraft se (updateCell i column v rows) = (update_cell_rows i column v rows, None)"
    unfolding updateCell_def by (rule table_reads_back)
  moreover have "cell (update_cell_rows i column v rows) j c = (if j = i \<and> c = column then Some v else cell rows j c)" for j c
    using assms(2) by (auto simp: cell_def nth_update_cell_rows get_obj_put)
  ultimately show ?thesis by auto
qed

lemma updateCell_changes_one_cell_witness:
  "\<exists>rows'. parseTableDraft id (updateCell 0 ''a'' ''9'' [[(''a'', ''1'')]]) = (rows', None) \<and>
     length rows' = length [[(''a'', ''1'')]] \<and>
     (\<forall>j c. cell rows' j c = (if j = 0 \<and> c = ''a'' then Some ''9'' else cell [[(''a'', ''1'')]] j c))"
proof (rule updateCell_changes_one_cell)
  show "parseTableDraft id ''[{\"a\": 1}]'' = ([[(''a'', ''1'')]], None)" by code_simp
qed simp

text \<open>
  Adding a column gives every row that column, empty, and keeps every cell of every other column;
  so when the generated name is taken already, the cells of that column are emptied.
\<close>

theorem addColumn_effect:
  assumes "parseTableDraft se raw = (rows, None)" "rows \<noteq> []"
  shows "\<exists>rows'. parseTableDraft se (addColumn rows) = (rows', None) \<and> length rows' = length rows \<and>
     (\<forall>j < length rows. \<forall>c. cell rows' j c = (if c = new_column_name rows then Some '''' else cell rows j c))"
proof -
  have "list_all obj_ok rows" using parsed_rows_ok assms(1) by blast
  then have "list_all obj_ok (add_column_rows rows)"
    using assms(2) by (auto simp: list_all_iff add_column_rows_def obj_ok_put)
  then have "parseTableDraft se (addColumn rows) = (add_column_rows rows, None)"
    unfolding addColumn_def by (rule table_reads_back)
  with assms(2) show ?thesis by (auto simp: add_column_rows_def cell_def get_obj_put)
qed

lemma addColumn_effect_witness:
  "\<exists>rows'. parseTableDraft id (addColumn [[(''column_2'', ''x'')]]) = (rows', None) \<and>
     length rows' = length [[(''column_2'', ''x'')]] \<and>
     (\<forall>j < length [[(''column_2'', ''x'')]]. \<forall>c. cell rows' j c
        = (if c = new_column_name [[(''column_2'', ''x'')]] then Some '''' else cell [[(''column_2'', ''x'')]] j c))"
proof (rule addColumn_effect)
  show "parseTableDraft id ''[{\"column_2\": \"x\"}]'' = ([[(''column_2'', ''x'')]], None)" by code_simp
qed simp

text \<open>The collision is real: with the one column \<open>column_2\<close>, adding a column empties it.\<close>

theorem addColumn_can_erase_a_column:
  "add_column_rows [[(''column_2'', ''kept?'')]] = [[(''column_2'', '''')]]"
  by code_simp

section \<open>The object editor\<close>

lemma blank_is_zero: "string_to_number '''' = Num 0"
  by code_simp

text \<open>
  Editing one property of a structured field writes a value for every property of the schema and
  drops every other key; a numeric property that had no value becomes zero.
\<close>

theorem update_value_object_effect:
  assumes "distinct (obj_keys properties)"
  shows "set (obj_keys (update_value_object properties vals key next)) = set (obj_keys properties)
   \<and> (key \<in> set (obj_keys properties) \<longrightarrow>
        obj_get (update_value_object properties vals key next) key = Some (coerceValue properties key next))
   \<and> (\<forall>name \<in> set (obj_keys properties). name \<noteq> key \<longrightarrow> obj_get vals name = None \<longrightarrow>
        Option.bind (obj_get properties name) (\<lambda>p. property p ''type'') = Some (JStr ''number'') \<longrightarrow>
        obj_get (update_value_object properties vals key next) name = Some (JNum (Num 0)))"
proof -
  let ?f = "\<lambda>name. if name = key then coerceValue properties name next
        else coerceValue properties name (coalesce (obj_get vals name) '''')"
  let ?es = "map (\<lambda>name. (name, ?f name)) (obj_keys properties)"
  have "distinct (map fst (rev ?es))" using assms by (simp add: comp_def rev_map [symmetric])
  then have get: "obj_get (from_entries ?es) name = Some (?f name)" if "name \<in> set (obj_keys properties)" for name
    using that unfolding get_from_entries by (intro map_of_is_SomeI) auto
  have keys: "set (obj_keys (from_entries ?es)) = set (obj_keys properties)"
    by (simp only: set_keys_from_entries) (simp add: obj_keys_def comp_def)
  have zero: "coerceValue properties name '''' = JNum (Num 0)"
    if "Option.bind (obj_get properties name) (\<lambda>p. property p ''type'') = Some (JStr ''number'')" for name
    using that by (simp add: coerceValue_def blank_is_zero)
  show ?thesis unfolding update_value_object_def using keys get zero by auto
qed

definition sample_properties :: "json obj" where
  "sample_properties = [(''n'', JObj [(''type'', JStr ''number'')]), (''s'', JObj [])]"

lemma update_value_object_effect_witness:
  "set (obj_keys (update_value_object sample_properties [(''x'', ''lost'')] ''s'' ''new'')) = {''n'', ''s''}
   \<and> obj_get (update_value_object sample_properties [(''x'', ''lost'')] ''s'' ''new'') ''s''
       = Some (coerceValue sample_properties ''s'' ''new'')
   \<and> obj_get (update_value_object sample_properties [(''x'', ''lost'')] ''s'' ''new'') ''n'' = Some (JNum (Num 0))"
proof -
  have "distinct (obj_keys sample_properties)" by (simp add: sample_properties_def obj_keys_def)
  from update_value_object_effect [OF this, of "[(''x'', ''lost'')]" "''s''" "''new''"] show ?thesis
    by (simp add: sample_properties_def obj_keys_def obj_get_def property_def)
qed

section \<open>The raw JSON editor\<close>

text \<open>
  Leaving the JSON editor shows an error exactly when the text is not blank and not JSON, and an
  error that is shown disappears with the first change that makes the text valid.
\<close>

theorem json_editor_error:
  "(json_editor_blur draft err = None) = (trim draft = [] \<or> json_parse (trim draft) \<noteq> None)
   \<and> json_editor_change draft (Some ''Enter valid JSON.'') = json_editor_blur draft err"
  by (auto simp: json_editor_blur_def json_editor_change_def validateJsonDraft_def split: option.split)

section \<open>Segments\<close>

lemma slice_index_le: "slice_index len n \<le> len"
proof (cases n)
  case (Num x)
  then show ?thesis
    by (cases "x < 0") (simp_all add: slice_index_def Let_def, linarith)
qed (simp_all add: slice_index_def)

lemma slice_index_mono:
  assumes "0 \<le> x" "x \<le> y"
  shows "slice_index len (Num x) \<le> slice_index len (Num y)"
proof -
  have "\<lfloor>x\<rfloor> \<le> \<lfloor>y\<rfloor>" using assms(2) by (rule floor_mono)
  moreover have "0 \<le> \<lfloor>x\<rfloor>" using assms(1) by simp
  ultimately show ?thesis using assms by (auto simp: slice_index_def Let_def)
qed

lemma concat_nonempty_segments:
  "concat (map segment_text (filter (\<lambda>g. length (segment_text g) > 0) gs)) = concat (map segment_text gs)"
  by (induction gs) auto

text \<open>
  The segments of the parsed text always spell the whole text, in order, for any finite citation
  range; at most one is highlighted, and it is the citation's slice.
\<close>

theorem text_segments_spell_text:
  assumes "\<forall>n \<in> set_option start \<union> set_option stop. is_finite n"
  shows "concat (map segment_text (text_segments text start stop)) = text
   \<and> (\<forall>g \<in> set (text_segments text start stop). highlighted g \<longrightarrow>
        (\<exists>s e. start = Some s \<and> stop = Some e \<and> segment_text g = js_slice text s e \<and> num_less s e))"
proof (cases "start = None \<or> stop = None")
  case True
  then show ?thesis by (auto simp: text_segments_def split: option.split)
next
  case False
  with assms obtain x y where xy: "start = Some (Num x)" "stop = Some (Num y)"
    by (auto simp: is_finite.simps elim!: is_finite.elims(2))
  show ?thesis
  proof (cases "text = [] \<or> num_less (Num x) (Num 0) \<or> num_ge (Num x) (Num y) \<or> num_less (num_of_nat (length text)) (Num y)")
    case True
    with xy show ?thesis by (auto simp: text_segments_def)
  next
    case ok: False
    let ?n = "length text"
    let ?i = "slice_index ?n (Num x)" and ?j = "slice_index ?n (Num y)"
    from ok have "0 \<le> x" "x < y" by (auto simp: num_ge_def)
    then have ij: "?i \<le> ?j" by (intro slice_index_mono) simp_all
    have ends: "slice_index ?n (Num 0) = 0" "slice_index ?n (num_of_nat ?n) = ?n"
      by (simp_all add: slice_index_def)
    have "take ?i text @ drop ?i (take ?j text) @ drop ?j text = text"
      using ij by (metis append_assoc append_take_drop_id min.absorb1 take_take)
    then show ?thesis
      using ok xy \<open>x < y\<close>
      by (auto simp: text_segments_def concat_nonempty_segments js_slice_def ends simp del: slice_index_le)
  qed
qed

lemma text_segments_spell_text_witness:
  "concat (map segment_text (text_segments ''abcdef'' (Some (Num 2)) (Some (Num 4)))) = ''abcdef''"
  by (rule text_segments_spell_text [THEN conjunct1]) simp

end
