(* ===== verification/ProviderDraft.thy ===== *)
theory ProviderDraft
  imports ReviewEditors
begin

text \<open>
  The custom provider form: its persistence in \<open>localStorage\<close> (\<open>lib/custom-provider-draft-storage.ts\<close>),
  its validation and conversion from and to provider settings (\<open>App.tsx\<close>), the staleness of a saved
  profile's probe, and the mock-provider warning (\<open>lib/mock-provider.ts\<close>). The clock and the parsing of
  dates are parameters.
\<close>

section \<open>Local storage\<close>

type_synonym storage = "(string \<times> string) list"

definition getItem :: "storage \<Rightarrow> string \<Rightarrow> string option" where
  "getItem st k = map_of st k"

definition setItem :: "string \<Rightarrow> string \<Rightarrow> storage \<Rightarrow> storage" where
  "setItem k v st = AList.update k v st"

definition removeItem :: "string \<Rightarrow> storage \<Rightarrow> storage" where
  "removeItem k st = AList.delete k st"

text \<open>A value kept under one key of a store through a codec.\<close>

locale persisted_slot = codec encode decode valid
    for encode :: "'a \<Rightarrow> string" and decode :: "string \<Rightarrow> 'a option" and valid :: "'a \<Rightarrow> bool" +
  fixes get :: "'s \<Rightarrow> string \<Rightarrow> string option"
    and put :: "string \<Rightarrow> string \<Rightarrow> 's \<Rightarrow> 's"
    and remove :: "string \<Rightarrow> 's \<Rightarrow> 's"
    and slot :: string
  assumes get_put: "get (put k v s) l = (if l = k then Some v else get s l)"
    and get_remove: "get (remove k s) l = (if l = k then None else get s l)"
begin

lemma stored_decodes: "valid x \<Longrightarrow> Option.bind (get (put slot (encode x) s) slot) decode = Some x"
  by (simp add: get_put decode_encode)

lemma removed_is_gone: "Option.bind (get (remove slot s) slot) decode = None"
  by (simp add: get_remove)

lemma others_untouched: "l \<noteq> slot \<Longrightarrow> get (put slot (encode x) s) l = get s l \<and> get (remove slot s) l = get s l"
  by (simp add: get_put get_remove)

end

section \<open>The persisted custom provider draft\<close>

definition CUSTOM_PROVIDER_DRAFT_STORAGE_KEY :: string where
  "CUSTOM_PROVIDER_DRAFT_STORAGE_KEY = ''custom-provider-draft''"

definition toPersistedCustomProviderDraft :: "custom_draft \<Rightarrow> persisted_draft" where
  "toPersistedCustomProviderDraft d =
     \<lparr>cd_label = cd_label d, cd_mode = cd_mode d, cd_api_style = cd_api_style d,
      cd_provider_type = cd_provider_type d, cd_base_url = cd_base_url d, cd_model = cd_model d,
      cd_deployment = cd_deployment d, cd_api_version = cd_api_version d,
      cd_allow_external_processing = cd_allow_external_processing d,
      cd_supports_json_mode = cd_supports_json_mode d, cd_temperature = cd_temperature d,
      cd_max_tokens = cd_max_tokens d, cd_timeout_seconds = cd_timeout_seconds d,
      cd_retry_count = cd_retry_count d, cd_chunk_size = cd_chunk_size d\<rparr>"

definition custom_style_name :: "custom_api_style \<Rightarrow> string" where
  "custom_style_name s = api_style_name (custom_style s)"

text \<open>The draft as a JavaScript object.\<close>

definition persisted_object :: "('a) persisted_draft_scheme \<Rightarrow> json obj" where
  "persisted_object d =
     [(''label'', JStr (cd_label d)), (''mode'', JStr (mode_name (cd_mode d))),
      (''api_style'', JStr (custom_style_name (cd_api_style d))),
      (''provider_type'', JStr (cd_provider_type d)), (''base_url'', JStr (cd_base_url d)),
      (''model'', JStr (cd_model d)), (''deployment'', JStr (cd_deployment d)),
      (''api_version'', JStr (cd_api_version d)),
      (''allow_external_processing'', JBool (cd_allow_external_processing d)),
      (''supports_json_mode'', JBool (cd_supports_json_mode d)),
      (''temperature'', JStr (cd_temperature d)), (''max_tokens'', JStr (cd_max_tokens d)),
      (''timeout_seconds'', JStr (cd_timeout_seconds d)), (''retry_count'', JStr (cd_retry_count d)),
      (''chunk_size'', JStr (cd_chunk_size d))]"

definition draft_object :: "custom_draft \<Rightarrow> json obj" where
  "draft_object d = persisted_object d @ [(''api_key_env_var'', JStr (cd_api_key_env_var d))]"

text \<open>The typed view of such an object: \<open>None\<close> when a field is missing or of another type.\<close>

definition string_field :: "json obj \<Rightarrow> string \<Rightarrow> string option" where
  "string_field ps k = (case obj_get ps k of Some (JStr s) \<Rightarrow> Some s | _ \<Rightarrow> None)"

definition bool_field :: "json obj \<Rightarrow> string \<Rightarrow> bool option" where
  "bool_field ps k = (case obj_get ps k of Some (JBool b) \<Rightarrow> Some b | _ \<Rightarrow> None)"

definition mode_field :: "json obj \<Rightarrow> provider_mode option" where
  "mode_field ps = Option.bind (string_field ps ''mode'')
     (\<lambda>s. if s = ''local'' then Some Local else if s = ''cloud'' then Some Cloud else None)"

definition style_field :: "json obj \<Rightarrow> custom_api_style option" where
  "style_field ps = Option.bind (string_field ps ''api_style'')
     (\<lambda>s. if s = ''openai_compatible'' then Some CustomOpenaiCompatible
          else if s = ''azure_openai'' then Some CustomAzureOpenai else None)"

definition draft_of_object :: "json obj \<Rightarrow> custom_draft option" where
  "draft_of_object ps =
     (case (mode_field ps, style_field ps, bool_field ps ''allow_external_processing'',
            bool_field ps ''supports_json_mode'',
            those (map (string_field ps) [''label'', ''provider_type'', ''base_url'', ''model'', ''deployment'',
              ''api_version'', ''temperature'', ''max_tokens'', ''timeout_seconds'', ''retry_count'',
              ''chunk_size'', ''api_key_env_var''])) of
        (Some m, Some st, Some ext, Some js, Some [l, p, u, mo, de, v, te, mt, ts, rc, cs, key]) \<Rightarrow>
          Some \<lparr>cd_label = l, cd_mode = m, cd_api_style = st, cd_provider_type = p, cd_base_url = u,
                cd_model = mo, cd_deployment = de, cd_api_version = v, cd_allow_external_processing = ext,
                cd_supports_json_mode = js, cd_temperature = te, cd_max_tokens = mt,
                cd_timeout_seconds = ts, cd_retry_count = rc, cd_chunk_size = cs, cd_api_key_env_var = key\<rparr>
      | _ \<Rightarrow> None)"

text \<open>
  Reading: the object that is returned and the storage afterwards; \<open>None\<close> is a browser without storage.
\<close>

definition readPersistedCustomProviderDraft :: "storage option \<Rightarrow> custom_draft \<Rightarrow> json obj \<times> storage option" where
  "readPersistedCustomProviderDraft storage fallback =
     (case storage of
        None \<Rightarrow> (draft_object fallback, None)
      | Some st \<Rightarrow>
          (case getItem st CUSTOM_PROVIDER_DRAFT_STORAGE_KEY of
             None \<Rightarrow> (draft_object fallback, Some st)
           | Some saved \<Rightarrow>
               if saved = [] then (draft_object fallback, Some st)
               else (case json_parse saved of
                  None \<Rightarrow> (draft_object fallback, Some (removeItem CUSTOM_PROVIDER_DRAFT_STORAGE_KEY st))
                | Some parsed \<Rightarrow>
                    (obj_put ''api_key_env_var'' (JStr (cd_api_key_env_var fallback))
                       (obj_spread (draft_object fallback) (coalesce (object_entries parsed) [])),
                     Some st))))"

definition writePersistedCustomProviderDraft :: "custom_draft \<Rightarrow> storage option \<Rightarrow> storage option" where
  "writePersistedCustomProviderDraft d storage =
     map_option (setItem CUSTOM_PROVIDER_DRAFT_STORAGE_KEY
       (stringify (JObj (persisted_object (toPersistedCustomProviderDraft d))))) storage"

definition DEFAULT_CUSTOM_PROVIDER_DRAFT :: custom_draft where
  "DEFAULT_CUSTOM_PROVIDER_DRAFT =
     \<lparr>cd_label = ''Private Gateway'', cd_mode = Local, cd_api_style = CustomOpenaiCompatible,
      cd_provider_type = ''private_gateway'', cd_base_url = ''http://localhost:8001/v1'',
      cd_model = ''document-extractor-default'', cd_deployment = '''', cd_api_version = ''2024-10-21'',
      cd_allow_external_processing = False, cd_supports_json_mode = True, cd_temperature = ''0.1'',
      cd_max_tokens = ''6000'', cd_timeout_seconds = ''120'', cd_retry_count = ''2'', cd_chunk_size = ''16000'',
      cd_api_key_env_var = ''''\<rparr>"

definition loadSavedCustomProviderDraft :: "storage option \<Rightarrow> json obj \<times> storage option" where
  "loadSavedCustomProviderDraft storage = readPersistedCustomProviderDraft storage DEFAULT_CUSTOM_PROVIDER_DRAFT"

section \<open>Settings from the form and back\<close>

definition buildProviderPayload :: "catalog_entry \<Rightarrow> provider_settings" where
  "buildProviderPayload e = entry_settings e"

definition blank_to_null :: "string \<Rightarrow> string option" where
  "blank_to_null s = (if s = [] then None else Some s)"

text \<open>\<open>Number(s) || d\<close>\<close>

definition number_or :: "string \<Rightarrow> jsnum \<Rightarrow> jsnum" where
  "number_or s d = (if num_truthy (string_to_number s) then string_to_number s else d)"

definition buildCustomProviderSettings :: "custom_draft \<Rightarrow> provider_settings" where
  "buildCustomProviderSettings input =
     (let isAzure = (cd_api_style input = CustomAzureOpenai);
          trimmedBaseUrl = trim (cd_base_url input);
          trimmedApiKeyEnvVar = trim (cd_api_key_env_var input);
          trimmedDeployment = trim (cd_deployment input);
          trimmedApiVersion = trim (cd_api_version input)
      in \<lparr>mode = cd_mode input,
          provider_type = trim (cd_provider_type input),
          provider_label = Some (trim (cd_label input)),
          is_persisted_default = None,
          api_style = Some (custom_style (cd_api_style input)),
          base_url = blank_to_null trimmedBaseUrl,
          api_key_env_var = blank_to_null trimmedApiKeyEnvVar,
          api_key_required = Some (cd_mode input = Cloud \<or> trimmedApiKeyEnvVar \<noteq> []),
          deployment = (if isAzure then blank_to_null trimmedDeployment else None),
          api_version = (if isAzure then blank_to_null trimmedApiVersion else None),
          model = trim (cd_model input),
          temperature = number_or (cd_temperature input) (to_double (1 / 10)),
          max_tokens = number_or (cd_max_tokens input) (Num 6000),
          supports_json_mode = cd_supports_json_mode input,
          allow_external_processing = cd_allow_external_processing input,
          timeout_seconds = Some (number_or (cd_timeout_seconds input) (Num 120)),
          retry_count = Some (number_or (cd_retry_count input) (Num 2)),
          chunk_size = Some (number_or (cd_chunk_size input) (Num 16000))\<rparr>)"

definition validateCustomProviderDraft :: "custom_draft \<Rightarrow> string option" where
  "validateCustomProviderDraft input =
     (if trim (cd_label input) = [] then Some ''Custom provider label is required.''
      else if trim (cd_provider_type input) = [] then Some ''Custom provider type is required.''
      else if trim (cd_base_url input) = [] then Some ''Custom provider base URL is required.''
      else if trim (cd_model input) = [] then Some ''Custom provider model is required.''
      else if cd_api_style input = CustomAzureOpenai \<and> trim (cd_deployment input) = [] then
        Some ''Azure deployment is required.''
      else if cd_api_style input = CustomAzureOpenai \<and> trim (cd_api_version input) = [] then
        Some ''Azure API version is required.''
      else if \<not> is_finite (string_to_number (cd_temperature input)) then Some ''Temperature must be numeric.''
      else if \<not> is_finite (string_to_number (cd_max_tokens input)) then Some ''Max tokens must be numeric.''
      else if \<not> is_finite (string_to_number (cd_timeout_seconds input)) then Some ''Timeout seconds must be numeric.''
      else if \<not> is_finite (string_to_number (cd_retry_count input)) then Some ''Retry count must be numeric.''
      else if \<not> is_finite (string_to_number (cd_chunk_size input)) then Some ''Chunk size must be numeric.''
      else None)"

definition buildCustomProviderDraftFromSettings :: "provider_settings \<Rightarrow> custom_draft" where
  "buildCustomProviderDraftFromSettings s =
     \<lparr>cd_label = coalesce (provider_label s) (provider_type s), cd_mode = mode s,
      cd_api_style = (if api_style s = Some AzureOpenai then CustomAzureOpenai else CustomOpenaiCompatible),
      cd_provider_type = provider_type s, cd_base_url = coalesce (base_url s) '''', cd_model = model s,
      cd_deployment = coalesce (deployment s) '''', cd_api_version = coalesce (api_version s) ''2024-10-21'',
      cd_allow_external_processing = allow_external_processing s,
      cd_supports_json_mode = supports_json_mode s, cd_temperature = num_to_string (temperature s),
      cd_max_tokens = num_to_string (max_tokens s),
      cd_timeout_seconds = num_to_string (coalesce (timeout_seconds s) (Num 120)),
      cd_retry_count = num_to_string (coalesce (retry_count s) (Num 2)),
      cd_chunk_size = num_to_string (coalesce (chunk_size s) (Num 16000)),
      cd_api_key_env_var = coalesce (api_key_env_var s) ''''\<rparr>"

section \<open>Probes and warnings\<close>

definition DEFAULT_CUSTOM_PROVIDER_PROBE_MAX_AGE_HOURS :: jsnum where
  "DEFAULT_CUSTOM_PROVIDER_PROBE_MAX_AGE_HOURS = Num 24"

definition customProviderProfileProbeIsStale ::
    "jsnum \<Rightarrow> (string \<Rightarrow> jsnum) \<Rightarrow> custom_profile \<Rightarrow> jsnum \<Rightarrow> bool" where
  "customProviderProfileProbeIsStale now parse_date profile maxAgeHours =
     (if str_or (last_probe_at profile) '''' = [] then True
      else if last_probe_status profile \<noteq> Some ''reachable'' then True
      else let ageMs = num_sub now (parse_date (str_or (last_probe_at profile) ''''))
           in num_less (num_mul (num_mul (num_mul maxAgeHours (Num 60)) (Num 60)) (Num 1000)) ageMs)"

definition MOCK_PROVIDER_WARNING_DISMISS_KEY :: string where
  "MOCK_PROVIDER_WARNING_DISMISS_KEY = ''extractflow-dismiss-mock-provider-warning''"

definition isBootstrapMockProvider :: "provider_settings option \<Rightarrow> bool" where
  "isBootstrapMockProvider s =
     (case s of None \<Rightarrow> False | Some p \<Rightarrow> provider_type p = ''mock'' \<or> api_style p = Some MockStyle)"

definition readMockProviderWarningDismissed :: "storage option \<Rightarrow> bool" where
  "readMockProviderWarningDismissed storage =
     (case storage of None \<Rightarrow> False | Some st \<Rightarrow> getItem st MOCK_PROVIDER_WARNING_DISMISS_KEY = Some ''true'')"

definition dismissMockProviderWarning :: "storage option \<Rightarrow> storage option" where
  "dismissMockProviderWarning storage = map_option (setItem MOCK_PROVIDER_WARNING_DISMISS_KEY ''true'') storage"

section \<open>What is stored is what is read\<close>

lemma getItem_simps [simp]:
  "getItem (setItem k v st) l = (if l = k then Some v else getItem st l)"
  "getItem (removeItem k st) l = (if l = k then None else getItem st l)"
  by (simp_all add: getItem_def setItem_def removeItem_def update_conv delete_conv)

lemma draft_keys_plain:
  "\<forall>k \<in> {''label'', ''mode'', ''api_style'', ''provider_type'', ''base_url'', ''model'', ''deployment'', ''api_version'',
     ''allow_external_processing'', ''supports_json_mode'', ''temperature'', ''max_tokens'', ''timeout_seconds'',
     ''retry_count'', ''chunk_size'', ''api_key_env_var''}. index_key k = None"
  by (simp add: no_index_keys is_digit_def)

lemma obj_ok_plain: "distinct (obj_keys ps) \<Longrightarrow> \<forall>k \<in> set (obj_keys ps). index_key k = None \<Longrightarrow> obj_ok ps"
proof (induction ps)
  case (Cons p ps)
  then show ?case by (cases p) (auto simp: obj_ok_def key_precedes_def)
qed simp

lemma persisted_object_ok: "obj_ok (persisted_object d)"
  using draft_keys_plain by (intro obj_ok_plain) (simp_all add: persisted_object_def)

lemma draft_object_ok: "obj_ok (draft_object d)"
  using draft_keys_plain by (intro obj_ok_plain) (simp_all add: draft_object_def persisted_object_def)

lemma persisted_json_ok: "json_ok (JObj (persisted_object d))"
  using persisted_object_ok [of d] by (simp add: members_ok_iff) (simp add: persisted_object_def)

definition persisted_valid :: "json obj \<Rightarrow> bool" where
  "persisted_valid ps \<longleftrightarrow> json_ok (JObj ps)"

interpretation draft_slot: persisted_slot "\<lambda>ps. stringify (JObj ps)"
    "\<lambda>s. Option.bind (json_parse s) object_entries" persisted_valid getItem setItem removeItem
    CUSTOM_PROVIDER_DRAFT_STORAGE_KEY
  by unfold_locales (simp_all add: persisted_valid_def compact.decode_encode object_entries_def)

lemma bool_string_fields:
  "string_field ps k = Some s \<longleftrightarrow> obj_get ps k = Some (JStr s)"
  by (auto simp: string_field_def split: option.splits json.splits)

lemma draft_of_draft_object:
  assumes "\<And>k. obj_get ps k = obj_get (draft_object d) k"
  shows "draft_of_object ps = Some d"
proof -
  have "string_field ps = string_field (draft_object d)" "bool_field ps = bool_field (draft_object d)"
    by (simp_all add: fun_eq_iff string_field_def bool_field_def assms)
  then have "draft_of_object ps = draft_of_object (draft_object d)"
    by (simp add: draft_of_object_def mode_field_def style_field_def)
  also have "\<dots> = Some d"
    by (cases d; cases "cd_mode d"; cases "cd_api_style d")
      (simp_all add: draft_of_object_def mode_field_def style_field_def string_field_def bool_field_def
        draft_object_def persisted_object_def obj_get_def custom_style_name_def)
  finally show ?thesis .
qed

lemma persisted_of_draft [simp]: "persisted_object (toPersistedCustomProviderDraft d) = persisted_object d"
  by (simp add: persisted_object_def toPersistedCustomProviderDraft_def)

lemma get_draft_object:
  "obj_get (draft_object d) k =
     (if k = ''api_key_env_var'' then Some (JStr (cd_api_key_env_var d)) else obj_get (persisted_object d) k)"
  by (simp add: draft_object_def obj_get_def persisted_object_def)

lemma map_of_rev_obj_ok: "obj_ok ps \<Longrightarrow> map_of (rev ps) k = obj_get ps k"
proof -
  assume "obj_ok ps"
  then have d: "distinct (map fst ps)" "distinct (map fst (rev ps))" by (simp_all add: obj_ok_def obj_keys_def rev_map [symmetric])
  have "map_of (rev ps) k = Some v \<longleftrightarrow> map_of ps k = Some v" for v
    unfolding map_of_eq_Some_iff [OF d(1)] map_of_eq_Some_iff [OF d(2)] by simp
  then show ?thesis unfolding obj_get_def by (metis option.exhaust)
qed

text \<open>
  C24: A form that was stored is restored on the next visit field by field, except the name of the
  API-key variable, which comes from the defaults; the stored text does not depend on that name.
\<close>

theorem provider_draft_restored:
  "draft_of_object (fst (readPersistedCustomProviderDraft (writePersistedCustomProviderDraft d (Some st)) fallback))
     = Some (d\<lparr>cd_api_key_env_var := cd_api_key_env_var fallback\<rparr>)
   \<and> writePersistedCustomProviderDraft (d\<lparr>cd_api_key_env_var := secret\<rparr>) storage
       = writePersistedCustomProviderDraft d storage"
proof
  let ?d' = "d\<lparr>cd_api_key_env_var := cd_api_key_env_var fallback\<rparr>"
  have stored: "json_parse (stringify (JObj (persisted_object d))) = Some (JObj (persisted_object d))"
    by (rule compact.decode_encode) (rule persisted_json_ok)
  have nonempty: "stringify (JObj (persisted_object d)) \<noteq> []"
    by (simp add: stringify_def persisted_object_def)
  have read: "fst (readPersistedCustomProviderDraft (writePersistedCustomProviderDraft d (Some st)) fallback)
    = obj_put ''api_key_env_var'' (JStr (cd_api_key_env_var fallback))
        (obj_spread (draft_object fallback) (persisted_object d))"
    by (simp add: readPersistedCustomProviderDraft_def writePersistedCustomProviderDraft_def stored nonempty
        object_entries_def)
  have "obj_get (persisted_object ?d') k = obj_get (persisted_object d) k" for k
    by (simp add: persisted_object_def)
  moreover have p: "obj_get (persisted_object d) k = None \<Longrightarrow> obj_get (persisted_object fallback) k = None" for k
    unfolding obj_get_def map_of_eq_None_iff by (simp add: persisted_object_def)
  have "k \<noteq> ''api_key_env_var'' \<Longrightarrow> obj_get (persisted_object d) k = None \<Longrightarrow> obj_get (draft_object fallback) k = None" for k
    using p by (simp add: get_draft_object)
  ultimately have "obj_get (obj_put ''api_key_env_var'' (JStr (cd_api_key_env_var fallback))
      (obj_spread (draft_object fallback) (persisted_object d))) k = obj_get (draft_object ?d') k" for k
    by (auto simp: get_obj_put get_obj_spread draft_object_ok map_of_rev_obj_ok persisted_object_ok get_draft_object [of ?d']
        split: option.split)
  then show "draft_of_object (fst (readPersistedCustomProviderDraft (writePersistedCustomProviderDraft d (Some st)) fallback))
      = Some ?d'"
    unfolding read by (rule draft_of_draft_object)
  show "writePersistedCustomProviderDraft (d\<lparr>cd_api_key_env_var := secret\<rparr>) storage
      = writePersistedCustomProviderDraft d storage"
    by (simp add: writePersistedCustomProviderDraft_def) (simp add: persisted_object_def)
qed

text \<open>
  Whatever the storage holds, the restored API-key variable is the default's, and text that is no
  JSON is removed from the storage while every other key keeps its value.
\<close>

theorem provider_draft_read_safe:
  "obj_get (fst (readPersistedCustomProviderDraft storage fallback)) ''api_key_env_var''
     = Some (JStr (cd_api_key_env_var fallback))
   \<and> (\<forall>st saved. storage = Some st \<longrightarrow> getItem st CUSTOM_PROVIDER_DRAFT_STORAGE_KEY = Some saved \<longrightarrow>
        saved \<noteq> [] \<longrightarrow> json_parse saved = None \<longrightarrow>
        fst (readPersistedCustomProviderDraft storage fallback) = draft_object fallback \<and>
        (\<exists>st'. snd (readPersistedCustomProviderDraft storage fallback) = Some st' \<and>
           (\<forall>k. getItem st' k = (if k = CUSTOM_PROVIDER_DRAFT_STORAGE_KEY then None else getItem st k))))"
proof
  show "obj_get (fst (readPersistedCustomProviderDraft storage fallback)) ''api_key_env_var''
     = Some (JStr (cd_api_key_env_var fallback))"
    by (auto simp: readPersistedCustomProviderDraft_def get_draft_object get_obj_put split: option.split)
qed (auto simp: readPersistedCustomProviderDraft_def)

lemma provider_draft_read_safe_witness:
  "obj_get (fst (readPersistedCustomProviderDraft (Some [(''custom-provider-draft'', ''{'')]) DEFAULT_CUSTOM_PROVIDER_DRAFT))
     ''api_key_env_var'' = Some (JStr '''')"
  using provider_draft_read_safe [of "Some [(''custom-provider-draft'', ''{'')]" DEFAULT_CUSTOM_PROVIDER_DRAFT]
  by (simp add: DEFAULT_CUSTOM_PROVIDER_DRAFT_def)

section \<open>Validated forms\<close>

lemma validate_NoneD:
  assumes "validateCustomProviderDraft d = None"
  shows "trim (cd_label d) \<noteq> []" "trim (cd_provider_type d) \<noteq> []" "trim (cd_base_url d) \<noteq> []" "trim (cd_model d) \<noteq> []"
    "cd_api_style d = CustomAzureOpenai \<Longrightarrow> trim (cd_deployment d) \<noteq> [] \<and> trim (cd_api_version d) \<noteq> []"
    "\<forall>s \<in> {cd_temperature d, cd_max_tokens d, cd_timeout_seconds d, cd_retry_count d, cd_chunk_size d}.
       is_finite (string_to_number s)"
proof -
  have step: "(if c then Some m else e) = None \<longleftrightarrow> \<not> c \<and> e = None" for c and m :: string and e by simp
  note v = assms [unfolded validateCustomProviderDraft_def step]
  from v show "trim (cd_label d) \<noteq> []" "trim (cd_provider_type d) \<noteq> []" "trim (cd_base_url d) \<noteq> []" "trim (cd_model d) \<noteq> []"
    "\<forall>s \<in> {cd_temperature d, cd_max_tokens d, cd_timeout_seconds d, cd_retry_count d, cd_chunk_size d}.
       is_finite (string_to_number s)"
    by simp_all
  from v show "cd_api_style d = CustomAzureOpenai \<Longrightarrow> trim (cd_deployment d) \<noteq> [] \<and> trim (cd_api_version d) \<noteq> []"
    by blast
qed

lemma number_or_truthy: "num_truthy d \<Longrightarrow> num_ok d \<Longrightarrow> num_truthy (number_or s d) \<and> num_ok (number_or s d)"
  by (simp add: number_or_def)

lemma number_or_printed: "num_truthy n \<Longrightarrow> num_ok n \<Longrightarrow> number_or (num_to_string n) e = n"
  by (simp add: number_or_def string_to_number_to_string)

lemma number_or_again [simp]:
  "num_truthy d \<Longrightarrow> num_ok d \<Longrightarrow> number_or (num_to_string (number_or s d)) e = number_or s d"
  by (rule number_or_printed) (simp_all add: number_or_truthy)

lemma default_numbers [simp]:
  "num_truthy (to_double (1 / 10))" "num_truthy (Num 6000)" "num_truthy (Num 120)" "num_truthy (Num 2)" "num_truthy (Num 16000)"
proof -
  have "to_double (1 / 10) = Num (3602879701896397 / 36028797018963968)" by code_simp
  then show "num_truthy (to_double (1 / 10))" by (simp add: num_truthy_def)
qed (simp_all add: num_truthy_def)

text \<open>
  A form that passes validation becomes settings with a trimmed, non-blank type, label, URL and
  model, finite non-zero numbers, and, for Azure, a deployment and an API version.
\<close>

theorem validated_draft_settings:
  assumes "validateCustomProviderDraft d = None"
  shows "plain_text (provider_type (buildCustomProviderSettings d)) \<and> plain_text (model (buildCustomProviderSettings d))
   \<and> (\<exists>l. provider_label (buildCustomProviderSettings d) = Some l \<and> plain_text l)
   \<and> (\<exists>u. base_url (buildCustomProviderSettings d) = Some u \<and> plain_text u)
   \<and> (api_style (buildCustomProviderSettings d) = Some AzureOpenai \<longrightarrow>
        deployment (buildCustomProviderSettings d) \<noteq> None \<and> api_version (buildCustomProviderSettings d) \<noteq> None)
   \<and> (\<forall>n \<in> {temperature (buildCustomProviderSettings d), max_tokens (buildCustomProviderSettings d)}
        \<union> set_option (timeout_seconds (buildCustomProviderSettings d))
        \<union> set_option (retry_count (buildCustomProviderSettings d))
        \<union> set_option (chunk_size (buildCustomProviderSettings d)). is_finite n \<and> num_truthy n)"
proof -
  note v = validate_NoneD [OF assms]
  have "to_double (1 / 10) = Num (3602879701896397 / 36028797018963968)" by code_simp
  then have n: "is_finite (number_or s e) \<and> num_truthy (number_or s e)"
    if "is_finite (string_to_number s)" "e \<in> {to_double (1 / 10), Num 6000, Num 120, Num 2, Num 16000}" for s e
    using that by (auto simp: number_or_def num_truthy_def)
  have style: "custom_style s = AzureOpenai \<longleftrightarrow> s = CustomAzureOpenai" for s by (cases s) simp_all
  have numbers: "\<forall>n \<in> {number_or (cd_temperature d) (to_double (1 / 10)), number_or (cd_max_tokens d) (Num 6000)}
      \<union> {number_or (cd_timeout_seconds d) (Num 120)} \<union> {number_or (cd_retry_count d) (Num 2)}
      \<union> {number_or (cd_chunk_size d) (Num 16000)}. is_finite n \<and> num_truthy n"
    using v(6) n by blast
  show ?thesis
    unfolding buildCustomProviderSettings_def Let_def
    using v(1-5) numbers by (simp add: plain_trim blank_to_null_def style)
qed

lemma validated_draft_settings_witness:
  "plain_text (provider_type (buildCustomProviderSettings DEFAULT_CUSTOM_PROVIDER_DRAFT))"
proof -
  have "validateCustomProviderDraft DEFAULT_CUSTOM_PROVIDER_DRAFT = None" by code_simp
  from validated_draft_settings [OF this] show ?thesis by blast
qed

text \<open>
  Loading the settings a valid form produced back into the form and saving again produces the same
  settings: editing a saved profile without changes is harmless.
\<close>

theorem provider_settings_reopen:
  assumes "validateCustomProviderDraft d = None"
  shows "buildCustomProviderSettings (buildCustomProviderDraftFromSettings (buildCustomProviderSettings d))
     = buildCustomProviderSettings d"
proof -
  note v = validate_NoneD [OF assms]
  have blank: "coalesce (blank_to_null (trim s)) '''' = trim s" for s by (simp add: blank_to_null_def)
  show ?thesis
  proof (cases "cd_api_style d")
    case CustomAzureOpenai
    then have "coalesce (blank_to_null (trim (cd_api_version d))) ''2024-10-21'' = trim (cd_api_version d)"
      using v(5) by (simp add: blank_to_null_def)
    with CustomAzureOpenai blank show ?thesis
      by (simp add: buildCustomProviderSettings_def buildCustomProviderDraftFromSettings_def Let_def)
  next
    case CustomOpenaiCompatible
    with blank show ?thesis
      by (simp add: buildCustomProviderSettings_def buildCustomProviderDraftFromSettings_def Let_def)
  qed
qed

lemma provider_settings_reopen_witness:
  "buildCustomProviderSettings (buildCustomProviderDraftFromSettings (buildCustomProviderSettings DEFAULT_CUSTOM_PROVIDER_DRAFT))
     = buildCustomProviderSettings DEFAULT_CUSTOM_PROVIDER_DRAFT"
  by (rule provider_settings_reopen) code_simp

text \<open>A zero typed into a number of the form passes validation but is replaced by the default.\<close>

theorem zero_is_replaced_by_default:
  "validateCustomProviderDraft (DEFAULT_CUSTOM_PROVIDER_DRAFT\<lparr>cd_temperature := ''0'', cd_retry_count := ''0''\<rparr>) = None
   \<and> temperature (buildCustomProviderSettings (DEFAULT_CUSTOM_PROVIDER_DRAFT\<lparr>cd_temperature := ''0'', cd_retry_count := ''0''\<rparr>))
       = to_double (1 / 10)
   \<and> retry_count (buildCustomProviderSettings (DEFAULT_CUSTOM_PROVIDER_DRAFT\<lparr>cd_temperature := ''0'', cd_retry_count := ''0''\<rparr>))
       = Some (Num 2)"
proof -
  have z: "string_to_number ''0'' = Num 0" by code_simp
  have "validateCustomProviderDraft (DEFAULT_CUSTOM_PROVIDER_DRAFT\<lparr>cd_temperature := ''0'', cd_retry_count := ''0''\<rparr>) = None"
    by code_simp
  then show ?thesis by (simp add: buildCustomProviderSettings_def Let_def number_or_def z num_truthy_def)
qed

section \<open>Stale probes\<close>

text \<open>
  A profile counts as fresh only when its last probe was reachable and is not older than the limit;
  but a time stamp that does not parse counts as fresh for ever, whatever the limit.
\<close>

theorem probe_freshness:
  "(\<not> customProviderProfileProbeIsStale now parse profile hours) =
     (\<exists>t. last_probe_at profile = Some t \<and> t \<noteq> [] \<and> last_probe_status profile = Some ''reachable'' \<and>
        \<not> num_less (num_mul (num_mul (num_mul hours (Num 60)) (Num 60)) (Num 1000)) (num_sub now (parse t)))
   \<and> (\<forall>t. last_probe_at profile = Some t \<longrightarrow> t \<noteq> [] \<longrightarrow> last_probe_status profile = Some ''reachable'' \<longrightarrow>
        parse t = NaN \<longrightarrow> \<not> customProviderProfileProbeIsStale now parse profile hours)"
proof -
  have nan: "num_sub n NaN = NaN" for n by (cases n) (simp_all add: num_sub_def num_add_def)
  have "\<not> num_less a NaN" for a by (cases a) simp_all
  then show ?thesis
    by (auto simp: customProviderProfileProbeIsStale_def str_or_def nan split: option.splits)
qed

definition sample_profile :: custom_profile where
  "sample_profile = \<lparr>profile_id = ''p'', profile_name = ''P'', profile_settings = sample_provider,
     last_probe_at = Some ''yesterday'', last_probe_status = Some ''reachable'', last_probe_detail = None,
     profile_created_at = '''', profile_updated_at = ''''\<rparr>"

lemma probe_freshness_witness:
  "\<not> customProviderProfileProbeIsStale (Num 1000000) (\<lambda>_. NaN) sample_profile (Num 1)"
  by (rule probe_freshness [THEN conjunct2, rule_format, where t = "''yesterday''"]) (simp_all add: sample_profile_def)

end
