(* ===== verification/Display.thy ===== *)
theory Display
  imports ReviewEditors
begin

text \<open>
  The navigation tables and the pure display helpers of \<open>App.tsx\<close>: labels, parser-failure guidance,
  value formatting and review signals. Date parsing and the locale's renderings are parameters.
\<close>

section \<open>Navigation\<close>

definition primaryNavigation :: "nav_item list" where
  "primaryNavigation =
     [\<lparr>nav_id = PageExtractions, nav_label = ''Extractions'', nav_icon = PageExtractions\<rparr>,
      \<lparr>nav_id = PageTemplates, nav_label = ''Schemas'', nav_icon = PageTemplates\<rparr>]"

definition secondaryNavigation :: "nav_item list" where
  "secondaryNavigation =
     [\<lparr>nav_id = PageAudit, nav_label = ''Audit'', nav_icon = PageAudit\<rparr>,
      \<lparr>nav_id = PageAdmin, nav_label = ''Admin'', nav_icon = PageAdmin\<rparr>,
      \<lparr>nav_id = PageSettings, nav_label = ''Settings'', nav_icon = PageSettings\<rparr>,
      \<lparr>nav_id = PageHelp, nav_label = ''Help'', nav_icon = PageHelp\<rparr>]"

primrec pageLabels :: "page_id \<Rightarrow> string" where
  "pageLabels PageExtractions = ''Extractions''"
| "pageLabels PageTemplates = ''Schemas''"
| "pageLabels PageSettings = ''Settings''"
| "pageLabels PageAudit = ''Audit''"
| "pageLabels PageAdmin = ''Admin''"
| "pageLabels PageHelp = ''Help''"

definition helpTopics :: "string list" where
  "helpTopics =
     [''Reusable schemas and version history'', ''User-defined extraction fields'',
      ''Typed validation and allowed values'', ''Calculated formula fields with null handling'',
      ''Human review, audit logging, and exports'', ''Local-first processing with optional cloud providers'']"

definition EMPTY_LANGEXTRACT_FEEDBACK_DIAGNOSTICS :: feedback_diagnostics where
  "EMPTY_LANGEXTRACT_FEEDBACK_DIAGNOSTICS =
     \<lparr>reviewed_result_count = Num 0, reviewed_edit_count = Num 0, generated_suggestion_count = Num 0,
      dismissed_suggestion_count = Num 0, visible_suggestion_count = Num 0,
      skipped_missing_document_text = Num 0, skipped_missing_target_field = Num 0,
      skipped_missing_grounding = Num 0, skipped_span_override = Num 0, skipped_span_mismatch = Num 0,
      skipped_empty_context = Num 0, skipped_no_contextual_extractions = Num 0\<rparr>"

definition DESKTOP_ONBOARDING_KEY :: string where
  "DESKTOP_ONBOARDING_KEY = ''extractflow.desktop.onboarding.dismissed.v1''"

section \<open>Labels\<close>

definition classNames :: "string option list \<Rightarrow> string" where
  "classNames values = js_join '' '' (nonempty (map (\<lambda>v. coalesce v '''') values))"

definition basename :: "string \<Rightarrow> string" where
  "basename path = str_or (Some (last (js_split CHR ''/'' path))) path"

definition formatTimestamp :: "(string \<Rightarrow> jsnum) \<Rightarrow> (jsnum \<Rightarrow> string) \<Rightarrow> string option \<Rightarrow> string" where
  "formatTimestamp parse_date show_date v =
     (if str_or v '''' = [] then em_dash
      else let t = parse_date (str_or v '''') in if t = NaN then str_or v '''' else show_date t)"

definition getDocumentTypeLabel :: "string \<Rightarrow> string" where
  "getDocumentTypeLabel ct =
     (if js_includes ct ''pdf'' then ''PDF''
      else if js_includes ct ''word'' \<or> js_includes ct ''docx'' then ''DOCX''
      else if js_includes ct ''image'' then ''Image''
      else if js_includes ct ''text'' then ''Text''
      else ''File'')"

definition getParserFailureGuidance :: "string option \<Rightarrow> failure_guidance option" where
  "getParserFailureGuidance m =
     (let e = str_or m '''' in
      if e = [] then None
      else if js_includes e ''Docling parsing is disabled'' then
        Some \<lparr>guidance_title = ''Document parser disabled'',
              guidance_detail = ''This file type depends on the Docling parser path, but the worker runtime has it disabled. Re-enable the parser runtime before retrying this job.''\<rparr>
      else if js_includes e ''Docling PDF parsing produced no usable text'' then
        Some \<lparr>guidance_title = ''PDF parse produced no usable text'',
              guidance_detail = ''The worker could not recover meaningful PDF text, even after its OCR retry path. Check scan quality, image contrast, or whether this document should be re-run with a cleaner source file.''\<rparr>
      else if js_includes e ''Docling image parsing produced no usable text'' then
        Some \<lparr>guidance_title = ''Image OCR produced no usable text'',
              guidance_detail = ''The worker reached the image OCR path but still did not extract enough text to continue. Check image quality, resolution, or whether the content is text-dense enough for extraction.''\<rparr>
      else if js_includes e ''Docling DOCX parsing produced no usable text''
              \<or> js_includes e ''Docling PPTX parsing produced no usable text''
              \<or> js_includes e ''Docling HTML parsing produced no usable text'' then
        Some \<lparr>guidance_title = ''Document parse returned no usable content'',
              guidance_detail = ''The parser opened the file but did not recover enough content to proceed. Check whether the file is mostly empty, image-only, or malformed.''\<rparr>
      else if js_includes e ''Docling failed to parse'' then
        Some \<lparr>guidance_title = ''Parser runtime failed'',
              guidance_detail = ''The parser runtime raised an internal error while opening this file. Check parser readiness in Settings and inspect worker logs before retrying.''\<rparr>
      else None)"

definition parseOptionalId :: "string \<Rightarrow> jsnum option" where
  "parseOptionalId v = (if v \<noteq> [] then Some (string_to_number v) else None)"

text \<open>The value of a select whose options are ids: \<open>value={id ?? ""}\<close>.\<close>

definition select_value :: "jsnum option \<Rightarrow> string" where
  "select_value i = (case i of None \<Rightarrow> '''' | Some n \<Rightarrow> num_to_string n)"

definition formatValue :: "(jsnum \<Rightarrow> string) \<Rightarrow> json option \<Rightarrow> string" where
  "formatValue loc value =
     (case nullish value of
        None \<Rightarrow> em_dash
      | Some (JStr s) \<Rightarrow> s
      | Some (JNum n) \<Rightarrow> num_to_string n
      | Some (JBool b) \<Rightarrow> if b then ''Yes'' else ''No''
      | Some v \<Rightarrow>
          (let display = coalesce (string_text (property v ''display_value'')) '''';
               inner = property v ''value''
           in if display \<noteq> [] then display
              else coalesce (or_else (string_text inner) (number_text inner))
                (case property v ''amount'' of
                   Some (JNum a) \<Rightarrow> coalesce (string_text (property v ''currency'')) ''USD'' @ '' '' @ loc a
                 | _ \<Rightarrow> stringify v)))"

definition getFieldType :: "review_field \<Rightarrow> template_field option \<Rightarrow> string" where
  "getFieldType f d = getReviewFieldType f d"

definition getReviewSignals :: "review_field \<Rightarrow> string list" where
  "getReviewSignals f =
     (let notes = str_or (extraction_notes f) '''';
          signals = validation_errors f @ (if notes \<noteq> [] then [notes] else []);
          shown = (if signals = [] \<and> requires_review f
                   then [''This field needs confirmation before export.''] else signals)
      in js_set (nonempty (map trim shown)))"

section \<open>Facts\<close>

lemma select_round_trip: "num_ok n \<Longrightarrow> parseOptionalId (select_value (Some n)) = Some n"
proof -
  assume ok: "num_ok n"
  have "num_to_string n \<noteq> []"
    using ok num_to_string_hd [of n] by (cases "is_finite n"; cases n) simp_all
  with ok show ?thesis by (simp add: parseOptionalId_def select_value_def string_to_number_to_string)
qed

lemma select_round_trip_option:
  "\<forall>n \<in> set_option i. num_ok n \<Longrightarrow> parseOptionalId (select_value i) = i"
  by (cases i) (auto simp: select_round_trip, simp add: parseOptionalId_def select_value_def)

text \<open>
  The signals shown for a field are distinct, trimmed and non-blank; they hold every non-blank
  validation error and note, and a flagged field without any error or note still shows one signal.
\<close>

theorem review_signals:
  "distinct (getReviewSignals f) \<and> (\<forall>s \<in> set (getReviewSignals f). plain_text s)
   \<and> (\<forall>e \<in> set (validation_errors f) \<union> set_option (extraction_notes f). trim e \<noteq> [] \<longrightarrow> trim e \<in> set (getReviewSignals f))
   \<and> (requires_review f \<longrightarrow> validation_errors f = [] \<longrightarrow> str_or (extraction_notes f) '''' = [] \<longrightarrow>
        getReviewSignals f = [''This field needs confirmation before export.''])"
proof -
  let ?default = "''This field needs confirmation before export.''"
  have "trim ?default = ?default" by (simp add: trim_id js_space_def)
  then have "js_set (nonempty (map trim [?default])) = [?default]" by (simp add: js_set_def nonempty_def)
  then show ?thesis
    by (auto simp: getReviewSignals_def Let_def plain_text_def str_or_def split: option.split)
qed

lemma review_signals_witness:
  "getReviewSignals ((sample_field ''a'' ''text'' JNull)\<lparr>requires_review := True\<rparr>)
     = [''This field needs confirmation before export.'']"
  by (rule review_signals [THEN conjunct2, THEN conjunct2, THEN conjunct2, rule_format])
    (simp_all add: sample_field_def str_or_def)

end
