(* ===== verification/Templates.thy ===== *)
theory Templates
  imports ProviderDraft Display
begin

text \<open>
  The schema draft of \<open>App.tsx\<close>: the starter schema, the payload built from a draft over a base
  definition, the draft made from a definition, and the comparison of two versions.
\<close>

section \<open>The starter schema\<close>

definition starter_provider :: provider_settings where
  "starter_provider =
     \<lparr>mode = Local, provider_type = ''mock'', provider_label = Some ''Mock Extractor'',
      is_persisted_default = None, api_style = Some MockStyle, base_url = None, api_key_env_var = None,
      api_key_required = Some False, deployment = None, api_version = None, model = ''mock-extractor'',
      temperature = to_double (1 / 10), max_tokens = Num 6000, supports_json_mode = True,
      allow_external_processing = False, timeout_seconds = Some (Num 120), retry_count = Some (Num 2),
      chunk_size = Some (Num 16000)\<rparr>"

definition starter_field ::
    "string \<Rightarrow> string \<Rightarrow> string \<Rightarrow> bool \<Rightarrow> string \<Rightarrow> string \<Rightarrow> template_field" where
  "starter_field name label type req desc instr =
     \<lparr>field_def_name = name, field_def_label = label, field_def_type = type, required = Some req,
      citation_required = Some True, field_def_description = Some desc, instructions = Some instr,
      allowed_values = None, output_currency = None, schema = None, field_schema = None\<rparr>"

definition starter_extraction :: "string \<Rightarrow> string \<Rightarrow> string \<Rightarrow> string \<Rightarrow> config_extraction" where
  "starter_extraction cls text k v =
     \<lparr>extraction_class = cls, extraction_text = text, attributes = Some [(k, Text v)]\<rparr>"

definition starterTemplateDefinition :: template_definition where
  "starterTemplateDefinition =
     \<lparr>template_name = ''General Document Extraction Schema'',
      template_version = ''1.0.0'',
      document_type = ''General Document'',
      description = ''Reusable starter schema for legal, medical, accounting, finance, HR, and operations document extraction workflows.'',
      llm_provider_settings = starter_provider,
      definition_langextract_config = Some
        \<lparr>prompt_description = Some ''Extract the primary subject, effective date, and total amount exactly as they appear in the document. Keep extractions grounded to verbatim source spans and in order of appearance.'',
         config_examples = Some
           [\<lparr>example_text = ''Client: Willow Creek HOA'' @ [newline] @ ''Effective Date: 2025-01-15'' @ [newline]
               @ ''Total Amount Due: $4,250.00'',
             extractions =
               [starter_extraction ''primary_subject'' ''Willow Creek HOA'' ''value'' ''Willow Creek HOA'',
                starter_extraction ''effective_date'' ''2025-01-15'' ''value'' ''2025-01-15'',
                starter_extraction ''total_amount'' ''$4,250.00'' ''currency'' ''USD'']\<rparr>]\<rparr>,
      extracted_fields =
        [starter_field ''primary_subject'' ''Primary Subject'' ''text'' True
           ''The main subject, entity, patient, client, contract, or matter described by the document.''
           ''Extract the primary named subject exactly as stated in the document.'',
         starter_field ''effective_date'' ''Effective Date'' ''date'' False
           ''The date the document, service, agreement, or record takes effect.''
           ''Extract the most relevant effective, service, filing, or issue date and normalize it when possible.'',
         starter_field ''total_amount'' ''Total Amount'' ''currency'' False
           ''The primary total monetary amount stated in the document, if applicable.''
           ''Extract the main total amount only when the document clearly states one.''],
      calculated_fields =
        [\<lparr>calculated_name = ''amount_with_buffer'', calculated_label = ''Amount With Buffer'',
          formula = ''coalesce(total_amount.amount, 0) * 1.10'', calculated_output_type = ''currency''\<rparr>],
      export_formats = [''json'', ''csv'', ''excel'']\<rparr>"

section \<open>Payloads and drafts\<close>

definition isLangExtractProvider :: "provider_settings option \<Rightarrow> bool" where
  "isLangExtractProvider s = isLangExtractProviderSettings s"

definition effective_provider :: "provider_settings option \<Rightarrow> template_definition \<Rightarrow> provider_settings" where
  "effective_provider provider seed = coalesce provider (llm_provider_settings seed)"

definition uses_langextract_config :: "provider_settings option \<Rightarrow> template_definition \<Rightarrow> bool" where
  "uses_langextract_config provider seed \<longleftrightarrow>
     api_style (effective_provider provider seed) = Some LangextractStyle \<or>
     api_style (llm_provider_settings seed) = Some LangextractStyle"

definition buildTemplatePayload ::
    "draft_template \<Rightarrow> provider_settings option \<Rightarrow> template_definition option \<Rightarrow> template_definition result" where
  "buildTemplatePayload draft provider base =
     (let seed = coalesce base starterTemplateDefinition;
          uses = uses_langextract_config provider seed;
          prompt = trim (dt_prompt_description draft)
      in res_bind
           (if uses then buildLangExtractExamples (dt_examples draft) (field_names seed) (required_names seed)
            else Inr [])
           (\<lambda>examples. Inr (seed
              \<lparr>template_name := dt_template_name draft, template_version := dt_template_version draft,
               document_type := dt_document_type draft, description := dt_description draft,
               llm_provider_settings := effective_provider provider seed,
               definition_langextract_config :=
                 (if uses \<and> (prompt \<noteq> [] \<or> examples \<noteq> [])
                  then Some \<lparr>prompt_description = Some prompt, config_examples = Some examples\<rparr> else None)\<rparr>)))"

definition buildDraftTemplateDefinitionSafe ::
    "draft_template \<Rightarrow> provider_settings option \<Rightarrow> template_definition \<Rightarrow> template_definition" where
  "buildDraftTemplateDefinitionSafe draft provider base =
     (case buildTemplatePayload draft provider (Some base) of Inl _ \<Rightarrow> base | Inr d \<Rightarrow> d)"

definition buildDraftTemplateFromDefinition :: "template_definition \<Rightarrow> draft_template" where
  "buildDraftTemplateFromDefinition d =
     \<lparr>dt_template_name = template_name d @ '' Copy'', dt_document_type = document_type d,
      dt_description = description d, dt_template_version = template_version d,
      dt_local_only = (\<not> allow_external_processing (llm_provider_settings d)),
      dt_prompt_description = coalesce (Option.bind (definition_langextract_config d) prompt_description) '''',
      dt_examples = buildDraftLangExtractExamples (definition_langextract_config d)\<rparr>"

section \<open>Version diffs\<close>

text \<open>The response of the diff endpoint is unchecked JSON: \<open>x?.length > 0\<close> of one of its properties.\<close>

definition has_items :: "json option \<Rightarrow> bool" where
  "has_items v =
     (case v of
        Some (JArr vs) \<Rightarrow> vs \<noteq> []
      | Some (JStr s) \<Rightarrow> s \<noteq> []
      | _ \<Rightarrow> False)"

definition json_truthy :: "json option \<Rightarrow> bool" where
  "json_truthy v =
     (case v of
        None \<Rightarrow> False
      | Some JNull \<Rightarrow> False
      | Some (JBool b) \<Rightarrow> b
      | Some (JNum n) \<Rightarrow> num_truthy n
      | Some (JStr s) \<Rightarrow> s \<noteq> []
      | _ \<Rightarrow> True)"

definition templateVersionDiffHasChanges :: "json \<Rightarrow> bool" where
  "templateVersionDiffHasChanges d \<longleftrightarrow>
     has_items (property d ''extracted_added'') \<or> has_items (property d ''extracted_removed'') \<or>
     has_items (property d ''extracted_changed'') \<or> has_items (property d ''calculated_added'') \<or>
     has_items (property d ''calculated_removed'') \<or> has_items (property d ''calculated_changed'') \<or>
     json_truthy (property d ''langextract_changed'')"

definition is_array :: "json option \<Rightarrow> bool" where
  "is_array v = (case v of Some (JArr vs) \<Rightarrow> True | _ \<Rightarrow> False)"

definition isTemplateVersionDiff :: "json \<Rightarrow> bool" where
  "isTemplateVersionDiff v \<longleftrightarrow>
     is_array (property v ''extracted_added'') \<and> is_array (property v ''extracted_removed'')"

section \<open>A payload that was built is ready and can be reopened\<close>

lemma payload_InrD:
  assumes "buildTemplatePayload draft provider (Some base) = Inr d"
  shows "extracted_fields d = extracted_fields base" "calculated_fields d = calculated_fields base"
    "llm_provider_settings d = effective_provider provider base"
    "template_name d = dt_template_name draft"
    "uses_langextract_config provider base \<Longrightarrow> \<exists>es.
       buildLangExtractExamples (dt_examples draft) (field_names base) (required_names base) = Inr es \<and>
       definition_langextract_config d =
         (if trim (dt_prompt_description draft) \<noteq> [] \<or> es \<noteq> []
          then Some \<lparr>prompt_description = Some (trim (dt_prompt_description draft)), config_examples = Some es\<rparr> else None)"
    "\<not> uses_langextract_config provider base \<Longrightarrow> definition_langextract_config d = None"
proof -
  let ?uses = "uses_langextract_config provider base" and ?prompt = "trim (dt_prompt_description draft)"
  from assms obtain es where
    es: "(if ?uses then buildLangExtractExamples (dt_examples draft) (field_names base) (required_names base) else Inr []) = Inr es"
    and d: "d = base
              \<lparr>template_name := dt_template_name draft, template_version := dt_template_version draft,
               document_type := dt_document_type draft, description := dt_description draft,
               llm_provider_settings := effective_provider provider base,
               definition_langextract_config :=
                 (if ?uses \<and> (?prompt \<noteq> [] \<or> es \<noteq> [])
                  then Some \<lparr>prompt_description = Some ?prompt, config_examples = Some es\<rparr> else None)\<rparr>"
    unfolding buildTemplatePayload_def Let_def res_bind_eq_Inr_iff coalesce.simps sum.inject by (elim exE conjE) blast
  from d show "extracted_fields d = extracted_fields base" "calculated_fields d = calculated_fields base"
    "llm_provider_settings d = effective_provider provider base"
    "template_name d = dt_template_name draft" by simp_all
  from es d show "?uses \<Longrightarrow> \<exists>es.
       buildLangExtractExamples (dt_examples draft) (field_names base) (required_names base) = Inr es \<and>
       definition_langextract_config d =
         (if ?prompt \<noteq> [] \<or> es \<noteq> []
          then Some \<lparr>prompt_description = Some ?prompt, config_examples = Some es\<rparr> else None)"
    by simp
  from d show "\<not> ?uses \<Longrightarrow> definition_langextract_config d = None" by simp
qed

lemma payload_names:
  assumes "buildTemplatePayload draft provider (Some base) = Inr d"
  shows "template_name d = dt_template_name draft" "description d = dt_description draft"
    "document_type d = dt_document_type draft"
proof -
  let ?ex = "if uses_langextract_config provider base
    then buildLangExtractExamples (dt_examples draft) (field_names base) (required_names base) else Inr []"
  have "template_name d = dt_template_name draft \<and> description d = dt_description draft
      \<and> document_type d = dt_document_type draft"
    using assms by (cases ?ex) (auto simp: buildTemplatePayload_def Let_def)
  then show "template_name d = dt_template_name draft" "description d = dt_description draft"
    "document_type d = dt_document_type draft" by simp_all
qed

lemma saved_schema_ready:
  assumes "buildTemplatePayload draft (Some provider) (Some base) = Inr d"
    and "isLangExtractProvider (Some provider)"
    and "trim (dt_prompt_description draft) \<noteq> []" "dt_examples draft \<noteq> []"
  shows "getLangExtractExtractionReadiness d None = None"
proof -
  from assms(2) have uses: "uses_langextract_config (Some provider) base"
    by (simp add: isLangExtractProvider_def isLangExtractProviderSettings_def uses_langextract_config_def
        effective_provider_def)
  from payload_InrD(5) [OF assms(1) uses] assms(3) obtain es where
    es: "buildLangExtractExamples (dt_examples draft) (field_names base) (required_names base) = Inr es"
    and cfg: "definition_langextract_config d
      = Some \<lparr>prompt_description = Some (trim (dt_prompt_description draft)), config_examples = Some es\<rparr>" by auto
  note built = buildLangExtractExamples_InrD [OF es]
  have "es \<noteq> []" using map_res_length [OF built(1)] assms(4) by auto
  moreover have "field_names d = field_names base" "required_names d = required_names base"
    using payload_InrD(1) [OF assms(1)] by (simp_all add: field_names_def required_names_def)
  moreover have "missingRequiredFields (getLangExtractFieldCoverage (config_classes es) (field_names base) (required_names base)) = []"
    using built(2) by (auto simp: missingRequiredFields_eq filter_empty_conv)
  ultimately show ?thesis
    using cfg assms(3) by (simp add: getLangExtractExtractionReadiness_def Let_def)
qed

text \<open>
  A schema saved for the LangExtract provider with a prompt and at least one example can be run at
  once: the readiness check of the run button raises no objection.
\<close>

theorem saved_langextract_schema_is_ready:
  assumes "buildTemplatePayload draft (Some provider) (Some base) = Inr d"
    and "isLangExtractProvider (Some provider)"
    and "trim (dt_prompt_description draft) \<noteq> []" "dt_examples draft \<noteq> []"
  shows "getLangExtractExtractionReadiness d None = None"
  using assms by (rule saved_schema_ready)

definition langextract_provider :: provider_settings where
  "langextract_provider = starter_provider\<lparr>provider_type := ''langextract'', api_style := Some LangextractStyle\<rparr>"

definition starter_draft :: draft_template where
  "starter_draft = buildDraftTemplateFromDefinition starterTemplateDefinition"

lemma starter_payload: "\<exists>d. buildTemplatePayload starter_draft (Some langextract_provider) (Some starterTemplateDefinition) = Inr d"
proof -
  have "isl (buildTemplatePayload starter_draft (Some langextract_provider) (Some starterTemplateDefinition)) = False"
    by code_simp
  then show ?thesis by (cases "buildTemplatePayload starter_draft (Some langextract_provider) (Some starterTemplateDefinition)") auto
qed

lemma saved_langextract_schema_is_ready_witness:
  "\<exists>d. buildTemplatePayload starter_draft (Some langextract_provider) (Some starterTemplateDefinition) = Inr d \<and>
     getLangExtractExtractionReadiness d None = None"
proof -
  obtain d where d: "buildTemplatePayload starter_draft (Some langextract_provider) (Some starterTemplateDefinition) = Inr d"
    using starter_payload by blast
  have "isLangExtractProvider (Some langextract_provider)" by code_simp
  moreover have "trim (dt_prompt_description starter_draft) \<noteq> []" by code_simp
  moreover have "dt_examples starter_draft \<noteq> []" by code_simp
  ultimately show ?thesis using saved_langextract_schema_is_ready [OF d] d by blast
qed

text \<open>
  C30: Opening a saved schema as a draft and saving it again over itself, with the same provider, changes
  nothing but the name, which gets a copy suffix, provided the provider is a LangExtract one or the base
  never was: the LangExtract configuration survives unchanged.
\<close>

theorem schema_reopens_unchanged:
  assumes "buildTemplatePayload draft (Some provider) (Some base) = Inr d"
    and "api_style provider = Some LangextractStyle \<or> api_style (llm_provider_settings base) \<noteq> Some LangextractStyle"
  shows "buildTemplatePayload (buildDraftTemplateFromDefinition d) (Some provider) (Some d)
     = Inr (d\<lparr>template_name := template_name d @ '' Copy''\<rparr>)"
proof (cases "api_style provider = Some LangextractStyle")
  case True
  have p: "llm_provider_settings d = provider" and f: "field_names d = field_names base" "required_names d = required_names base"
    using payload_InrD(1,3) [OF assms(1)] by (simp_all add: effective_provider_def field_names_def required_names_def)
  from True have uses: "uses_langextract_config (Some provider) base" "uses_langextract_config (Some provider) d"
    by (simp_all add: uses_langextract_config_def effective_provider_def)
  from payload_InrD(5) [OF assms(1) uses(1)] obtain es where
    es: "buildLangExtractExamples (dt_examples draft) (field_names base) (required_names base) = Inr es"
    and cfg: "definition_langextract_config d =
       (if trim (dt_prompt_description draft) \<noteq> [] \<or> es \<noteq> []
        then Some \<lparr>prompt_description = Some (trim (dt_prompt_description draft)), config_examples = Some es\<rparr> else None)"
    by blast
  have again: "buildLangExtractExamples (dt_examples (buildDraftTemplateFromDefinition d)) (field_names d) (required_names d) = Inr es"
  proof (cases "trim (dt_prompt_description draft) \<noteq> [] \<or> es \<noteq> []")
    case True
    with cfg saved_again [OF es] f show ?thesis by (simp add: buildDraftTemplateFromDefinition_def)
  next
    case False
    with cfg have "dt_examples (buildDraftTemplateFromDefinition d) = []"
      by (simp add: buildDraftTemplateFromDefinition_def buildDraftLangExtractExamples_def)
    moreover have "dt_examples draft = []"
      using map_res_length [OF buildLangExtractExamples_InrD(1) [OF es]] False by simp
    ultimately show ?thesis using es f by simp
  qed
  have "trim (dt_prompt_description (buildDraftTemplateFromDefinition d)) =
      (if trim (dt_prompt_description draft) \<noteq> [] \<or> es \<noteq> [] then trim (dt_prompt_description draft) else [])"
    using cfg by (simp add: buildDraftTemplateFromDefinition_def)
  with cfg uses(2) p again show ?thesis
    by (cases d) (auto simp: buildTemplatePayload_def buildDraftTemplateFromDefinition_def effective_provider_def)
next
  case False
  with assms(2) have no: "\<not> uses_langextract_config (Some provider) base"
    by (simp add: uses_langextract_config_def effective_provider_def)
  have "llm_provider_settings d = provider"
    using payload_InrD(3) [OF assms(1)] by (simp add: effective_provider_def)
  with payload_InrD(6) [OF assms(1) no] False show ?thesis
    by (cases d) (simp add: buildTemplatePayload_def Let_def uses_langextract_config_def effective_provider_def
        buildDraftTemplateFromDefinition_def)
qed

lemma schema_reopens_unchanged_witness:
  "\<exists>d. buildTemplatePayload (buildDraftTemplateFromDefinition d) (Some langextract_provider) (Some d)
     = Inr (d\<lparr>template_name := template_name d @ '' Copy''\<rparr>)"
proof -
  obtain d where d: "buildTemplatePayload starter_draft (Some langextract_provider) (Some starterTemplateDefinition) = Inr d"
    using starter_payload by blast
  have "api_style langextract_provider = Some LangextractStyle" by code_simp
  with schema_reopens_unchanged [OF d] show ?thesis by blast
qed

text \<open>
  A LangExtract schema saved once with another provider keeps its configuration, but saving that
  result again with the same provider drops the configuration.
\<close>

theorem second_save_drops_langextract_config:
  assumes "buildTemplatePayload draft (Some provider) (Some base) = Inr d"
    and "api_style provider \<noteq> Some LangextractStyle" "api_style (llm_provider_settings base) = Some LangextractStyle"
    and "trim (dt_prompt_description draft) \<noteq> []"
  shows "definition_langextract_config d \<noteq> None
   \<and> (\<exists>d'. buildTemplatePayload (buildDraftTemplateFromDefinition d) (Some provider) (Some d) = Inr d'
        \<and> definition_langextract_config d' = None)"
proof
  have "uses_langextract_config (Some provider) base" using assms(3) by (simp add: uses_langextract_config_def)
  from payload_InrD(5) [OF assms(1) this] assms(4) show "definition_langextract_config d \<noteq> None" by auto
  have "llm_provider_settings d = provider"
    using payload_InrD(3) [OF assms(1)] by (simp add: effective_provider_def)
  with assms(2) show "\<exists>d'. buildTemplatePayload (buildDraftTemplateFromDefinition d) (Some provider) (Some d) = Inr d'
        \<and> definition_langextract_config d' = None"
    by (simp add: buildTemplatePayload_def Let_def uses_langextract_config_def effective_provider_def)
qed

lemma second_save_drops_langextract_config_witness:
  "\<exists>d. buildTemplatePayload starter_draft (Some starter_provider)
       (Some (starterTemplateDefinition\<lparr>llm_provider_settings := langextract_provider\<rparr>)) = Inr d \<and>
     definition_langextract_config d \<noteq> None"
proof -
  have "isl (buildTemplatePayload starter_draft (Some starter_provider)
       (Some (starterTemplateDefinition\<lparr>llm_provider_settings := langextract_provider\<rparr>))) = False"
    by code_simp
  then obtain d where d: "buildTemplatePayload starter_draft (Some starter_provider)
       (Some (starterTemplateDefinition\<lparr>llm_provider_settings := langextract_provider\<rparr>)) = Inr d"
    by (cases "buildTemplatePayload starter_draft (Some starter_provider)
       (Some (starterTemplateDefinition\<lparr>llm_provider_settings := langextract_provider\<rparr>))") auto
  have "api_style starter_provider \<noteq> Some LangextractStyle" by code_simp
  moreover have "api_style (llm_provider_settings (starterTemplateDefinition\<lparr>llm_provider_settings := langextract_provider\<rparr>))
      = Some LangextractStyle" by code_simp
  moreover have "trim (dt_prompt_description starter_draft) \<noteq> []" by code_simp
  ultimately show ?thesis using second_save_drops_langextract_config [OF d] d by blast
qed

end
