(* ===== verification/WorkspaceUrl.thy ===== *)
theory WorkspaceUrl
  imports Types
begin

text \<open>
  \<open>lib/workspace-url.ts\<close> with the part of \<open>URLSearchParams\<close> it uses: the form-urlencoded serialiser and
  parser (percent encoding, plus for space, UTF-8 with replacement of invalid bytes), \<open>get\<close> and
  \<open>set\<close>; and the round trip of the workspace state through the URL.
\<close>

section \<open>URLSearchParams\<close>

definition upper_hex :: "nat \<Rightarrow> char" where
  "upper_hex d = (if d < 10 then char_of (48 + d) else char_of (55 + d))"

definition percent_byte :: "nat \<Rightarrow> string" where
  "percent_byte b = [CHR ''%'', upper_hex (b div 16), upper_hex (b mod 16)]"

definition url_safe :: "char \<Rightarrow> bool" where
  "url_safe c \<longleftrightarrow>
     (let n = (of_char c :: nat) in
      (48 \<le> n \<and> n \<le> 57) \<or> (65 \<le> n \<and> n \<le> 90) \<or> (97 \<le> n \<and> n \<le> 122) \<or> n \<in> {42, 45, 46, 95})"

definition encode_char :: "char \<Rightarrow> string" where
  "encode_char c =
     (let n = (of_char c :: nat) in
      if url_safe c then [c]
      else if n = 32 then ''+''
      else if n < 128 then percent_byte n
      else percent_byte (192 + n div 64) @ percent_byte (128 + n mod 64))"

definition url_encode :: "string \<Rightarrow> string" where
  "url_encode s = concat (map encode_char s)"

fun percent_decode :: "string \<Rightarrow> nat list" where
  "percent_decode (c # h # l # s) =
     (if c = CHR ''%'' \<and> radix_digit h < 16 \<and> radix_digit l < 16
      then (16 * radix_digit h + radix_digit l) # percent_decode s
      else of_char c # percent_decode (h # l # s))"
| "percent_decode (c # s) = of_char c # percent_decode s"
| "percent_decode [] = []"

definition code_point :: "nat \<Rightarrow> string" where
  "code_point n =
     (if n < 65536 then code_unit n
      else [char_of (240 + n div 262144), char_of (128 + n div 4096 mod 64), char_of (128 + n div 64 mod 64),
            char_of (128 + n mod 64)])"

text \<open>The UTF-8 decoder: continuation bytes still needed, the bounds of the next one, the code point so far.\<close>

function utf8_decode :: "nat \<Rightarrow> nat \<Rightarrow> nat \<Rightarrow> nat \<Rightarrow> nat list \<Rightarrow> string" where
  "utf8_decode n lo hi cp [] = (if n = 0 then [] else code_point 65533)"
| "utf8_decode 0 lo hi cp (b # bs) =
     (if b < 128 then code_point b @ utf8_decode 0 128 191 0 bs
      else if 194 \<le> b \<and> b \<le> 223 then utf8_decode 1 128 191 (b - 192) bs
      else if 224 \<le> b \<and> b \<le> 239 then
        utf8_decode 2 (if b = 224 then 160 else 128) (if b = 237 then 159 else 191) (b - 224) bs
      else if 240 \<le> b \<and> b \<le> 244 then
        utf8_decode 3 (if b = 240 then 144 else 128) (if b = 244 then 143 else 191) (b - 240) bs
      else code_point 65533 @ utf8_decode 0 128 191 0 bs)"
| "utf8_decode (Suc n) lo hi cp (b # bs) =
     (if lo \<le> b \<and> b \<le> hi then
        (if n = 0 then code_point (cp * 64 + b mod 64) @ utf8_decode 0 128 191 0 bs
         else utf8_decode n 128 191 (cp * 64 + b mod 64) bs)
      else code_point 65533 @ utf8_decode 0 128 191 0 (b # bs))"
  by pat_completeness auto
termination
  by (relation "measures [\<lambda>(n, lo, hi, cp, bs). length bs, \<lambda>(n, lo, hi, cp, bs). n]") auto

definition url_decode :: "string \<Rightarrow> string" where
  "url_decode s = utf8_decode 0 128 191 0 (percent_decode (replace_char CHR ''+'' '' '' s))"

type_synonym search_params = "(string \<times> string) list"

definition parse_pair :: "string \<Rightarrow> string \<times> string" where
  "parse_pair p = (url_decode (takeWhile (\<lambda>c. c \<noteq> CHR ''='') p), url_decode (drop 1 (dropWhile (\<lambda>c. c \<noteq> CHR ''='') p)))"

definition parse_params :: "string \<Rightarrow> search_params" where
  "parse_params s =
     (let q = (if prefix ''?'' s then tl s else s)
      in map parse_pair (nonempty (js_split CHR ''&'' q)))"

definition params_get :: "search_params \<Rightarrow> string \<Rightarrow> string option" where
  "params_get ps k = map_of ps k"

fun params_set :: "string \<Rightarrow> string \<Rightarrow> search_params \<Rightarrow> search_params" where
  "params_set k v [] = [(k, v)]"
| "params_set k v ((l, w) # ps) =
     (if l = k then (k, v) # filter (\<lambda>(m, _). m \<noteq> k) ps else (l, w) # params_set k v ps)"

definition params_to_string :: "search_params \<Rightarrow> string" where
  "params_to_string ps = js_join ''&'' (map (\<lambda>(k, v). url_encode k @ ''='' @ url_encode v) ps)"

section \<open>The workspace state in the URL\<close>

record workspace_url_state =
  url_job_id :: "jsnum option"
  url_result_id :: "jsnum option"
  url_status :: "string option"

definition id_param :: "string option \<Rightarrow> jsnum option" where
  "id_param p =
     (case p of
        None \<Rightarrow> None
      | Some s \<Rightarrow> if s \<noteq> [] \<and> string_to_number s \<noteq> NaN then Some (string_to_number s) else None)"

definition parseWorkspaceSearch :: "string \<Rightarrow> workspace_url_state" where
  "parseWorkspaceSearch search =
     (let ps = parse_params search in
      \<lparr>url_job_id = id_param (params_get ps ''job''), url_result_id = id_param (params_get ps ''result''),
       url_status = params_get ps ''status''\<rparr>)"

definition workspace_params :: "workspace_url_state \<Rightarrow> search_params" where
  "workspace_params st =
     (let p1 = (case url_job_id st of None \<Rightarrow> [] | Some n \<Rightarrow> params_set ''job'' (num_to_string n) []);
          p2 = (case url_result_id st of None \<Rightarrow> p1 | Some n \<Rightarrow> params_set ''result'' (num_to_string n) p1)
      in case url_status st of
           None \<Rightarrow> p2
         | Some s \<Rightarrow> if s = [] then p2 else params_set ''status'' s p2)"

definition buildWorkspaceSearch :: "workspace_url_state \<Rightarrow> string" where
  "buildWorkspaceSearch st =
     (let serialized = params_to_string (workspace_params st)
      in if serialized = [] then '''' else ''?'' @ serialized)"

text \<open>The address bar is a path and a search part; \<open>replaceState\<close> keeps the path.\<close>

definition replaceWorkspaceUrl :: "workspace_url_state \<Rightarrow> string \<times> string \<Rightarrow> string \<times> string" where
  "replaceWorkspaceUrl st url = (fst url, buildWorkspaceSearch st)"

section \<open>Decoding undoes encoding\<close>

definition url_char :: "char \<Rightarrow> bool" where
  "url_char c \<longleftrightarrow> url_safe c \<or> c = CHR ''+'' \<or> c = CHR ''%''"

lemma of_char_lt_256: "(of_char c :: nat) < 256"
  by (rule of_char_less_256)

lemma hex_facts: "d < 16 \<Longrightarrow> radix_digit (upper_hex d) = d \<and> url_safe (upper_hex d) \<and> upper_hex d \<noteq> CHR ''+''"
proof -
  assume d: "d < 16"
  then have "of_char (upper_hex d) = (if d < 10 then 48 + d else 55 + d)" by (simp add: upper_hex_def)
  with d show ?thesis by (auto simp: radix_digit_def url_safe_def Let_def split: if_splits)
qed

lemma url_safe_facts: "url_safe c \<Longrightarrow> c \<noteq> CHR ''+'' \<and> c \<noteq> CHR ''%'' \<and> c \<noteq> CHR ''&'' \<and> c \<noteq> CHR ''='' \<and> c \<noteq> CHR ''?''"
  by (auto simp: url_safe_def)

lemma encode_char_chars: "\<forall>x \<in> set (encode_char c). url_char x"
proof -
  have "(of_char c :: nat) div 16 < 16" using of_char_lt_256 [of c] by (intro less_mult_imp_div_less) simp
  moreover have "(192 + of_char c div 64 :: nat) div 16 < 16" "(128 + of_char c mod 64 :: nat) div 16 < 16"
  proof -
    have "(of_char c :: nat) div 64 < 64" using of_char_lt_256 [of c] by (intro less_mult_imp_div_less) linarith
    then show "(192 + of_char c div 64 :: nat) div 16 < 16" by (intro less_mult_imp_div_less) simp
    have "(of_char c :: nat) mod 64 < 64" by simp
    then show "(128 + of_char c mod 64 :: nat) div 16 < 16" by (intro less_mult_imp_div_less) linarith
  qed
  ultimately show ?thesis
    using hex_facts by (auto simp: encode_char_def Let_def percent_byte_def url_char_def)
qed

lemma url_encode_chars: "x \<in> set (url_encode s) \<Longrightarrow> x \<noteq> CHR ''&'' \<and> x \<noteq> CHR ''='' \<and> x \<noteq> CHR ''?''"
  using encode_char_chars url_safe_facts by (fastforce simp: url_encode_def url_char_def)

definition plus_to_space :: "string \<Rightarrow> string" where
  "plus_to_space s = replace_char CHR ''+'' '' '' s"

lemma plus_to_space_simps [simp]:
  "plus_to_space [] = []"
  "plus_to_space (c # s) = (if c = CHR ''+'' then CHR '' '' else c) # plus_to_space s"
  "plus_to_space (s @ t) = plus_to_space s @ plus_to_space t"
  by (simp_all add: plus_to_space_def replace_char_def)

lemma percent_decode_plain: "c \<noteq> CHR ''%'' \<Longrightarrow> percent_decode (c # s) = of_char c # percent_decode s"
  by (cases s; cases "tl s") auto

lemma percent_decode_byte:
  "b < 256 \<Longrightarrow> percent_decode (plus_to_space (percent_byte b) @ s) = b # percent_decode s"
  using hex_facts [of "b div 16"] hex_facts [of "b mod 16"] less_mult_imp_div_less [of b 16 16]
  by (simp add: percent_byte_def)

text \<open>The bytes of one encoded character, and what the decoder makes of them.\<close>

definition char_bytes :: "char \<Rightarrow> nat list" where
  "char_bytes c = (let n = of_char c in if n < 128 then [n] else [192 + n div 64, 128 + n mod 64])"

lemma percent_decode_char: "percent_decode (plus_to_space (encode_char c) @ s) = char_bytes c @ percent_decode s"
proof -
  have n: "(of_char c :: nat) < 256" by (rule of_char_lt_256)
  consider "url_safe c" | "\<not> url_safe c" "(of_char c :: nat) = 32" | "\<not> url_safe c" "(of_char c :: nat) \<noteq> 32" "(of_char c :: nat) < 128"
    | "\<not> url_safe c" "(of_char c :: nat) \<ge> 128"
    by linarith
  then show ?thesis
  proof cases
    case 1
    then have "(of_char c :: nat) < 128" by (auto simp: url_safe_def Let_def)
    with 1 url_safe_facts [OF 1] show ?thesis by (simp add: encode_char_def char_bytes_def percent_decode_plain)
  next
    case 4
    have "192 + of_char c div 64 < (256 :: nat)" "128 + of_char c mod 64 < (256 :: nat)"
    proof -
      have "(of_char c :: nat) div 64 < 64" using n by (intro less_mult_imp_div_less) linarith
      then show "192 + of_char c div 64 < (256 :: nat)" by simp
      have "(of_char c :: nat) mod 64 < 64" by simp
      then show "128 + of_char c mod 64 < (256 :: nat)" by linarith
    qed
    with 4 show ?thesis by (simp add: encode_char_def char_bytes_def percent_decode_byte Let_def)
  qed (simp_all add: encode_char_def char_bytes_def percent_decode_byte percent_decode_plain)
qed

lemma utf8_decode_char: "utf8_decode 0 128 191 0 (char_bytes c @ bs) = c # utf8_decode 0 128 191 0 bs"
proof (cases "(of_char c :: nat) < 128")
  case True
  then show ?thesis by (simp add: char_bytes_def code_point_def code_unit_def)
next
  case False
  let ?n = "of_char c :: nat"
  have n: "128 \<le> ?n" "?n < 256" using False of_char_lt_256 [of c] by simp_all
  have "2 * 64 \<le> ?n" "?n < 4 * 64" using n by simp_all
  then have "2 \<le> ?n div 64" "?n div 64 < 4"
    by (simp_all only: less_mult_imp_div_less less_eq_div_iff_mult_less_eq zero_less_numeral)
  then have q: "?n div 64 = 2 \<or> ?n div 64 = 3" by auto
  define r where "r = ?n mod 64"
  have r64: "r < 64" by (simp add: r_def)
  have "(128 + r) mod 64 = (r + 2 * 64) mod 64" by (simp add: add.commute)
  also have "\<dots> = r" using r64 by (simp only: mod_mult_self3 mod_mult_self1 mod_less)
  finally have r: "r < 64" "(128 + r) mod 64 = r" using r64 by simp_all
  have m: "?n = 64 * (?n div 64) + r" unfolding r_def by (rule mult_div_mod_eq [symmetric])
  have c: "char_of (64 * (?n div 64) + r) = c" using m by simp
  from q show ?thesis
  proof
    assume q: "?n div 64 = 2"
    with c have "char_of (128 + r) = c" by simp
    with q n r show ?thesis by (simp add: char_bytes_def r_def [symmetric] code_point_def code_unit_def)
  next
    assume q: "?n div 64 = 3"
    with c have "char_of (192 + r) = c" by simp
    with q n r show ?thesis by (simp add: char_bytes_def r_def [symmetric] code_point_def code_unit_def)
  qed
qed

lemma url_decode_encode [js_string]: "url_decode (url_encode s) = s"
proof -
  have "utf8_decode 0 128 191 0 (percent_decode (plus_to_space (concat (map encode_char s)))) = s"
    by (induction s) (simp_all add: percent_decode_char utf8_decode_char)
  then show ?thesis by (simp add: url_decode_def url_encode_def plus_to_space_def)
qed

section \<open>The round trip of the workspace state\<close>

lemma parse_pair_encoded: "parse_pair (url_encode k @ ''='' @ url_encode v) = (k, v)"
proof -
  have k: "\<forall>x \<in> set (url_encode k). x \<noteq> CHR ''=''" using url_encode_chars by blast
  then show ?thesis by (simp add: parse_pair_def takeWhile_append2 dropWhile_append2 url_decode_encode)
qed

lemma parse_params_to_string:
  "parse_params (''?'' @ params_to_string ps) = ps" "parse_params [] = []"
proof -
  let ?enc = "\<lambda>(k, v). url_encode k @ ''='' @ url_encode v"
  have "nonempty (map ?enc ps) = map ?enc ps" by (auto simp: nonempty_def filter_id_conv)
  moreover have "\<forall>p \<in> set (map ?enc ps). CHR ''&'' \<notin> set p" using url_encode_chars by fastforce
  ultimately show "parse_params (''?'' @ params_to_string ps) = ps"
    by (cases "ps = []")
      (simp_all add: parse_params_def params_to_string_def nonempty_def js_split_join comp_def
        case_prod_unfold parse_pair_encoded [simplified])
  show "parse_params [] = []" by (simp add: parse_params_def nonempty_def)
qed

definition url_state_ok :: "workspace_url_state \<Rightarrow> bool" where
  "url_state_ok st \<longleftrightarrow>
     (\<forall>n \<in> set_option (url_job_id st) \<union> set_option (url_result_id st). num_ok n \<and> n \<noteq> NaN) \<and>
     url_status st \<noteq> Some ''''"

lemma id_param_string: "num_ok n \<Longrightarrow> n \<noteq> NaN \<Longrightarrow> id_param (Some (num_to_string n)) = Some n"
  using string_to_number_to_string [of n] num_to_string_hd [of n] by (cases n) (auto simp: id_param_def)

lemma id_param_None: "id_param None = None"
  by (simp add: id_param_def)

lemma parse_build_workspace:
  assumes "url_state_ok st"
  shows "parseWorkspaceSearch (buildWorkspaceSearch st) = st"
proof -
  have "parse_params (buildWorkspaceSearch st) = workspace_params st"
  proof (cases "params_to_string (workspace_params st) = []")
    case True
    then have "workspace_params st = []"
      using parse_params_to_string(1) [of "workspace_params st"]
      by (cases "workspace_params st"; cases "tl (workspace_params st)") (auto simp: params_to_string_def)
    with True show ?thesis by (simp add: buildWorkspaceSearch_def parse_params_to_string)
  next
    case False
    then show ?thesis using parse_params_to_string(1) by (simp add: buildWorkspaceSearch_def)
  qed
  moreover have "id_param (params_get (workspace_params st) ''job'') = url_job_id st"
    "id_param (params_get (workspace_params st) ''result'') = url_result_id st"
    "params_get (workspace_params st) ''status'' = url_status st"
    using assms id_param_string
    by (auto simp: workspace_params_def params_get_def url_state_ok_def id_param_None split: option.splits)
  ultimately show ?thesis by (simp add: parseWorkspaceSearch_def)
qed

interpretation workspace_url: codec buildWorkspaceSearch "\<lambda>s. Some (parseWorkspaceSearch s)" url_state_ok
  by unfold_locales (simp add: parse_build_workspace)

text \<open>
  C23: The address bar is a faithful record of the workspace: whatever the path, reading the URL that
  was written gives back the job, the result and the status filter, and different states give different URLs.
\<close>

theorem workspace_url_round_trip:
  assumes "url_state_ok st" "url_state_ok st'"
  shows "parseWorkspaceSearch (snd (replaceWorkspaceUrl st url)) = st
    \<and> (replaceWorkspaceUrl st url = replaceWorkspaceUrl st' url \<longleftrightarrow> st = st')"
  using workspace_url.decode_encode [OF assms(1)] workspace_url.encode_injective [OF assms]
  by (simp add: replaceWorkspaceUrl_def)

lemma workspace_url_round_trip_witness:
  "parseWorkspaceSearch (snd (replaceWorkspaceUrl
      \<lparr>url_job_id = Some (Num 12), url_result_id = None, url_status = Some ''a&b %''\<rparr> (''/app'', ''?x'')))
     = \<lparr>url_job_id = Some (Num 12), url_result_id = None, url_status = Some ''a&b %''\<rparr>
   \<and> (replaceWorkspaceUrl \<lparr>url_job_id = Some (Num 12), url_result_id = None, url_status = Some ''a&b %''\<rparr> (''/app'', ''?x'')
      = replaceWorkspaceUrl \<lparr>url_job_id = None, url_result_id = None, url_status = None\<rparr> (''/app'', ''?x'')
      \<longleftrightarrow> \<lparr>url_job_id = Some (Num 12), url_result_id = None, url_status = Some ''a&b %''\<rparr>
        = \<lparr>url_job_id = None, url_result_id = None, url_status = None\<rparr>)"
  by (rule workspace_url_round_trip) (simp_all add: url_state_ok_def)

end
