(* ===== verification/Effects.thy ===== *)
theory Effects
  imports Templates WorkspaceUrl
begin

text \<open>
  Asynchronous code as trees: a handler changes the state, awaits the replies of a group of requests,
  and returns or throws. The tree is what the code does between awaits, so every handler makes finitely
  many requests and ends. The theory holds the request and reply types, \<open>lib/api.ts\<close> and
  \<open>lib/config.ts\<close>, a weakest precondition over all replies and all interference at the awaits, and
  the interleaving of suspended handlers with its invariant rule.
\<close>

section \<open>Requests and replies\<close>

datatype http_method = GET | POST | PUT | DELETE

text \<open>The object each call site passes to \<open>JSON.stringify\<close>.\<close>

datatype payload =
    NoBody
  | PolicyBody bool
  | DismissalBody bool
  | JobBody jsnum jsnum "provider_settings option"
  | TemplateBody string string string template_definition
  | ReviewBody string "review_edit list" bool "jsnum option"
  | SettingsBody provider_settings
  | ProfileBody string provider_settings
  | DiffBody template_definition template_definition
  | DryRunBody template_definition string
  | TenantBody bool "string option"

datatype request =
    Http http_method string payload
  | Upload string
  | Invoke string

record export_receipt =
  receipt_id :: jsnum
  receipt_sha256 :: "string option"

record parsed_text =
  parsed_document_id :: jsnum
  parsed_text_of :: string
  parsed_source :: string

text \<open>
  What a reply carries, by the type the call site casts it to. A list that the code checks with
  \<open>Array.isArray\<close> before use is an option.
\<close>

datatype api_value =
    VUnit
  | VTemplates "template_summary list"
  | VDocuments "document_record list"
  | VJobs "job_record list"
  | VExports "export_record list"
  | VProvider "provider_settings option"
  | VCatalog "catalog_entry list"
  | VHealths "provider_health list option"
  | VControls provider_controls
  | VParser parser_status
  | VProfiles "custom_profile list option"
  | VDev dev_status
  | VPolicy export_policy
  | VVersions "template_version_record list"
  | VEnvelope result_envelope
  | VResult result_payload
  | VJob job_record
  | VDocument document_record
  | VFeedback feedback_list_response
  | VProbe provider_probe
  | VProfile custom_profile
  | VReceipt export_receipt
  | VDesktop desktop_status
  | VLogs desktop_logs
  | VParsed parsed_text
  | VDryRun dry_run_response
  | VDiff json
  | VAudit "audit_event list"
  | VTenants "tenant_usage list"

datatype thrown = JsError string | OtherThrown

text \<open>A reply of \<open>fetch\<close> or \<open>invoke\<close>: no answer, or a response with its status, text and parsed body.\<close>

datatype reply =
    Rejected thrown
  | Response bool string "api_value option"

fun error_message :: "thrown \<Rightarrow> string \<Rightarrow> string" where
  "error_message (JsError m) d = m"
| "error_message OtherThrown d = d"

section \<open>Handlers\<close>

datatype ('s, 'a) proc =
    Return 'a
  | Throw thrown
  | Update "'s \<Rightarrow> 's" "('s, 'a) proc"
  | Request "request list" "reply list \<Rightarrow> ('s, 'a) proc"

primrec bind :: "('s, 'a) proc \<Rightarrow> ('a \<Rightarrow> ('s, 'b) proc) \<Rightarrow> ('s, 'b) proc" where
  "bind (Return a) f = f a"
| "bind (Throw e) f = Throw e"
| "bind (Update u p) f = Update u (bind p f)"
| "bind (Request qs k) f = Request qs (\<lambda>rs. bind (k rs) f)"

primrec catch :: "('s, 'a) proc \<Rightarrow> (thrown \<Rightarrow> ('s, 'a) proc) \<Rightarrow> ('s, 'a) proc" where
  "catch (Return a) h = Return a"
| "catch (Throw e) h = h e"
| "catch (Update u p) h = Update u (catch p h)"
| "catch (Request qs k) h = Request qs (\<lambda>rs. catch (k rs) h)"

text \<open>\<open>finally\<close> blocks of the program only set state.\<close>

primrec finally_do :: "('s, 'a) proc \<Rightarrow> ('s \<Rightarrow> 's) \<Rightarrow> ('s, 'a) proc" where
  "finally_do (Return a) u = Update u (Return a)"
| "finally_do (Throw e) u = Update u (Throw e)"
| "finally_do (Update v p) u = Update v (finally_do p u)"
| "finally_do (Request qs k) u = Request qs (\<lambda>rs. finally_do (k rs) u)"

text \<open>\<open>Throw\<close> what a pure computation throws.\<close>

definition lift_result :: "'a result \<Rightarrow> ('s, 'a) proc" where
  "lift_result r = (case r of Inl m \<Rightarrow> Throw (JsError m) | Inr x \<Rightarrow> Return x)"

section \<open>The API client\<close>

definition apiBase :: "string option \<Rightarrow> (string \<times> string) option \<Rightarrow> string" where
  "apiBase configured location =
     (let fallback = (case location of
            Some (protocol, hostname) \<Rightarrow>
              if hostname \<noteq> ''localhost'' then protocol @ ''//'' @ hostname @ '':8000/api''
              else ''http://localhost:8000/api''
          | None \<Rightarrow> ''http://localhost:8000/api'')
      in str_or (map_option trim configured) fallback)"

text \<open>
  The body of \<open>readJson\<close> and \<open>uploadDocument\<close> after the \<open>fetch\<close>. The text of a response is what its
  failure shows: the body of a refused request, or the parser's complaint about a body that is no JSON.
  A body that is not of the declared type is outside the casts of the code; it is a rejection.
\<close>

definition settle :: "(api_value \<Rightarrow> 'a option) \<Rightarrow> reply \<Rightarrow> thrown + 'a" where
  "settle as r =
     (case r of
        Rejected e \<Rightarrow> Inl e
      | Response ok text v \<Rightarrow>
          if \<not> ok then Inl (JsError text)
          else (case v of
              None \<Rightarrow> Inl (JsError text)
            | Some x \<Rightarrow> (case as x of None \<Rightarrow> Inl OtherThrown | Some y \<Rightarrow> Inr y)))"

definition reply_at :: "reply list \<Rightarrow> nat \<Rightarrow> reply" where
  "reply_at rs i = (if i < length rs then rs ! i else Rejected OtherThrown)"

definition await :: "(api_value \<Rightarrow> 'a option) \<Rightarrow> request \<Rightarrow> ('s, 'a) proc" where
  "await as q = Request [q] (\<lambda>rs.
     case settle as (reply_at rs 0) of Inl e \<Rightarrow> Throw e | Inr x \<Rightarrow> Return x)"

definition readJson :: "(api_value \<Rightarrow> 'a option) \<Rightarrow> http_method \<Rightarrow> string \<Rightarrow> payload \<Rightarrow> ('s, 'a) proc" where
  "readJson as m path body = await as (Http m path body)"

definition invoke :: "(api_value \<Rightarrow> 'a option) \<Rightarrow> string \<Rightarrow> ('s, 'a) proc" where
  "invoke as command = await as (Invoke command)"

text \<open>The casts of the call sites.\<close>

definition as_any :: "api_value \<Rightarrow> unit option" where "as_any v = Some ()"
fun as_templates :: "api_value \<Rightarrow> template_summary list option" where
  "as_templates (VTemplates x) = Some x" | "as_templates _ = None"
fun as_documents :: "api_value \<Rightarrow> document_record list option" where
  "as_documents (VDocuments x) = Some x" | "as_documents _ = None"
fun as_jobs :: "api_value \<Rightarrow> job_record list option" where
  "as_jobs (VJobs x) = Some x" | "as_jobs _ = None"
fun as_exports :: "api_value \<Rightarrow> export_record list option" where
  "as_exports (VExports x) = Some x" | "as_exports _ = None"
fun as_provider :: "api_value \<Rightarrow> provider_settings option option" where
  "as_provider (VProvider x) = Some x" | "as_provider _ = None"
fun as_catalog :: "api_value \<Rightarrow> catalog_entry list option" where
  "as_catalog (VCatalog x) = Some x" | "as_catalog _ = None"
fun as_healths :: "api_value \<Rightarrow> provider_health list option option" where
  "as_healths (VHealths x) = Some x" | "as_healths _ = None"
fun as_controls :: "api_value \<Rightarrow> provider_controls option" where
  "as_controls (VControls x) = Some x" | "as_controls _ = None"
fun as_parser :: "api_value \<Rightarrow> parser_status option" where
  "as_parser (VParser x) = Some x" | "as_parser _ = None"
fun as_profiles :: "api_value \<Rightarrow> custom_profile list option option" where
  "as_profiles (VProfiles x) = Some x" | "as_profiles _ = None"
fun as_dev :: "api_value \<Rightarrow> dev_status option" where
  "as_dev (VDev x) = Some x" | "as_dev _ = None"
fun as_policy :: "api_value \<Rightarrow> export_policy option" where
  "as_policy (VPolicy x) = Some x" | "as_policy _ = None"
fun as_versions :: "api_value \<Rightarrow> template_version_record list option" where
  "as_versions (VVersions x) = Some x" | "as_versions _ = None"
fun as_envelope :: "api_value \<Rightarrow> result_envelope option" where
  "as_envelope (VEnvelope x) = Some x" | "as_envelope _ = None"
fun as_result :: "api_value \<Rightarrow> result_payload option" where
  "as_result (VResult x) = Some x" | "as_result _ = None"
fun as_job :: "api_value \<Rightarrow> job_record option" where
  "as_job (VJob x) = Some x" | "as_job _ = None"
fun as_document :: "api_value \<Rightarrow> document_record option" where
  "as_document (VDocument x) = Some x" | "as_document _ = None"
fun as_feedback :: "api_value \<Rightarrow> feedback_list_response option" where
  "as_feedback (VFeedback x) = Some x" | "as_feedback _ = None"
fun as_probe :: "api_value \<Rightarrow> provider_probe option" where
  "as_probe (VProbe x) = Some x" | "as_probe _ = None"
fun as_profile :: "api_value \<Rightarrow> custom_profile option" where
  "as_profile (VProfile x) = Some x" | "as_profile _ = None"
fun as_receipt :: "api_value \<Rightarrow> export_receipt option" where
  "as_receipt (VReceipt x) = Some x" | "as_receipt _ = None"
fun as_desktop :: "api_value \<Rightarrow> desktop_status option" where
  "as_desktop (VDesktop x) = Some x" | "as_desktop _ = None"
fun as_logs :: "api_value \<Rightarrow> desktop_logs option" where
  "as_logs (VLogs x) = Some x" | "as_logs _ = None"
fun as_parsed :: "api_value \<Rightarrow> parsed_text option" where
  "as_parsed (VParsed x) = Some x" | "as_parsed _ = None"
fun as_dry_run :: "api_value \<Rightarrow> dry_run_response option" where
  "as_dry_run (VDryRun x) = Some x" | "as_dry_run _ = None"
fun as_diff :: "api_value \<Rightarrow> json option" where
  "as_diff (VDiff x) = Some x" | "as_diff _ = None"
fun as_audit :: "api_value \<Rightarrow> audit_event list option" where
  "as_audit (VAudit x) = Some x" | "as_audit _ = None"
fun as_tenants :: "api_value \<Rightarrow> tenant_usage list option" where
  "as_tenants (VTenants x) = Some x" | "as_tenants _ = None"

definition uploadDocument :: "string \<Rightarrow> ('s, document_record) proc" where
  "uploadDocument file = await as_document (Upload file)"

text \<open>\<open>Promise.all\<close> over requests whose failures are caught, and \<open>Promise.allSettled\<close>.\<close>

definition settle_all :: "(api_value \<Rightarrow> 'a option) \<Rightarrow> reply list \<Rightarrow> nat \<Rightarrow> (thrown + 'a) list" where
  "settle_all as rs n = map (\<lambda>i. settle as (reply_at rs i)) [0..<n]"

section \<open>Weakest preconditions\<close>

text \<open>
  A history is the list of awaited groups with their replies. \<open>wp G P Q p h s\<close>: run from \<open>s\<close> after
  history \<open>h\<close>, with any replies and any change of the state that \<open>G\<close> allows at each await, every request
  satisfies \<open>P\<close> of the history before it, and \<open>Q\<close> holds of the history, the state and the result at the end.
\<close>

type_synonym history = "(request list \<times> reply list) list"

primrec wp :: "('s \<Rightarrow> 's \<Rightarrow> bool) \<Rightarrow> (history \<Rightarrow> request \<Rightarrow> bool) \<Rightarrow> (history \<Rightarrow> 's \<Rightarrow> thrown + 'a \<Rightarrow> bool)
    \<Rightarrow> ('s, 'a) proc \<Rightarrow> history \<Rightarrow> 's \<Rightarrow> bool" where
  "wp G P Q (Return a) = (\<lambda>h s. Q h s (Inr a))"
| "wp G P Q (Throw e) = (\<lambda>h s. Q h s (Inl e))"
| "wp G P Q (Update u p) = (\<lambda>h s. wp G P Q p h (u s))"
| "wp G P Q (Request qs k) = (\<lambda>h s. (\<forall>q \<in> set qs. P h q) \<and>
     (\<forall>rs s'. G s s' \<longrightarrow> wp G P Q (k rs) (h @ [(qs, rs)]) s'))"

named_theorems wp_simps \<open>weakest preconditions of the combinators\<close>

lemma wp_bind [wp_simps]:
  "wp G P Q (bind p f) h s =
     wp G P (\<lambda>h s r. case r of Inl e \<Rightarrow> Q h s (Inl e) | Inr a \<Rightarrow> wp G P Q (f a) h s) p h s"
  by (induction p arbitrary: h s) auto

lemma wp_catch [wp_simps]:
  "wp G P Q (catch p c) h s =
     wp G P (\<lambda>h s r. case r of Inl e \<Rightarrow> wp G P Q (c e) h s | Inr a \<Rightarrow> Q h s (Inr a)) p h s"
  by (induction p arbitrary: h s) auto

lemma wp_finally [wp_simps]:
  "wp G P Q (finally_do p u) h s = wp G P (\<lambda>h s r. Q h (u s) r) p h s"
  by (induction p arbitrary: h s) auto

lemma wp_lift_result [wp_simps]:
  "wp G P Q (lift_result r) h s = (case r of Inl m \<Rightarrow> Q h s (Inl (JsError m)) | Inr x \<Rightarrow> Q h s (Inr x))"
  by (simp add: lift_result_def split: sum.split)

lemma wp_mono:
  "wp G P Q p h s \<Longrightarrow> (\<And>h s r. Q h s r \<Longrightarrow> R h s r) \<Longrightarrow> wp G P R p h s"
  by (induction p arbitrary: h s) auto

lemma wp_conj: "wp G P Q p h s \<Longrightarrow> wp G P R p h s \<Longrightarrow> wp G P (\<lambda>h s r. Q h s r \<and> R h s r) p h s"
  by (induction p arbitrary: h s) auto

lemma wp_await [wp_simps]:
  "wp G P Q (await as q) h s \<longleftrightarrow> P h q \<and>
     (\<forall>rs s'. G s s' \<longrightarrow> Q (h @ [([q], rs)]) s' (settle as (reply_at rs 0)))"
proof -
  have *: "wp G P Q (case x of Inl e \<Rightarrow> Throw e | Inr y \<Rightarrow> Return y) h s \<longleftrightarrow> Q h s x" for x h s
    by (cases x) simp_all
  show ?thesis by (simp add: await_def *)
qed

lemma wp_readJson [wp_simps]:
  "wp G P Q (readJson as m path body) h s \<longleftrightarrow> P h (Http m path body) \<and>
     (\<forall>rs s'. G s s' \<longrightarrow> Q (h @ [([Http m path body], rs)]) s' (settle as (reply_at rs 0)))"
  by (simp add: readJson_def wp_await)

lemma wp_invoke [wp_simps]:
  "wp G P Q (invoke as c) h s \<longleftrightarrow> P h (Invoke c) \<and>
     (\<forall>rs s'. G s s' \<longrightarrow> Q (h @ [([Invoke c], rs)]) s' (settle as (reply_at rs 0)))"
  by (simp add: invoke_def wp_await)

text \<open>Rules for the shape of every handler: a finally block settles the postcondition by itself.\<close>

lemma wp_true: "(\<And>h q. P h q) \<Longrightarrow> (\<And>h s r. Q h s r) \<Longrightarrow> wp G P Q p h s"
  by (induction p arbitrary: h s) auto

abbreviation any_request :: "history \<Rightarrow> request \<Rightarrow> bool" where
  "any_request \<equiv> \<lambda>h q. True"

abbreviation any_state :: "'s \<Rightarrow> 's \<Rightarrow> bool" where
  "any_state \<equiv> \<lambda>s s'. True"

lemma wp_finally_all: "(\<And>h s r. Q h (u s) r) \<Longrightarrow> wp G any_request Q (finally_do p u) h s"
  unfolding wp_finally by (rule wp_true) simp_all

text \<open>Every state change of a handler satisfies a predicate.\<close>

primrec all_updates :: "(('s \<Rightarrow> 's) \<Rightarrow> bool) \<Rightarrow> ('s, 'a) proc \<Rightarrow> bool" where
  "all_updates R (Return a) = True"
| "all_updates R (Throw e) = True"
| "all_updates R (Update u p) = (R u \<and> all_updates R p)"
| "all_updates R (Request qs k) = (\<forall>rs. all_updates R (k rs))"

lemma all_updates_bind [wp_simps]: "all_updates R p \<Longrightarrow> (\<And>a. all_updates R (f a)) \<Longrightarrow> all_updates R (bind p f)"
  by (induction p) auto

lemma all_updates_catch [wp_simps]: "all_updates R p \<Longrightarrow> (\<And>e. all_updates R (c e)) \<Longrightarrow> all_updates R (catch p c)"
  by (induction p) auto

lemma all_updates_finally [wp_simps]: "all_updates R p \<Longrightarrow> R u \<Longrightarrow> all_updates R (finally_do p u)"
  by (induction p) auto

lemma all_updates_await [wp_simps]:
  "all_updates R (await as q)" "all_updates R (readJson as m path body)" "all_updates R (invoke as c)"
  "all_updates R (lift_result r)"
  by (auto simp: await_def readJson_def invoke_def lift_result_def split: sum.split)

section \<open>Running a handler alone\<close>

text \<open>Sequential execution against an environment that answers each group from the history so far.\<close>

primrec run :: "(history \<Rightarrow> request list \<Rightarrow> reply list) \<Rightarrow> ('s, 'a) proc \<Rightarrow> history \<Rightarrow> 's
    \<Rightarrow> history \<times> 's \<times> (thrown + 'a)" where
  "run env (Return a) = (\<lambda>h s. (h, s, Inr a))"
| "run env (Throw e) = (\<lambda>h s. (h, s, Inl e))"
| "run env (Update u p) = (\<lambda>h s. run env p h (u s))"
| "run env (Request qs k) = (\<lambda>h s. run env (k (env h qs)) (h @ [(qs, env h qs)]) s)"

definition final_state :: "(history \<Rightarrow> request list \<Rightarrow> reply list) \<Rightarrow> ('s, 'a) proc \<Rightarrow> 's \<Rightarrow> 's" where
  "final_state env p s = fst (snd (run env p [] s))"

definition final_history :: "(history \<Rightarrow> request list \<Rightarrow> reply list) \<Rightarrow> ('s, 'a) proc \<Rightarrow> 's \<Rightarrow> history" where
  "final_history env p s = fst (run env p [] s)"

definition requests_of :: "history \<Rightarrow> request list" where
  "requests_of h = concat (map fst h)"

lemma run_bind:
  "run env (bind p f) h s = (case run env p h s of
     (h', s', Inl e) \<Rightarrow> (h', s', Inl e) | (h', s', Inr a) \<Rightarrow> run env (f a) h' s')"
  by (induction p arbitrary: h s) auto

lemma run_catch:
  "run env (catch p c) h s = (case run env p h s of
     (h', s', Inl e) \<Rightarrow> run env (c e) h' s' | (h', s', Inr a) \<Rightarrow> (h', s', Inr a))"
  by (induction p arbitrary: h s) auto

lemma run_finally:
  "run env (finally_do p u) h s = (case run env p h s of (h', s', r) \<Rightarrow> (h', u s', r))"
  by (induction p arbitrary: h s) auto

lemma run_await:
  "run env (await as q) h s = (h @ [([q], env h [q])], s, settle as (reply_at (env h [q]) 0))"
  by (simp add: await_def split: sum.split)

lemmas run_simps = run_bind run_catch run_finally run_await readJson_def invoke_def uploadDocument_def lift_result_def

text \<open>The weakest precondition is sound for running alone, whenever the interference may be none.\<close>

lemma wp_run:
  "wp G P Q p h s \<Longrightarrow> (\<And>s. G s s) \<Longrightarrow> run env p h s = (h', s', r) \<Longrightarrow>
   Q h' s' r \<and> (\<forall>i. length h \<le> i \<longrightarrow> i < length h' \<longrightarrow> (\<forall>q \<in> set (fst (h' ! i)). P (take i h') q))"
proof (induction p arbitrary: h s)
  case (Request qs k)
  have ext: "run env p h s = (h', s', r) \<Longrightarrow> \<exists>t. h' = h @ t" for p h s
    by (induction p arbitrary: h s) (fastforce)+
  let ?rs = "env h qs"
  from Request.prems have w: "wp G P Q (k ?rs) (h @ [(qs, ?rs)]) s" and q: "\<forall>q \<in> set qs. P h q"
    and r: "run env (k ?rs) (h @ [(qs, ?rs)]) s = (h', s', r)" by auto
  from ext [OF r] obtain t where t: "h' = h @ (qs, ?rs) # t" by auto
  from Request.IH [OF _ w _ r] Request.prems(2)
  have ih: "Q h' s' r" "\<forall>i. length h + 1 \<le> i \<longrightarrow> i < length h' \<longrightarrow> (\<forall>q \<in> set (fst (h' ! i)). P (take i h') q)"
    by auto
  have "i = length h \<Longrightarrow> \<forall>q \<in> set (fst (h' ! i)). P (take i h') q" for i
    using q t by (simp add: nth_append)
  with ih show ?case by (metis Suc_eq_plus1 le_neq_implies_less Suc_leI)
qed auto

section \<open>Interleaving\<close>

text \<open>
  JavaScript runs a handler from one await to the next without interruption. \<open>advance\<close> does that;
  a configuration is the state with the suspended handlers, each with its own history.
\<close>

primrec advance :: "('s, 'a) proc \<Rightarrow> 's \<Rightarrow> 's \<times> ('s, 'a) proc" where
  "advance (Return a) = (\<lambda>s. (s, Return a))"
| "advance (Throw e) = (\<lambda>s. (s, Throw e))"
| "advance (Update u p) = (\<lambda>s. advance p (u s))"
| "advance (Request qs k) = (\<lambda>s. (s, Request qs k))"

type_synonym ('s, 'a) task = "history \<times> ('s, 'a) proc"

fun suspended :: "('s, 'a) proc \<Rightarrow> bool" where
  "suspended (Request qs k) = True"
| "suspended _ = False"

definition park :: "history \<Rightarrow> ('s, 'a) proc \<Rightarrow> ('s, 'a) task list" where
  "park h p = (if suspended p then [(h, p)] else [])"

text \<open>Handlers started by events (\<open>events s\<close> in state \<open>s\<close>), other changes of the state, and replies.\<close>

inductive reach :: "('s \<Rightarrow> bool) \<Rightarrow> ('s \<Rightarrow> ('s, 'a) proc \<Rightarrow> bool) \<Rightarrow> ('s \<Rightarrow> 's \<Rightarrow> bool)
    \<Rightarrow> 's \<times> ('s, 'a) task list \<Rightarrow> bool" for start events change where
  init: "start s \<Longrightarrow> reach start events change (s, [])"
| event: "reach start events change (s, ts) \<Longrightarrow> events s p \<Longrightarrow> advance p s = (s', p') \<Longrightarrow>
    reach start events change (s', ts @ park [] p')"
| change: "reach start events change (s, ts) \<Longrightarrow> change s s' \<Longrightarrow> reach start events change (s', ts)"
| reply: "reach start events change (s, us @ (h, Request qs k) # vs) \<Longrightarrow> advance (k rs) s = (s', p') \<Longrightarrow>
    reach start events change (s', us @ park (h @ [(qs, rs)]) p' @ vs)"

inductive_cases reach_cases: "reach start events change c"

lemma wp_advance:
  assumes "wp any_state P Q p h s" "advance p s = (s', p')"
  shows "wp any_state P Q p' h s'" and "\<not> suspended p' \<Longrightarrow> \<exists>r. Q h s' r"
    and "suspended p' \<Longrightarrow> wp any_state P Q p' h t"
proof -
  have "advance p s = (s', p') \<Longrightarrow> wp any_state P Q p h s \<Longrightarrow>
      wp any_state P Q p' h s' \<and> (\<not> suspended p' \<longrightarrow> (\<exists>r. Q h s' r)) \<and> (suspended p' \<longrightarrow> wp any_state P Q p' h t)"
    by (induction p arbitrary: s) auto
  with assms show "wp any_state P Q p' h s'" and "\<not> suspended p' \<Longrightarrow> \<exists>r. Q h s' r"
    and "suspended p' \<Longrightarrow> wp any_state P Q p' h t" by auto
qed

lemma all_updates_advance:
  assumes "all_updates R p" "advance p s = (s', p')" "\<And>u s. R u \<Longrightarrow> f (u s) = f s"
  shows "f s' = f s" and "all_updates R p'"
proof -
  have "advance p s = (s', p') \<Longrightarrow> all_updates R p \<Longrightarrow> f s' = f s \<and> all_updates R p'"
    using assms(3) by (induction p arbitrary: s) auto
  with assms show "f s' = f s" and "all_updates R p'" by auto
qed

text \<open>
  A flag that some handlers set and always reset at their end (\<open>owners\<close>), which no other handler and no
  other change touches, is reset whenever no owner is suspended.
\<close>

locale owned_flag =
  fixes idle :: "'s \<Rightarrow> bool"
    and start :: "'s \<Rightarrow> bool"
    and events :: "'s \<Rightarrow> ('s, 'a) proc \<Rightarrow> bool"
    and change :: "'s \<Rightarrow> 's \<Rightarrow> bool"
  assumes start_idle: "start s \<Longrightarrow> idle s"
    and events_owned: "events s p \<Longrightarrow>
      (\<forall>h s. wp any_state any_request (\<lambda>h s r. idle s) p h s) \<or> all_updates (\<lambda>u. \<forall>s. idle (u s) = idle s) p"
    and change_keeps: "change s s' \<Longrightarrow> idle s' = idle s"
begin

definition owner :: "('s, 'a) task \<Rightarrow> bool" where
  "owner t \<longleftrightarrow> (\<forall>s. wp any_state any_request (\<lambda>h s r. idle s) (snd t) (fst t) s)"

definition bystander :: "('s, 'a) task \<Rightarrow> bool" where
  "bystander t \<longleftrightarrow> all_updates (\<lambda>u. \<forall>s. idle (u s) = idle s) (snd t)"

lemma advance_owner:
  assumes "owner (h, p)" "advance p s = (s', p')"
  shows "(\<forall>t \<in> set (park h p'). owner t) \<and> (idle s' \<or> (\<exists>t \<in> set (park h p'). owner t))"
  using wp_advance [of any_request "\<lambda>h s r. idle s" p h s s' p'] assms by (auto simp: owner_def park_def)

lemma advance_bystander:
  assumes "bystander (h, p)" "advance p s = (s', p')"
  shows "(\<forall>t \<in> set (park g p'). bystander t) \<and> idle s' = idle s"
  using all_updates_advance [of "\<lambda>u. \<forall>s. idle (u s) = idle s" p s s' p' idle] assms
  by (auto simp: bystander_def park_def)

lemma flag_invariant:
  "reach start events change c \<Longrightarrow>
   (\<forall>t \<in> set (snd c). owner t \<or> bystander t) \<and> (idle (fst c) \<or> (\<exists>t \<in> set (snd c). owner t))"
proof (induction rule: reach.induct)
  case (init s)
  then show ?case by (simp add: start_idle)
next
  case (event s ts p s' p')
  from events_owned [OF event.hyps(2)] have "owner ([], p) \<or> bystander ([], p)"
    by (auto simp: owner_def bystander_def)
  with advance_owner [of "[]" p s s' p'] advance_bystander [of "[]" p s s' p' "[]"] event.hyps(3) event.IH
  show ?case by (cases "owner ([], p)") auto
next
  case (change s ts s')
  with change_keeps show ?case by fastforce
next
  case (reply s us h qs k vs rs s' p')
  let ?h = "h @ [(qs, rs)]"
  have "owner (h, Request qs k) \<Longrightarrow> owner (?h, k rs)" "bystander (h, Request qs k) \<Longrightarrow> bystander (?h, k rs)"
    by (auto simp: owner_def bystander_def)
  with reply.IH have "owner (?h, k rs) \<or> bystander (?h, k rs)" by auto
  moreover have "bystander (h, Request qs k) \<or> owner (h, Request qs k)" using reply.IH by auto
  ultimately show ?case
    using advance_owner [of ?h "k rs" s s' p'] advance_bystander [of ?h "k rs" s s' p' ?h] reply.hyps(2) reply.IH
      \<open>owner (h, Request qs k) \<Longrightarrow> owner (?h, k rs)\<close>
    by (cases "owner (?h, k rs)") auto
qed

lemma quiescent_idle: "reach start events change (s, []) \<Longrightarrow> idle s"
  using flag_invariant [of "(s, [])"] by simp

end

text \<open>Requests of an interleaved execution: each satisfies the guard its handler was proved to respect.\<close>

lemma guarded_requests:
  assumes "reach start events change c"
    and "\<And>s p. events s p \<Longrightarrow> wp any_state P (\<lambda>h s r. True) p [] s"
  shows "\<forall>t \<in> set (snd c). \<forall>s. wp any_state P (\<lambda>h s r. True) (snd t) (fst t) s"
  using assms(1)
proof (induction rule: reach.induct)
  case (event s ts p s' p')
  with wp_advance(3) [OF assms(2) [OF event.hyps(2)] event.hyps(3)] show ?case by (auto simp: park_def)
next
  case (reply s us h qs k vs rs s' p')
  from reply.IH have "wp any_state P (\<lambda>h s r. True) (k rs) (h @ [(qs, rs)]) s" by auto
  from wp_advance(3) [OF this reply.hyps(2)] reply.IH show ?case by (auto simp: park_def)
qed auto

section \<open>Loads that are cancelled\<close>

text \<open>
  An effect that loads data captures a flag that its clean-up sets. The flag of the \<open>n\<close>-th run is modelled
  by the number of the run that is current: run \<open>n\<close> is cancelled when another is.
\<close>

locale cancellable_load =
  fixes current :: "'s \<Rightarrow> nat"
    and load :: "nat \<Rightarrow> ('s, 'a) proc"
  assumes guarded: "\<exists>qs k. snd (advance (load n) s) = Request qs k \<and>
    (\<forall>rs. all_updates (\<lambda>u. \<forall>s. current s \<noteq> n \<longrightarrow> u s = s) (k rs))"
begin

lemma stale_reply_ignored:
  assumes "snd (advance (load n) s) = Request qs k" "current t \<noteq> n" "advance (k rs) t = (t', p')"
  shows "t' = t"
proof -
  from guarded [of n s] assms(1) have all: "all_updates (\<lambda>u. \<forall>s. current s \<noteq> n \<longrightarrow> u s = s) (k rs)" by auto
  have "all_updates (\<lambda>u. \<forall>s. current s \<noteq> n \<longrightarrow> u s = s) p \<Longrightarrow> advance p t = (t', p') \<Longrightarrow> t' = t" for p :: "('s, 'a) proc"
    using assms(2) by (induction p) auto
  with all assms(3) show ?thesis by blast
qed

end

end
