(* ===== verification/AppState.thy ===== *)
theory AppState
  imports Effects
begin

text \<open>
  The state of the \<open>App\<close> component (one field per \<open>useState\<close>, under the source's names), with the
  browser parts it touches: local storage, the address bar, opened windows and the Tauri flag. Then its
  derived values, \<open>refreshCoreData\<close> and the effects. A handler or effect is a closure over the state of
  the render that created it, the parameter \<open>c\<close>; the updates it makes act on the current state.
\<close>

section \<open>The state\<close>

datatype tone = ToneSuccess | ToneError

record banner_record =
  banner_tone :: tone
  banner_message :: string
  banner_action :: "(string \<times> jsnum) option"

datatype core_state = CoreLoading | CoreReady | CoreUnavailable

record app_state =
  activePage :: page_id
  templates :: "template_summary list"
  templateVersions :: "template_version_record list"
  documents :: "document_record list"
  jobs :: "job_record list"
  exportsList :: "export_record list"
  provider :: "provider_settings option"
  providerCatalog :: "catalog_entry list"
  providerHealth :: "provider_health obj"
  probeResults :: "provider_probe obj"
  customProviderDraft :: custom_draft
  customProfiles :: "custom_profile list"
  selectedCustomProfileId :: "string option"
  providerControls :: provider_controls
  parserStatus :: "parser_status option"
  devStatus :: "dev_status option"
  resultsByJob :: "(jsnum \<times> result_envelope) list"
  selectedTemplateId :: "jsnum option"
  selectedTemplateVersionId :: "jsnum option"
  selectedDocumentId :: "jsnum option"
  selectedJobId :: "jsnum option"
  reviewDrafts :: "string obj"
  focusedFieldName :: "string option"
  draftTemplate :: draft_template
  langextractFeedbackSuggestions :: "feedback_suggestion list"
  langextractFeedbackDiagnostics :: feedback_diagnostics
  langextractFeedbackStatus :: feedback_status
  sessionAppliedKeys :: "string list"
  dismissedKeys :: "string list"
  busyAction :: "string option"
  banner :: "banner_record option"
  coreDataState :: core_state
  apiUnavailable :: bool
  mockProviderWarningDismissed :: bool
  desktopStatus :: "desktop_status option"
  desktopLogs :: "desktop_logs option"
  desktopOnboardingDismissed :: bool
  workspaceSeeded :: bool
  jobStatusFilter :: "string option"
  exportPolicy :: export_policy
  localStorage :: "storage option"
  address :: "string \<times> string"
  openedWindows :: "string list"
  tauriRuntime :: bool
  feedbackRun :: nat
  versionsStamp :: nat

text \<open>
  Every response is parsed into fresh objects, so the definitions held by \<open>templateVersions\<close> get a new
  identity with each refresh: \<open>versionsStamp\<close> numbers the response they come from.

  The first render. A stored form whose fields have other types than the cast claims is outside the
  model; the defaults stand in for it.
\<close>

definition initial_app :: "storage option \<Rightarrow> string \<times> string \<Rightarrow> bool \<Rightarrow> app_state" where
  "initial_app storage url tauri =
     \<lparr>activePage = PageExtractions, templates = [], templateVersions = [], documents = [], jobs = [],
      exportsList = [], provider = None, providerCatalog = [], providerHealth = [], probeResults = [],
      customProviderDraft =
        coalesce (draft_of_object (fst (loadSavedCustomProviderDraft storage))) DEFAULT_CUSTOM_PROVIDER_DRAFT,
      customProfiles = [], selectedCustomProfileId = None,
      providerControls = \<lparr>custom_provider_probe_max_age_hours = DEFAULT_CUSTOM_PROVIDER_PROBE_MAX_AGE_HOURS\<rparr>,
      parserStatus = None, devStatus = None, resultsByJob = [], selectedTemplateId = None,
      selectedTemplateVersionId = None, selectedDocumentId = None, selectedJobId = None, reviewDrafts = [],
      focusedFieldName = None,
      draftTemplate = (buildDraftTemplateFromDefinition starterTemplateDefinition)
        \<lparr>dt_template_name := template_name starterTemplateDefinition\<rparr>,
      langextractFeedbackSuggestions = [],
      langextractFeedbackDiagnostics = EMPTY_LANGEXTRACT_FEEDBACK_DIAGNOSTICS,
      langextractFeedbackStatus = FeedbackIdle, sessionAppliedKeys = [], dismissedKeys = [],
      busyAction = None, banner = None, coreDataState = CoreLoading, apiUnavailable = False,
      mockProviderWarningDismissed = readMockProviderWarningDismissed storage, desktopStatus = None,
      desktopLogs = None, desktopOnboardingDismissed = False, workspaceSeeded = False,
      jobStatusFilter = url_status (parseWorkspaceSearch (snd url)),
      exportPolicy = \<lparr>require_review_cleared = False\<rparr>,
      localStorage = snd (loadSavedCustomProviderDraft storage), address = url, openedWindows = [],
      tauriRuntime = tauri, feedbackRun = 0, versionsStamp = 0\<rparr>"

text \<open>\<open>setBusyAction\<close>, \<open>setBanner\<close> and friends, and the truthiness of an optional id.\<close>

definition set_busy :: "string option \<Rightarrow> app_state \<Rightarrow> app_state" where
  "set_busy b s = s\<lparr>busyAction := b\<rparr>"

definition show_banner :: "tone \<Rightarrow> string \<Rightarrow> app_state \<Rightarrow> app_state" where
  "show_banner t m s = s\<lparr>banner := Some \<lparr>banner_tone = t, banner_message = m, banner_action = None\<rparr>\<rparr>"

definition id_truthy :: "jsnum option \<Rightarrow> bool" where
  "id_truthy i = (case i of None \<Rightarrow> False | Some n \<Rightarrow> num_truthy n)"

definition same_id :: "jsnum option \<Rightarrow> jsnum option \<Rightarrow> bool" where
  "same_id a b = (case (a, b) of (None, None) \<Rightarrow> True | (Some x, Some y) \<Rightarrow> num_eq x y | _ \<Rightarrow> False)"

section \<open>Derived values\<close>

definition find_version :: "app_state \<Rightarrow> jsnum option \<Rightarrow> template_version_record option" where
  "find_version c i = find (\<lambda>v. same_id (Some (version_id v)) i) (templateVersions c)"

definition find_job :: "app_state \<Rightarrow> jsnum \<Rightarrow> job_record option" where
  "find_job c i = find (\<lambda>j. num_eq (job_id j) i) (jobs c)"

definition result_of_job :: "app_state \<Rightarrow> jsnum \<Rightarrow> result_envelope option" where
  "result_of_job c i = rec_get (resultsByJob c) i"

definition showMockProviderWarning :: "app_state \<Rightarrow> bool" where
  "showMockProviderWarning c \<longleftrightarrow>
     \<not> apiUnavailable c \<and> isBootstrapMockProvider (provider c) \<and> \<not> mockProviderWarningDismissed c"

definition selectedResultForExport :: "app_state \<Rightarrow> result_envelope option" where
  "selectedResultForExport c =
     (if id_truthy (selectedJobId c) then Option.bind (selectedJobId c) (result_of_job c) else None)"

definition exportBlocked :: "app_state \<Rightarrow> bool" where
  "exportBlocked c \<longleftrightarrow>
     require_review_cleared (exportPolicy c) \<and>
     (case selectedResultForExport c of
        None \<Rightarrow> False
      | Some r \<Rightarrow> length (fields_requiring_review (result_of r)) > 0 \<or> review_status (result_of r) = Some ''pending'')"

definition hasActiveJobs :: "app_state \<Rightarrow> bool" where
  "hasActiveJobs c \<longleftrightarrow> list_ex (\<lambda>j. job_status j = ''queued'' \<or> job_status j = ''running'') (jobs c)"

definition poll_interval_ms :: "app_state \<Rightarrow> nat" where
  "poll_interval_ms c = (if hasActiveJobs c then 2000 else 7000)"

definition currentTemplateDefinition :: "app_state \<Rightarrow> template_definition option" where
  "currentTemplateDefinition c = map_option definition_of (find_version c (selectedTemplateVersionId c))"

definition draftTemplateDefinition :: "app_state \<Rightarrow> template_definition" where
  "draftTemplateDefinition c =
     buildDraftTemplateDefinitionSafe (draftTemplate c) (provider c)
       (coalesce (currentTemplateDefinition c) starterTemplateDefinition)"

definition appliedLangExtractSuggestionKeys :: "(string \<Rightarrow> string \<Rightarrow> int) \<Rightarrow> app_state \<Rightarrow> string list" where
  "appliedLangExtractSuggestionKeys cmp c =
     js_set (sessionAppliedKeys c
       @ getAppliedLangExtractSuggestionKeys cmp (dt_examples (draftTemplate c)) (langextractFeedbackSuggestions c))"

definition reviewableResults :: "app_state \<Rightarrow> result_envelope list" where
  "reviewableResults c =
     filter (\<lambda>r. length (fields_requiring_review (result_of r)) > 0) (map snd (resultsByJob c))"

definition reviewCount :: "app_state \<Rightarrow> nat" where
  "reviewCount c = sum_list (map (\<lambda>r. length (fields_requiring_review (result_of r))) (reviewableResults c))"

definition workspaceBusy :: "app_state \<Rightarrow> bool" where
  "workspaceBusy c \<longleftrightarrow>
     busyAction c \<in> {Some ''upload'', Some ''run'', Some ''save-review''} \<or>
     (case busyAction c of None \<Rightarrow> False | Some b \<Rightarrow> prefix ''export-'' b)"

section \<open>Refreshing\<close>

definition refreshDesktopStatus :: "app_state \<Rightarrow> (app_state, unit) proc" where
  "refreshDesktopStatus c =
     (if \<not> tauriRuntime c then Update (\<lambda>s. s\<lparr>desktopStatus := None\<rparr>) (Return ())
      else catch
        (bind (invoke as_desktop ''get_desktop_status'') (\<lambda>r.
           Update (\<lambda>s. s\<lparr>desktopStatus := Some r\<rparr>) (Return ())))
        (\<lambda>_. Update (\<lambda>s. s\<lparr>desktopStatus := None\<rparr>) (Return ())))"

text \<open>The twelve requests of the refresh and their state updates; \<open>fulfilled\<close> is the settled value.\<close>

definition core_paths :: "string list" where
  "core_paths =
     [''/templates'', ''/documents'', ''/jobs'', ''/exports'', ''/settings/provider'', ''/settings/providers'',
      ''/settings/providers/health'', ''/settings/providers/controls'', ''/settings/parser-status'',
      ''/settings/providers/custom'', ''/dev/status'', ''/settings/export-policy'']"

definition fulfilled :: "(api_value \<Rightarrow> 'a option) \<Rightarrow> reply list \<Rightarrow> nat \<Rightarrow> 'a option" where
  "fulfilled as rs i = (case settle as (reply_at rs i) of Inl _ \<Rightarrow> None | Inr x \<Rightarrow> Some x)"

definition live_templates :: "reply list \<Rightarrow> template_summary list" where
  "live_templates rs = coalesce (fulfilled as_templates rs 0) []"

definition live_jobs :: "reply list \<Rightarrow> job_record list" where
  "live_jobs rs = coalesce (fulfilled as_jobs rs 2) []"

definition apply_core_data :: "reply list \<Rightarrow> app_state \<Rightarrow> app_state" where
  "apply_core_data rs s =
     s\<lparr>templates := live_templates rs,
       documents := coalesce (fulfilled as_documents rs 1) [],
       jobs := live_jobs rs,
       exportsList := coalesce (fulfilled as_exports rs 3) [],
       provider := coalesce (fulfilled as_provider rs 4) None,
       providerCatalog := coalesce (fulfilled as_catalog rs 5) [],
       providerHealth := from_entries (map (\<lambda>h. (health_key h, h)) (coalesce (coalesce (fulfilled as_healths rs 6) None) [])),
       providerControls := coalesce (fulfilled as_controls rs 7)
         \<lparr>custom_provider_probe_max_age_hours = DEFAULT_CUSTOM_PROVIDER_PROBE_MAX_AGE_HOURS\<rparr>,
       parserStatus := fulfilled as_parser rs 8,
       customProfiles := coalesce (coalesce (fulfilled as_profiles rs 9) None) [],
       devStatus := fulfilled as_dev rs 10,
       exportPolicy := coalesce (fulfilled as_policy rs 11) (exportPolicy s)\<rparr>"

definition get_json :: "string \<Rightarrow> request" where
  "get_json path = Http GET path NoBody"

definition path_with_id :: "string \<Rightarrow> jsnum \<Rightarrow> string \<Rightarrow> string" where
  "path_with_id a i b = a @ num_to_string i @ b"

definition load_versions :: "app_state \<Rightarrow> template_summary list \<Rightarrow> (app_state, unit) proc" where
  "load_versions c ts =
     (if ts \<noteq> [] then
        Request (map (\<lambda>t. get_json (path_with_id ''/templates/'' (template_id t) ''/versions'')) ts) (\<lambda>rs.
          Update (\<lambda>s. s\<lparr>templateVersions :=
              concat (map (\<lambda>i. coalesce (fulfilled as_versions rs i) []) [0..<length ts]),
              versionsStamp := Suc (versionsStamp s)\<rparr>)
          (if \<not> id_truthy (selectedTemplateId c)
           then Update (\<lambda>s. s\<lparr>selectedTemplateId := Some (template_id (hd ts))\<rparr>) (Return ())
           else Return ()))
      else Update (\<lambda>s. s\<lparr>templateVersions := []\<rparr>) (Return ()))"

definition completed_jobs :: "job_record list \<Rightarrow> job_record list" where
  "completed_jobs js = filter (\<lambda>j. job_status j = ''completed'') js"

definition result_entries :: "job_record list \<Rightarrow> reply list \<Rightarrow> (jsnum \<times> result_envelope) list" where
  "result_entries js rs =
     List.map_filter (\<lambda>(i, j). map_option (\<lambda>r. (job_id j, r)) (fulfilled as_envelope rs i)) (enumerate 0 js)"

definition load_results :: "app_state \<Rightarrow> job_record list \<Rightarrow> (app_state, unit) proc" where
  "load_results c js =
     Request (map (\<lambda>j. get_json (path_with_id ''/jobs/'' (job_id j) ''/result'')) (completed_jobs js)) (\<lambda>rs.
       Update (\<lambda>s. s\<lparr>resultsByJob := foldl (\<lambda>m (k, v). rec_put k v m) [] (result_entries (completed_jobs js) rs)\<rparr>)
       (Update (\<lambda>s. s\<lparr>coreDataState := CoreReady\<rparr>)
       (if id_truthy (selectedJobId c) \<and> \<not> list_ex (\<lambda>j. same_id (Some (job_id j)) (selectedJobId c)) js
        then Update (\<lambda>s. s\<lparr>selectedJobId := None, focusedFieldName := None\<rparr>) (Return ())
        else Return ())))"

definition refreshCoreData :: "app_state \<Rightarrow> (app_state, unit) proc" where
  "refreshCoreData c =
     bind (catch (bind (readJson as_any GET ''/health'' NoBody) (\<lambda>_. Return True)) (\<lambda>_. Return False)) (\<lambda>healthOk.
     Update (\<lambda>s. s\<lparr>apiUnavailable := \<not> healthOk\<rparr>)
     (if \<not> healthOk then
        Update (\<lambda>s. s\<lparr>devStatus := None, coreDataState := CoreUnavailable, resultsByJob := []\<rparr>) (Return ())
      else
        Request (map get_json core_paths) (\<lambda>rs.
          Update (apply_core_data rs)
          (bind (load_versions c (live_templates rs)) (\<lambda>_.
           load_results c (live_jobs rs))))))"

text \<open>The interval's callback, with the closure of the render that installed it.\<close>

definition poll_tick :: "app_state \<Rightarrow> (app_state, unit) proc list" where
  "poll_tick c = refreshCoreData c # (if tauriRuntime c then [refreshDesktopStatus c] else [])"

section \<open>Selecting a job and the address bar\<close>

definition syncJobSelection :: "app_state \<Rightarrow> jsnum \<Rightarrow> app_state \<Rightarrow> app_state" where
  "syncJobSelection c i s =
     (let job = find_job c i;
          version = find_version c (map_option job_version_id job);
          result = result_of_job c i;
          s1 = s\<lparr>selectedJobId := Some i,
                 address := replaceWorkspaceUrl
                   \<lparr>url_job_id = Some i, url_result_id = map_option result_id result,
                    url_status = jobStatusFilter c\<rparr> (address s)\<rparr>;
          s2 = (case job of
              None \<Rightarrow> s1
            | Some j \<Rightarrow>
                (let s' = s1\<lparr>selectedDocumentId := Some (job_document_id j)\<rparr>
                 in case version of
                      None \<Rightarrow> s'
                    | Some v \<Rightarrow> s'\<lparr>selectedTemplateId := Some (version_template_id v),
                                    selectedTemplateVersionId := Some (version_id v)\<rparr>))
      in case result of
           None \<Rightarrow> s2\<lparr>reviewDrafts := [], focusedFieldName := None\<rparr>
         | Some r \<Rightarrow> s2\<lparr>reviewDrafts := initial_review_drafts (result_of r) (map_option definition_of version),
                       focusedFieldName := (case fields_requiring_review (result_of r) of
                           x # _ \<Rightarrow> Some x
                         | [] \<Rightarrow> (case result_extracted (result_of r) of
                             f # _ \<Rightarrow> Some (field_name f) | [] \<Rightarrow> None))\<rparr>)"

definition handleSelectJob :: "app_state \<Rightarrow> jsnum \<Rightarrow> app_state \<Rightarrow> app_state" where
  "handleSelectJob c i s = (syncJobSelection c i (s\<lparr>workspaceSeeded := True\<rparr>))\<lparr>activePage := PageExtractions\<rparr>"

definition handleStartNewExtraction :: "app_state \<Rightarrow> app_state" where
  "handleStartNewExtraction s =
     s\<lparr>workspaceSeeded := True, selectedJobId := None, focusedFieldName := None, reviewDrafts := [],
       activePage := PageExtractions\<rparr>"

definition handleJobStatusFilterChange :: "app_state \<Rightarrow> string option \<Rightarrow> app_state \<Rightarrow> app_state" where
  "handleJobStatusFilterChange c status s =
     s\<lparr>jobStatusFilter := status,
       address := replaceWorkspaceUrl
         \<lparr>url_job_id = selectedJobId c, url_result_id = map_option result_id (selectedResultForExport c),
          url_status = status\<rparr> (address s)\<rparr>"

section \<open>Effects\<close>

definition effect_restore_flags :: "app_state \<Rightarrow> app_state" where
  "effect_restore_flags s =
     s\<lparr>desktopOnboardingDismissed :=
         (case localStorage s of None \<Rightarrow> False | Some st \<Rightarrow> getItem st DESKTOP_ONBOARDING_KEY = Some ''true''),
       mockProviderWarningDismissed := readMockProviderWarningDismissed (localStorage s)\<rparr>"

definition effect_persist_draft :: "app_state \<Rightarrow> app_state \<Rightarrow> app_state" where
  "effect_persist_draft c s =
     s\<lparr>localStorage := writePersistedCustomProviderDraft (customProviderDraft c) (localStorage s)\<rparr>"

definition matching_versions :: "app_state \<Rightarrow> template_version_record list" where
  "matching_versions c =
     filter (\<lambda>v. same_id (Some (version_template_id v)) (selectedTemplateId c)) (templateVersions c)"

definition effect_select_version :: "app_state \<Rightarrow> app_state \<Rightarrow> app_state" where
  "effect_select_version c s =
     (if \<not> id_truthy (selectedTemplateId c) \<or> templateVersions c = [] then s
      else if matching_versions c = [] then s
      else if \<not> id_truthy (selectedTemplateVersionId c)
           \<or> \<not> list_ex (\<lambda>v. same_id (Some (version_id v)) (selectedTemplateVersionId c)) (matching_versions c)
      then s\<lparr>selectedTemplateVersionId := Some (version_id (hd (matching_versions c)))\<rparr>
      else s)"

definition effect_select_document :: "app_state \<Rightarrow> app_state \<Rightarrow> app_state" where
  "effect_select_document c s =
     (if documents c = [] \<or> id_truthy (selectedDocumentId c) then s
      else s\<lparr>selectedDocumentId := Some (document_id (hd (documents c)))\<rparr>)"

definition effect_reset_draft :: "app_state \<Rightarrow> app_state \<Rightarrow> app_state" where
  "effect_reset_draft c s =
     (case currentTemplateDefinition c of
        None \<Rightarrow> s
      | Some d \<Rightarrow> s\<lparr>draftTemplate := buildDraftTemplateFromDefinition d, sessionAppliedKeys := [], dismissedKeys := []\<rparr>)"

text \<open>The dependency of that effect is the identity of the definition object.\<close>

definition definition_identity :: "app_state \<Rightarrow> (nat \<times> jsnum) option" where
  "definition_identity c =
     map_option (\<lambda>v. (versionsStamp c, version_id v)) (find_version c (selectedTemplateVersionId c))"

definition commit_reset_draft :: "app_state \<Rightarrow> app_state \<Rightarrow> app_state \<Rightarrow> app_state" where
  "commit_reset_draft before c s =
     (if definition_identity c \<noteq> definition_identity before then effect_reset_draft c s else s)"

definition url_target_job :: "app_state \<Rightarrow> workspace_url_state \<Rightarrow> jsnum option" where
  "url_target_job c u =
     or_else (url_job_id u)
       (if id_truthy (url_result_id u) then
          map_option job_id (find (\<lambda>j. case result_of_job c (job_id j) of
              None \<Rightarrow> False | Some r \<Rightarrow> same_id (Some (result_id r)) (url_result_id u)) (jobs c))
        else None)"

definition effect_url_seed :: "app_state \<Rightarrow> app_state \<Rightarrow> app_state" where
  "effect_url_seed c s =
     (let u = parseWorkspaceSearch (snd (address s));
          s1 = (if url_status u \<noteq> jobStatusFilter c then s\<lparr>jobStatusFilter := url_status u\<rparr> else s);
          target = url_target_job c u
      in if jobs c = [] \<or> workspaceSeeded c then s1
         else if id_truthy target \<and> \<not> same_id target (selectedJobId c)
         then (syncJobSelection c (the target) s1)\<lparr>workspaceSeeded := True\<rparr>
         else s1)"

definition prioritizedJob :: "app_state \<Rightarrow> job_record option" where
  "prioritizedJob c =
     or_else (find (\<lambda>j. case result_of_job c (job_id j) of
          None \<Rightarrow> False | Some r \<Rightarrow> length (fields_requiring_review (result_of r)) > 0) (jobs c))
     (or_else (find (\<lambda>j. job_status j = ''queued'' \<or> job_status j = ''running'') (jobs c))
        (case jobs c of [] \<Rightarrow> None | j # _ \<Rightarrow> Some j))"

definition effect_default_seed :: "app_state \<Rightarrow> app_state \<Rightarrow> app_state" where
  "effect_default_seed c s =
     (if workspaceSeeded c \<or> jobs c = [] then s
      else (case prioritizedJob c of
          None \<Rightarrow> s
        | Some j \<Rightarrow> syncJobSelection c (job_id j) s)\<lparr>workspaceSeeded := True\<rparr>)"

text \<open>Effects run after a commit, in the order of their declaration, all with the committed state as closure.\<close>

definition selection_effects :: "app_state \<Rightarrow> app_state" where
  "selection_effects c = effect_select_document c (effect_select_version c c)"

definition seed_effects :: "app_state \<Rightarrow> app_state" where
  "seed_effects c = effect_default_seed c (effect_url_seed c c)"

section \<open>LangExtract feedback\<close>

definition applyLangExtractFeedback :: "feedback_list_response \<Rightarrow> app_state \<Rightarrow> app_state" where
  "applyLangExtractFeedback f s =
     s\<lparr>langextractFeedbackSuggestions := response_suggestions f,
       langextractFeedbackDiagnostics := response_diagnostics f,
       langextractFeedbackStatus := FeedbackReady\<rparr>"

definition feedback_path :: "jsnum \<Rightarrow> string" where
  "feedback_path v = path_with_id ''/template-versions/'' v ''/langextract-feedback-suggestions''"

definition fetchLangExtractFeedbackSuggestions :: "jsnum \<Rightarrow> (app_state, feedback_list_response) proc" where
  "fetchLangExtractFeedbackSuggestions v = readJson as_feedback GET (feedback_path v) NoBody"

definition clear_feedback :: "feedback_status \<Rightarrow> app_state \<Rightarrow> app_state" where
  "clear_feedback st s =
     s\<lparr>langextractFeedbackSuggestions := [],
       langextractFeedbackDiagnostics := EMPTY_LANGEXTRACT_FEEDBACK_DIAGNOSTICS,
       langextractFeedbackStatus := st\<rparr>"

definition unless_cancelled :: "nat \<Rightarrow> (app_state \<Rightarrow> app_state) \<Rightarrow> app_state \<Rightarrow> app_state" where
  "unless_cancelled n u s = (if feedbackRun s = n then u s else s)"

definition feedback_load :: "jsnum \<Rightarrow> nat \<Rightarrow> (app_state, unit) proc" where
  "feedback_load v n =
     Update (\<lambda>s. s\<lparr>langextractFeedbackStatus := FeedbackLoading\<rparr>)
       (catch
         (bind (fetchLangExtractFeedbackSuggestions v) (\<lambda>f.
            Update (unless_cancelled n (applyLangExtractFeedback f)) (Return ())))
         (\<lambda>_. Update (unless_cancelled n (clear_feedback FeedbackError)) (Return ())))"

text \<open>The effect: its clean-up makes the next run the current one before the body starts.\<close>

definition effect_feedback :: "app_state \<Rightarrow> (app_state, unit) proc" where
  "effect_feedback c =
     Update (\<lambda>s. s\<lparr>feedbackRun := feedbackRun c + 1\<rparr>)
     (case (selectedTemplateVersionId c, currentTemplateDefinition c) of
        (Some v, Some d) \<Rightarrow>
          if num_truthy v \<and> isLangExtractProvider (Some (llm_provider_settings d))
          then feedback_load v (feedbackRun c + 1)
          else Update (clear_feedback FeedbackIdle) (Return ())
      | _ \<Rightarrow> Update (clear_feedback FeedbackIdle) (Return ()))"

definition openSchemaDraft :: "app_state \<Rightarrow> jsnum \<Rightarrow> app_state \<Rightarrow> app_state" where
  "openSchemaDraft c v s =
     (let s1 = (case find_version c (Some v) of
          Some t \<Rightarrow> s\<lparr>selectedTemplateId := Some (version_template_id t), selectedTemplateVersionId := Some (version_id t)\<rparr>
        | None \<Rightarrow> s\<lparr>selectedTemplateVersionId := Some v\<rparr>)
      in s1\<lparr>activePage := PageTemplates, banner := None\<rparr>)"

section \<open>Refreshing alone\<close>

definition health_request :: request where
  "health_request = get_json ''/health''"

definition health_ok :: "(history \<Rightarrow> request list \<Rightarrow> reply list) \<Rightarrow> bool" where
  "health_ok env \<longleftrightarrow> settle as_any (reply_at (env [] [health_request]) 0) = Inr ()"

definition after_health :: "(history \<Rightarrow> request list \<Rightarrow> reply list) \<Rightarrow> history" where
  "after_health env = [([health_request], env [] [health_request])]"

definition core_replies :: "(history \<Rightarrow> request list \<Rightarrow> reply list) \<Rightarrow> reply list" where
  "core_replies env = env (after_health env) (map get_json core_paths)"

lemma run_refresh:
  "run env (refreshCoreData c) [] s =
     (if health_ok env then
        run env (bind (load_versions c (live_templates (core_replies env))) (\<lambda>_.
                 load_results c (live_jobs (core_replies env))))
          (after_health env @ [(map get_json core_paths, core_replies env)])
          (apply_core_data (core_replies env) (s\<lparr>apiUnavailable := False\<rparr>))
      else (after_health env,
        s\<lparr>apiUnavailable := True, devStatus := None, coreDataState := CoreUnavailable, resultsByJob := []\<rparr>, Inr ()))"
proof (cases "settle as_any (reply_at (env [] [Http GET ''/health'' NoBody]) 0)")
  case (Inl a)
  then show ?thesis
    by (simp add: refreshCoreData_def run_simps health_ok_def after_health_def health_request_def get_json_def)
next
  case (Inr u)
  then show ?thesis
    by (simp add: refreshCoreData_def run_simps health_ok_def after_health_def health_request_def get_json_def
        core_replies_def)
qed

text \<open>
  When the health check fails, the refresh makes no other request, marks the API unavailable, drops
  the results and the development status, and leaves everything else as it was.
\<close>

theorem offline_refresh:
  assumes "\<not> health_ok env"
  shows "final_state env (refreshCoreData c) s =
     s\<lparr>apiUnavailable := True, devStatus := None, coreDataState := CoreUnavailable, resultsByJob := []\<rparr>
   \<and> requests_of (final_history env (refreshCoreData c) s) = [get_json ''/health'']"
  using assms
  by (simp add: final_state_def final_history_def run_refresh requests_of_def after_health_def health_request_def)

definition env_of :: "(request \<Rightarrow> reply) \<Rightarrow> history \<Rightarrow> request list \<Rightarrow> reply list" where
  "env_of server h qs = map server qs"

definition start_app :: app_state where
  "start_app = initial_app (Some []) (''/'', '''') False"

lemma offline_refresh_witness:
  "final_state (env_of (\<lambda>_. Rejected OtherThrown)) (refreshCoreData start_app) start_app =
     start_app\<lparr>apiUnavailable := True, devStatus := None, coreDataState := CoreUnavailable, resultsByJob := []\<rparr>"
proof -
  have "\<not> health_ok (env_of (\<lambda>_. Rejected OtherThrown))"
    by (simp add: health_ok_def env_of_def reply_at_def settle_def)
  from offline_refresh [OF this] show ?thesis by blast
qed

definition forget_job :: "app_state \<Rightarrow> job_record list \<Rightarrow> bool" where
  "forget_job c js \<longleftrightarrow>
     id_truthy (selectedJobId c) \<and> \<not> list_ex (\<lambda>j. same_id (Some (job_id j)) (selectedJobId c)) js"

definition results_from :: "job_record list \<Rightarrow> reply list \<Rightarrow> (jsnum \<times> result_envelope) list" where
  "results_from js rs = foldl (\<lambda>m (k, v). rec_put k v m) [] (result_entries (completed_jobs js) rs)"

lemma keep_selection:
  "s\<lparr>resultsByJob := r, coreDataState := d, selectedJobId := selectedJobId s, focusedFieldName := focusedFieldName s\<rparr>
     = s\<lparr>resultsByJob := r, coreDataState := d\<rparr>"
  by simp

lemma run_load_results:
  "\<exists>h' rs. run env (load_results c js) h s = (h',
     s\<lparr>resultsByJob := results_from js rs, coreDataState := CoreReady,
       selectedJobId := (if forget_job c js then None else selectedJobId s),
       focusedFieldName := (if forget_job c js then None else focusedFieldName s)\<rparr>, Inr ())"
proof -
  let ?qs = "map (\<lambda>j. get_json (path_with_id ''/jobs/'' (job_id j) ''/result'')) (completed_jobs js)"
  have "run env (load_results c js) h s = (h @ [(?qs, env h ?qs)],
     s\<lparr>resultsByJob := results_from js (env h ?qs), coreDataState := CoreReady,
       selectedJobId := (if forget_job c js then None else selectedJobId s),
       focusedFieldName := (if forget_job c js then None else focusedFieldName s)\<rparr>, Inr ())"
  proof (cases "forget_job c js")
    case True
    then show ?thesis unfolding load_results_def forget_job_def [symmetric] results_from_def by simp
  next
    case False
    then have "run env (load_results c js) h s = (h @ [(?qs, env h ?qs)],
        s\<lparr>resultsByJob := results_from js (env h ?qs), coreDataState := CoreReady\<rparr>, Inr ())"
      unfolding load_results_def forget_job_def [symmetric] results_from_def by simp
    with False show ?thesis by (simp add: keep_selection)
  qed
  then show ?thesis by blast
qed

lemma run_load_versions:
  "\<exists>h' vs st. run env (load_versions c ts) h s = (h',
     s\<lparr>templateVersions := vs, versionsStamp := st, selectedTemplateId :=
       (if ts \<noteq> [] \<and> \<not> id_truthy (selectedTemplateId c) then Some (template_id (hd ts)) else selectedTemplateId s)\<rparr>,
     Inr ()) \<and> (ts \<noteq> [] \<longrightarrow> st = Suc (versionsStamp s))"
proof (cases "ts = []")
  case True
  have "s\<lparr>templateVersions := []\<rparr> = s\<lparr>templateVersions := [], versionsStamp := versionsStamp s,
      selectedTemplateId := selectedTemplateId s\<rparr>" by simp
  with True show ?thesis by (auto simp: load_versions_def intro!: exI [of _ "versionsStamp s"])
next
  case False
  let ?qs = "map (\<lambda>t. get_json (path_with_id ''/templates/'' (template_id t) ''/versions'')) ts"
  let ?vs = "concat (map (\<lambda>i. coalesce (fulfilled as_versions (env h ?qs) i) []) [0..<length ts])"
  from False have "run env (load_versions c ts) h s = (h @ [(?qs, env h ?qs)],
     s\<lparr>templateVersions := ?vs, versionsStamp := Suc (versionsStamp s), selectedTemplateId :=
       (if ts \<noteq> [] \<and> \<not> id_truthy (selectedTemplateId c) then Some (template_id (hd ts)) else selectedTemplateId s)\<rparr>,
     Inr ())"
    by (cases "id_truthy (selectedTemplateId c)") (simp_all add: load_versions_def)
  then show ?thesis by blast
qed

definition refreshed ::
    "app_state \<Rightarrow> reply list \<Rightarrow> template_version_record list \<Rightarrow> nat \<Rightarrow> reply list \<Rightarrow> app_state \<Rightarrow> app_state" where
  "refreshed c rs vs st results s =
     (apply_core_data rs (s\<lparr>apiUnavailable := False\<rparr>))
       \<lparr>templateVersions := vs, versionsStamp := st,
        selectedTemplateId := (if live_templates rs \<noteq> [] \<and> \<not> id_truthy (selectedTemplateId c)
          then Some (template_id (hd (live_templates rs))) else selectedTemplateId s),
        resultsByJob := results_from (live_jobs rs) results,
        coreDataState := CoreReady,
        selectedJobId := (if forget_job c (live_jobs rs) then None else selectedJobId s),
        focusedFieldName := (if forget_job c (live_jobs rs) then None else focusedFieldName s)\<rparr>"

lemma online_refresh_state:
  assumes "health_ok env"
  shows "\<exists>vs st results. final_state env (refreshCoreData c) s = refreshed c (core_replies env) vs st results s
     \<and> (live_templates (core_replies env) \<noteq> [] \<longrightarrow> st = Suc (versionsStamp s))"
proof -
  let ?rs = "core_replies env"
  let ?s = "apply_core_data ?rs (s\<lparr>apiUnavailable := False\<rparr>)"
  let ?tid = "if live_templates ?rs \<noteq> [] \<and> \<not> id_truthy (selectedTemplateId c)
    then Some (template_id (hd (live_templates ?rs))) else selectedTemplateId ?s"
  obtain h1 vs st where v: "run env (load_versions c (live_templates ?rs)) (after_health env @ [(map get_json core_paths, ?rs)]) ?s
      = (h1, ?s\<lparr>templateVersions := vs, versionsStamp := st, selectedTemplateId := ?tid\<rparr>, Inr ())"
    and st: "live_templates ?rs \<noteq> [] \<longrightarrow> st = Suc (versionsStamp ?s)"
    using run_load_versions by blast
  let ?s1 = "?s\<lparr>templateVersions := vs, versionsStamp := st, selectedTemplateId := ?tid\<rparr>"
  obtain h2 results where r: "run env (load_results c (live_jobs ?rs)) h1 ?s1 = (h2,
     ?s1\<lparr>resultsByJob := results_from (live_jobs ?rs) results, coreDataState := CoreReady,
       selectedJobId := (if forget_job c (live_jobs ?rs) then None else selectedJobId ?s1),
       focusedFieldName := (if forget_job c (live_jobs ?rs) then None else focusedFieldName ?s1)\<rparr>, Inr ())"
    using run_load_results by blast
  have f: "selectedTemplateId ?s = selectedTemplateId s" "versionsStamp ?s = versionsStamp s"
    "selectedJobId ?s = selectedJobId s" "focusedFieldName ?s = focusedFieldName s"
    by (simp_all add: apply_core_data_def)
  have "final_state env (refreshCoreData c) s = refreshed c ?rs vs st results s"
    using assms v r f by (simp add: final_state_def run_refresh run_bind refreshed_def)
  with st f show ?thesis by auto
qed

lemma result_entry_job:
  assumes "(i, r) \<in> set (result_entries js rs)"
  shows "\<exists>j \<in> set js. job_id j = i"
proof -
  from assms obtain n j where "(n, j) \<in> set (enumerate 0 js)" "job_id j = i"
    by (auto simp: result_entries_def map_filter_def)
  then show ?thesis by (auto simp: in_set_enumerate_eq)
qed

lemma record_fold_get: "rec_get (foldl (\<lambda>m (k, v). rec_put k v m) [] es) k = map_of (rev es) k"
proof -
  have "distinct (map fst [])" by simp
  from record_by_number.get_fold [OF this, of es k] show ?thesis
    by (simp add: rec_get_def split: option.split)
qed


definition demo_template :: template_summary where
  "demo_template = \<lparr>template_id = Num 1, summary_name = ''A'', summary_description = '''', summary_document_type = '''',
     is_locked = False, latest_version = ''1'', summary_created_at = '''', summary_updated_at = ''''\<rparr>"

definition demo_version :: template_version_record where
  "demo_version = \<lparr>version_id = Num 11, version_template_id = Num 1, version_name = ''1'',
     definition_of = starterTemplateDefinition, version_created_at = ''''\<rparr>"

fun demo_server :: "request \<Rightarrow> reply" where
  "demo_server (Http GET path body) =
     (if path = ''/templates'' then Response True '''' (Some (VTemplates [demo_template]))
      else if path = ''/templates/1/versions'' then Response True '''' (Some (VVersions [demo_version]))
      else Response True '''' (Some VUnit))"
| "demo_server _ = Response False ''no'' None"

lemma demo_health: "health_ok (env_of demo_server)"
  by (simp add: health_ok_def env_of_def reply_at_def settle_def health_request_def get_json_def as_any_def)

lemma demo_live_templates: "live_templates (core_replies (env_of demo_server)) = [demo_template]"
  by (simp add: live_templates_def core_replies_def env_of_def core_paths_def get_json_def fulfilled_def reply_at_def settle_def)


text \<open>
  A refresh whose closure has no selected schema selects the first schema of the list, whatever the
  user has selected by now. The polling interval keeps the closure of the render that installed it.
\<close>

theorem poll_resets_selected_template:
  assumes "health_ok env" "live_templates (core_replies env) = t # ts" "\<not> id_truthy (selectedTemplateId c)"
  shows "selectedTemplateId (final_state env (refreshCoreData c) s) = Some (template_id t)"
  using online_refresh_state [OF assms(1), of c s] assms(2,3) by (auto simp: refreshed_def)

lemma poll_resets_selected_template_witness:
  "selectedTemplateId (final_state (env_of demo_server) (refreshCoreData start_app)
      (start_app\<lparr>selectedTemplateId := Some (Num 2)\<rparr>)) = Some (template_id demo_template)"
  by (rule poll_resets_selected_template [OF demo_health demo_live_templates])
    (simp add: start_app_def initial_app_def id_truthy_def)

text \<open>
  A refresh that finds schemas gives every definition a new identity, so the commit after it
  replaces the schema draft by the stored definition: edits the user has not saved are lost.
\<close>

theorem refresh_discards_draft_edits:
  assumes "health_ok env" "live_templates (core_replies env) \<noteq> []"
    and "currentTemplateDefinition (final_state env (refreshCoreData c) s) = Some d"
  shows "draftTemplate (commit_reset_draft s (final_state env (refreshCoreData c) s)
           (final_state env (refreshCoreData c) s)) = buildDraftTemplateFromDefinition d"
proof -
  let ?s = "final_state env (refreshCoreData c) s"
  from online_refresh_state [OF assms(1), of c s] assms(2) have "versionsStamp ?s = Suc (versionsStamp s)"
    by (auto simp: refreshed_def)
  moreover from assms(3) obtain v where "find_version ?s (selectedTemplateVersionId ?s) = Some v"
    by (auto simp: currentTemplateDefinition_def)
  ultimately have "definition_identity ?s \<noteq> definition_identity s"
    by (cases "find_version s (selectedTemplateVersionId s)") (simp_all add: definition_identity_def)
  with assms(3) show ?thesis by (simp add: commit_reset_draft_def effect_reset_draft_def)
qed

definition editing_app :: app_state where
  "editing_app = start_app\<lparr>selectedTemplateId := Some (Num 1), selectedTemplateVersionId := Some (Num 11),
     templateVersions := [demo_version],
     draftTemplate := (draftTemplate start_app)\<lparr>dt_template_name := ''half typed''\<rparr>\<rparr>"

lemma editing_refreshed:
  "currentTemplateDefinition (final_state (env_of demo_server) (refreshCoreData editing_app) editing_app)
     = Some starterTemplateDefinition"
proof -
  have one: "num_to_string (Num 1) = ''1''" by code_simp
  have "live_jobs (core_replies (env_of demo_server)) = []"
    by (simp add: live_jobs_def core_replies_def env_of_def core_paths_def get_json_def fulfilled_def reply_at_def
        settle_def)
  then show ?thesis
    by (simp add: final_state_def run_refresh demo_health demo_live_templates run_bind load_versions_def load_results_def
        env_of_def get_json_def path_with_id_def one demo_template_def fulfilled_def reply_at_def settle_def
        currentTemplateDefinition_def find_version_def apply_core_data_def editing_app_def start_app_def initial_app_def
        same_id_def num_eq_def demo_version_def id_truthy_def num_truthy_def del: num_to_string.simps)
qed

lemma refresh_discards_draft_edits_witness:
  "draftTemplate (commit_reset_draft editing_app
      (final_state (env_of demo_server) (refreshCoreData editing_app) editing_app)
      (final_state (env_of demo_server) (refreshCoreData editing_app) editing_app))
     = buildDraftTemplateFromDefinition starterTemplateDefinition"
  by (rule refresh_discards_draft_edits [OF demo_health _ editing_refreshed]) (simp add: demo_live_templates)

section \<open>Choosing what to show\<close>

lemma sync_selects:
  "selectedJobId (syncJobSelection c i s) = Some i"
  "find_job c i = Some j \<Longrightarrow> selectedDocumentId (syncJobSelection c i s) = Some (job_document_id j)"
  "address (syncJobSelection c i s) = replaceWorkspaceUrl
     \<lparr>url_job_id = Some i, url_result_id = map_option result_id (result_of_job c i), url_status = jobStatusFilter c\<rparr>
     (address s)"
  "jobs (syncJobSelection c i s) = jobs s" "templateVersions (syncJobSelection c i s) = templateVersions s"
  "resultsByJob (syncJobSelection c i s) = resultsByJob s" "busyAction (syncJobSelection c i s) = busyAction s"
  by (simp_all add: syncJobSelection_def Let_def split: option.split)

lemma sync_drafts:
  "result_of_job c i = Some r \<Longrightarrow> reviewDrafts (syncJobSelection c i s) =
     initial_review_drafts (result_of r) (map_option definition_of (find_version c (map_option job_version_id (find_job c i))))"
  "result_of_job c i = None \<Longrightarrow> reviewDrafts (syncJobSelection c i s) = []"
  by (simp_all add: syncJobSelection_def Let_def split: option.split)

lemma or_else_SomeE: "or_else x y = Some v \<Longrightarrow> (x = Some v \<Longrightarrow> P) \<Longrightarrow> (y = Some v \<Longrightarrow> P) \<Longrightarrow> P"
  by (cases x) auto

lemma prioritizedJob_in: "prioritizedJob c = Some j \<Longrightarrow> j \<in> set (jobs c)"
  unfolding prioritizedJob_def
  by (erule or_else_SomeE, force simp: find_Some_iff, erule or_else_SomeE, force simp: find_Some_iff)
    (auto split: list.splits)

lemma prioritizedJob_exists: "jobs c \<noteq> [] \<Longrightarrow> \<exists>j. prioritizedJob c = Some j"
  by (simp add: prioritizedJob_def not_None_eq [symmetric] del: not_None_eq split: list.split)

text \<open>
  C39: The job a link names is not the job the workspace opens: when the first jobs arrive, the effect that
  seeds the default selection runs after the one that reads the URL, in the same commit, and selects the
  prioritised job; the address bar is rewritten to that job.
\<close>

theorem deep_link_overridden:
  assumes "jobs c \<noteq> []" "\<not> workspaceSeeded c"
  shows "\<exists>j \<in> set (jobs c). prioritizedJob c = Some j
     \<and> selectedJobId (seed_effects c) = Some (job_id j)
     \<and> snd (address (seed_effects c)) = buildWorkspaceSearch
         \<lparr>url_job_id = Some (job_id j), url_result_id = map_option result_id (result_of_job c (job_id j)),
          url_status = jobStatusFilter c\<rparr>"
proof -
  from prioritizedJob_exists [OF assms(1)] obtain j where j: "prioritizedJob c = Some j" by blast
  with assms have "seed_effects c = (syncJobSelection c (job_id j) (effect_url_seed c c))\<lparr>workspaceSeeded := True\<rparr>"
    by (simp add: seed_effects_def effect_default_seed_def)
  with j prioritizedJob_in [OF j] show ?thesis by (auto simp: sync_selects replaceWorkspaceUrl_def)
qed

definition demo_job :: "nat \<Rightarrow> string \<Rightarrow> job_record" where
  "demo_job n status =
     \<lparr>job_id = Num (of_nat n), job_document_id = Num 5, job_version_id = Num 11, provider_override = None,
      job_status = status, error_message = None, progress_stage = None, progress_pct = None, attempt_count = None,
      job_created_at = '''', job_updated_at = ''''\<rparr>"

definition linked_app :: app_state where
  "linked_app = start_app\<lparr>jobs := [demo_job 2 ''completed'', demo_job 1 ''completed''], address := (''/'', ''?job=1'')\<rparr>"

lemma deep_link_overridden_witness:
  "url_job_id (parseWorkspaceSearch (snd (address linked_app))) = Some (Num 1)
   \<and> selectedJobId (seed_effects linked_app) = Some (Num 2)"
proof
  show "url_job_id (parseWorkspaceSearch (snd (address linked_app))) = Some (Num 1)"
    unfolding linked_app_def by code_simp
  have "prioritizedJob linked_app = Some (demo_job 2 ''completed'')"
    by (simp add: prioritizedJob_def linked_app_def start_app_def initial_app_def result_of_job_def rec_get_def
        demo_job_def)
  with deep_link_overridden [of linked_app] show "selectedJobId (seed_effects linked_app) = Some (Num 2)"
    by (simp add: linked_app_def start_app_def initial_app_def demo_job_def)
qed

lemma select_document_frame:
  "selectedTemplateId (effect_select_document c s) = selectedTemplateId s"
  "selectedTemplateVersionId (effect_select_document c s) = selectedTemplateVersionId s"
  "templateVersions (effect_select_document c s) = templateVersions s"
  by (simp_all add: effect_select_document_def)

lemma select_version_frame:
  "selectedDocumentId (effect_select_version c s) = selectedDocumentId s"
  "documents (effect_select_version c s) = documents s"
  "templateVersions (effect_select_version c s) = templateVersions s"
  "selectedTemplateId (effect_select_version c s) = selectedTemplateId s"
  by (simp_all add: effect_select_version_def)

text \<open>
  After the selection effects of a commit the selected schema version belongs to the selected schema,
  when that schema has a version, and a document is selected, when there is one.
  Running them again changes nothing, so no commit loops.
\<close>

theorem selection_effects_settle:
  assumes "id_truthy (selectedTemplateId c)" "matching_versions c \<noteq> []"
    and "\<forall>v \<in> set (templateVersions c). num_truthy (version_id v)"
    and "documents c \<noteq> []" "\<forall>d \<in> set (documents c). num_truthy (document_id d)"
  shows "(\<exists>v \<in> set (matching_versions c). same_id (Some (version_id v)) (selectedTemplateVersionId (selection_effects c)))
     \<and> id_truthy (selectedDocumentId (selection_effects c))
     \<and> selection_effects (selection_effects c) = selection_effects c"
proof -
  let ?s = "selection_effects c"
  let ?stays = "id_truthy (selectedTemplateVersionId c)
     \<and> list_ex (\<lambda>v. same_id (Some (version_id v)) (selectedTemplateVersionId c)) (matching_versions c)"
  from assms(2) have tv: "templateVersions c \<noteq> []" by (auto simp: matching_versions_def)
  have hd: "hd (matching_versions c) \<in> set (matching_versions c)" using assms(2) by simp
  then have hd': "hd (matching_versions c) \<in> set (templateVersions c)" by (simp add: matching_versions_def)
  with assms(3) have ok: "num_truthy (version_id (hd (matching_versions c)))" by blast
  have version: "selectedTemplateVersionId ?s
      = (if ?stays then selectedTemplateVersionId c else Some (version_id (hd (matching_versions c))))"
    using assms(1,2) tv by (auto simp: selection_effects_def select_document_frame effect_select_version_def)
  have found: "\<exists>v \<in> set (matching_versions c). same_id (Some (version_id v)) (selectedTemplateVersionId ?s)"
  proof (cases ?stays)
    case True
    then show ?thesis unfolding version by (auto simp: list_ex_iff)
  next
    case False
    have "same_id (Some (version_id (hd (matching_versions c)))) (Some (version_id (hd (matching_versions c))))"
      using ok by (auto simp: same_id_def num_eq_def num_truthy_def)
    with False hd show ?thesis unfolding version by auto
  qed
  have truthy: "id_truthy (selectedTemplateVersionId ?s)" using ok unfolding version by (auto simp: id_truthy_def)
  have doc: "id_truthy (selectedDocumentId ?s)"
    using assms(4,5) by (cases "documents c")
      (auto simp: selection_effects_def effect_select_document_def select_version_frame id_truthy_def)
  have frame: "selectedTemplateId ?s = selectedTemplateId c" "templateVersions ?s = templateVersions c"
    by (simp_all add: selection_effects_def select_document_frame select_version_frame)
  then have "matching_versions ?s = matching_versions c" by (simp add: matching_versions_def)
  with found truthy have "effect_select_version ?s ?s = ?s"
    by (auto simp: effect_select_version_def list_ex_iff)
  with doc have "selection_effects ?s = ?s" by (simp add: selection_effects_def [of ?s] effect_select_document_def [of ?s])
  with found doc show ?thesis by blast
qed

definition demo_document :: document_record where
  "demo_document = \<lparr>document_id = Num 5, original_filename = ''a.pdf'', content_type = '''', document_status = '''',
     document_created_at = ''''\<rparr>"

lemma selection_effects_settle_witness:
  "id_truthy (selectedDocumentId (selection_effects
     (start_app\<lparr>selectedTemplateId := Some (Num 1), templateVersions := [demo_version], documents := [demo_document]\<rparr>)))"
proof -
  let ?c = "start_app\<lparr>selectedTemplateId := Some (Num 1), templateVersions := [demo_version], documents := [demo_document]\<rparr>"
  have "id_truthy (selectedTemplateId ?c)" "matching_versions ?c \<noteq> []"
    "\<forall>v \<in> set (templateVersions ?c). num_truthy (version_id v)" "documents ?c \<noteq> []"
    "\<forall>d \<in> set (documents ?c). num_truthy (document_id d)"
    by (simp_all add: id_truthy_def num_truthy_def matching_versions_def demo_version_def same_id_def num_eq_def
        demo_document_def)
  from selection_effects_settle [OF this] show ?thesis by blast
qed

section \<open>Stale feedback\<close>

interpretation feedback: cancellable_load feedbackRun "feedback_load v"
proof
  fix n s
  show "\<exists>qs k. snd (advance (feedback_load v n) s) = Request qs k \<and>
    (\<forall>rs. all_updates (\<lambda>u. \<forall>s. feedbackRun s \<noteq> n \<longrightarrow> u s = s) (k rs))"
    by (auto simp: feedback_load_def fetchLangExtractFeedbackSuggestions_def readJson_def await_def unless_cancelled_def
        split: sum.split)
qed

text \<open>
  A feedback reply that arrives after the user switched to another schema version changes nothing:
  the suggestions shown are never those of a version that is no longer selected.
\<close>

theorem stale_feedback_ignored:
  assumes "snd (advance (feedback_load v n) s) = Request qs k" "feedbackRun t \<noteq> n" "advance (k rs) t = (t', p')"
  shows "t' = t"
  using assms by (rule feedback.stale_reply_ignored)

lemma stale_feedback_ignored_witness:
  "\<exists>qs k t' p'. snd (advance (feedback_load (Num 11) 1) start_app) = Request qs k
     \<and> advance (k [Rejected OtherThrown]) (start_app\<lparr>feedbackRun := 2\<rparr>) = (t', p')
     \<and> t' = start_app\<lparr>feedbackRun := 2\<rparr>"
proof -
  obtain qs k where k: "snd (advance (feedback_load (Num 11) 1) start_app) = Request qs k"
    by (simp add: feedback_load_def fetchLangExtractFeedbackSuggestions_def readJson_def await_def)
  obtain t' p' where r: "advance (k [Rejected OtherThrown]) (start_app\<lparr>feedbackRun := 2\<rparr>) = (t', p')"
    by (cases "advance (k [Rejected OtherThrown]) (start_app\<lparr>feedbackRun := 2\<rparr>)")
  from stale_feedback_ignored [OF k _ r] k r show ?thesis by auto
qed
end
