(* ===== verification/AppHandlers.thy ===== *)
theory AppHandlers
  imports AppState
begin

text \<open>
  The handlers of \<open>App\<close>. Each is a closure over the state \<open>c\<close> of the render that created it. All that
  talk to the API have one shape: set \<open>busyAction\<close>, await the requests, show a banner for success or for
  what was thrown, and reset \<open>busyAction\<close> in a \<open>finally\<close> block. The theorems say which requests a
  handler may make, in which order, and what the state is when it is done, whatever the replies and
  whatever other handlers do while it waits.
\<close>

text \<open>What the handlers read of the browser: number formatting, the clock, the date parser and the API base.\<close>

record host =
  locale_number :: "jsnum \<Rightarrow> string"
  date_now :: jsnum
  date_parse :: "string \<Rightarrow> jsnum"
  api_base :: string

section \<open>The shape of a handler\<close>

definition show_error :: "string \<Rightarrow> thrown \<Rightarrow> (app_state, unit) proc" where
  "show_error d e = Update (show_banner ToneError (error_message e d)) (Return ())"

definition succeed :: "string \<Rightarrow> (app_state, unit) proc" where
  "succeed m = Update (show_banner ToneSuccess m) (Return ())"

definition handled :: "string \<Rightarrow> string \<Rightarrow> (app_state, unit) proc \<Rightarrow> (app_state, unit) proc" where
  "handled b d body = finally_do (catch (Update (set_busy (Some b)) body) (show_error d)) (set_busy None)"

definition refuse :: "string \<Rightarrow> (app_state, unit) proc" where
  "refuse m = Update (show_banner ToneError m) (Return ())"

definition select_job_of :: "jsnum \<Rightarrow> app_state \<Rightarrow> app_state" where
  "select_job_of i s = s\<lparr>selectedJobId := Some i, focusedFieldName := None\<rparr>"

section \<open>Documents, jobs and schemas\<close>

definition handleSetExportPolicy :: "app_state \<Rightarrow> bool \<Rightarrow> (app_state, unit) proc" where
  "handleSetExportPolicy c require =
     handled ''save-export-policy'' ''Could not save export policy.''
       (bind (readJson as_policy PUT ''/settings/export-policy'' (PolicyBody require)) (\<lambda>updated.
        Update (\<lambda>s. s\<lparr>exportPolicy := updated\<rparr>)
        (succeed (if require then ''Exports now require cleared review.'' else ''Export review gate disabled.''))))"

definition handleUpload :: "app_state \<Rightarrow> string \<Rightarrow> (app_state, unit) proc" where
  "handleUpload c file =
     handled ''upload'' ''Upload failed.''
       (bind (uploadDocument file) (\<lambda>created.
        bind (refreshCoreData c) (\<lambda>_.
        Update (\<lambda>s. s\<lparr>selectedDocumentId := Some (document_id created), selectedJobId := None,
                      focusedFieldName := None, activePage := PageExtractions\<rparr>)
        (succeed (''Uploaded '' @ original_filename created @ ''.'')))))"

definition add_once :: "string \<Rightarrow> string list \<Rightarrow> string list" where
  "add_once k ks = (if k \<in> set ks then ks else ks @ [k])"

definition handleApplyLangExtractSuggestion :: "feedback_suggestion \<Rightarrow> app_state \<Rightarrow> app_state" where
  "handleApplyLangExtractSuggestion g s =
     show_banner ToneSuccess
       ''Added reviewed LangExtract example to the draft schema. Save a new schema version before future runs use it.''
       (s\<lparr>draftTemplate := (draftTemplate s)
            \<lparr>dt_examples := dt_examples (draftTemplate s) @ [buildDraftLangExtractExampleFromSuggestion g]\<rparr>,
          sessionAppliedKeys := add_once (suggestion_key g) (sessionAppliedKeys s)\<rparr>)"

definition dismissal_path :: "jsnum \<Rightarrow> string \<Rightarrow> string" where
  "dismissal_path v k = feedback_path v @ ''/'' @ k @ ''/dismissal''"

definition handleDismissLangExtractSuggestion :: "app_state \<Rightarrow> string \<Rightarrow> (app_state, unit) proc" where
  "handleDismissLangExtractSuggestion c k =
     (if \<not> id_truthy (selectedTemplateVersionId c) then Return ()
      else catch
        (bind (readJson as_any PUT (dismissal_path (the (selectedTemplateVersionId c)) k) (DismissalBody True)) (\<lambda>_.
         Update (\<lambda>s. s\<lparr>dismissedKeys := add_once k (dismissedKeys s)\<rparr>)
         (bind (fetchLangExtractFeedbackSuggestions (the (selectedTemplateVersionId c))) (\<lambda>f.
          Update (applyLangExtractFeedback f)
          (succeed ''Dismissed reviewed LangExtract suggestion.'')))))
        (show_error ''Could not dismiss LangExtract suggestion.''))"

definition default_provider :: "app_state \<Rightarrow> provider_settings option" where
  "default_provider c =
     (case provider c of Some p \<Rightarrow> if is_persisted_default p = Some True then Some p else None | None \<Rightarrow> None)"

definition run_blocked :: "app_state \<Rightarrow> string option" where
  "run_blocked c =
     (if \<not> id_truthy (selectedDocumentId c) \<or> \<not> id_truthy (selectedTemplateVersionId c)
      then Some ''Select a document and schema version before running extraction.''
      else case find_version c (selectedTemplateVersionId c) of
          None \<Rightarrow> None
        | Some v \<Rightarrow> getLangExtractExtractionReadiness (definition_of v)
            (if isLangExtractProvider (default_provider c) then default_provider c else None))"

definition handleRunExtraction :: "app_state \<Rightarrow> (app_state, unit) proc" where
  "handleRunExtraction c =
     (case run_blocked c of
        Some m \<Rightarrow> refuse m
      | None \<Rightarrow> handled ''run'' ''Could not queue extraction.''
          (bind (readJson as_job POST ''/jobs''
             (JobBody (the (selectedDocumentId c)) (the (selectedTemplateVersionId c)) (default_provider c))) (\<lambda>created.
           bind (refreshCoreData c) (\<lambda>_.
           Update (\<lambda>s. (select_job_of (job_id created) s)\<lparr>activePage := PageExtractions\<rparr>)
           (succeed ''Extraction job queued in the active workspace.'')))))"

definition handleCreateTemplate :: "app_state \<Rightarrow> (app_state, unit) proc" where
  "handleCreateTemplate c =
     handled ''save-template'' ''Could not save schema.''
       (bind (lift_result (buildTemplatePayload (draftTemplate c) (provider c)
           (Some (coalesce (currentTemplateDefinition c) starterTemplateDefinition)))) (\<lambda>d.
        bind (readJson as_any POST ''/templates''
          (TemplateBody (dt_template_name (draftTemplate c)) (dt_description (draftTemplate c))
             (dt_document_type (draftTemplate c)) d)) (\<lambda>_.
        bind (refreshCoreData c) (\<lambda>_.
        succeed (''Saved schema \"'' @ dt_template_name (draftTemplate c) @ ''\".'')))))"

section \<open>Reviews\<close>

definition review_path :: "jsnum \<Rightarrow> string" where
  "review_path r = path_with_id ''/results/'' r ''/review''"

definition selected_version_id :: "app_state \<Rightarrow> jsnum \<Rightarrow> jsnum option" where
  "selected_version_id c i = map_option job_version_id (find_job c i)"

definition selected_definition :: "app_state \<Rightarrow> jsnum \<Rightarrow> template_definition option" where
  "selected_definition c i = map_option definition_of (find_version c (selected_version_id c i))"

definition review_edits :: "host \<Rightarrow> app_state \<Rightarrow> jsnum \<Rightarrow> result_envelope \<Rightarrow> bool \<Rightarrow> review_edit list result" where
  "review_edits w c i e approveOnly =
     (if approveOnly then Inr []
      else buildReviewEditsForResult (locale_number w) (reviewDrafts c) (result_of e) (selected_definition c i))"

definition first_focus :: "result_payload \<Rightarrow> string option" where
  "first_focus r =
     (case fields_requiring_review r of
        x # _ \<Rightarrow> Some x
      | [] \<Rightarrow> (case result_extracted r of f # _ \<Rightarrow> Some (field_name f) | [] \<Rightarrow> None))"

definition store_review ::
    "app_state \<Rightarrow> jsnum \<Rightarrow> result_envelope \<Rightarrow> result_payload \<Rightarrow> app_state \<Rightarrow> app_state" where
  "store_review c i e updated s =
     s\<lparr>resultsByJob := rec_put i \<lparr>result_id = result_id e, result_job_id = i,
          result_of = updated\<lparr>review_status := Some ''reviewed''\<rparr>\<rparr> (resultsByJob s),
       reviewDrafts := initial_review_drafts updated (selected_definition c i),
       focusedFieldName := first_focus updated\<rparr>"

definition suggestions_banner :: "feedback_list_response \<Rightarrow> jsnum \<Rightarrow> app_state \<Rightarrow> app_state" where
  "suggestions_banner f v s =
     s\<lparr>banner := Some \<lparr>banner_tone = ToneSuccess,
          banner_message = (if length (response_suggestions f) = 1
            then ''Review saved and formulas recalculated. 1 reusable grounded example is ready for this schema.''
            else ''Review saved and formulas recalculated. '' @ num_to_string (num_of_nat (length (response_suggestions f)))
              @ '' reusable grounded examples are ready for this schema.''),
          banner_action = Some (''Open schema draft'', v)\<rparr>\<rparr>"

definition review_saved :: "(app_state, unit) proc" where
  "review_saved = succeed ''Review saved and formulas recalculated.''"

definition review_feedback :: "app_state \<Rightarrow> jsnum \<Rightarrow> (app_state, unit) proc" where
  "review_feedback c i =
     (case (selected_version_id c i, find_version c (selected_version_id c i)) of
        (Some v, Some record) \<Rightarrow>
          if num_truthy v \<and> isLangExtractProvider (Some (llm_provider_settings (definition_of record)))
          then bind (fetchLangExtractFeedbackSuggestions v) (\<lambda>f.
            (if same_id (selectedTemplateVersionId c) (Some v)
             then Update (applyLangExtractFeedback f) else id)
            (if response_suggestions f \<noteq> [] then Update (suggestions_banner f v) (Return ()) else review_saved))
          else review_saved
      | _ \<Rightarrow> review_saved)"

definition submitReview :: "host \<Rightarrow> app_state \<Rightarrow> jsnum option \<Rightarrow> bool \<Rightarrow> (app_state, unit) proc" where
  "submitReview w c minimum approveOnly =
     (case (if id_truthy (selectedJobId c) then selectedJobId c else None) of
        None \<Rightarrow> Return ()
      | Some i \<Rightarrow>
        (case result_of_job c i of
           None \<Rightarrow> Return ()
         | Some e \<Rightarrow> handled ''save-review'' ''Could not save review.''
             (bind (lift_result (review_edits w c i e approveOnly)) (\<lambda>edits.
              bind (readJson as_result POST (review_path (result_id e)) (ReviewBody ''local-ui'' edits True minimum)) (\<lambda>updated.
              Update (store_review c i e updated)
              (bind (refreshCoreData c) (\<lambda>_. review_feedback c i)))))))"

definition handleSaveReview :: "host \<Rightarrow> app_state \<Rightarrow> (app_state, unit) proc" where
  "handleSaveReview w c = submitReview w c None False"

definition handleApproveAllReview :: "host \<Rightarrow> app_state \<Rightarrow> (app_state, unit) proc" where
  "handleApproveAllReview w c = submitReview w c None True"

definition handleApproveHighConfidenceReview :: "host \<Rightarrow> app_state \<Rightarrow> (app_state, unit) proc" where
  "handleApproveHighConfidenceReview w c = submitReview w c (Some REVIEW_HIGH_CONFIDENCE_MIN) True"

section \<open>Retrying, cancelling and exporting\<close>

definition job_path :: "jsnum \<Rightarrow> string \<Rightarrow> string" where
  "job_path i action = path_with_id ''/jobs/'' i (''/'' @ action)"

definition handleRetryJob :: "app_state \<Rightarrow> (app_state, unit) proc" where
  "handleRetryJob c =
     (if \<not> id_truthy (selectedJobId c) then Return ()
      else handled ''retry-job'' ''Could not retry extraction job.''
        (bind (readJson as_job POST (job_path (the (selectedJobId c)) ''retry'') NoBody) (\<lambda>retried.
         bind (refreshCoreData c) (\<lambda>_.
         Update (select_job_of (job_id retried))
         (succeed ''Failed extraction re-queued. Progress will update here.'')))))"

definition handleCancelJob :: "app_state \<Rightarrow> (app_state, unit) proc" where
  "handleCancelJob c =
     (if \<not> id_truthy (selectedJobId c) then Return ()
      else handled ''cancel-job'' ''Could not cancel job.''
        (bind (readJson as_any POST (job_path (the (selectedJobId c)) ''cancel'') NoBody) (\<lambda>_.
         bind (refreshCoreData c) (\<lambda>_. succeed ''Extraction job cancelled.''))))"

datatype export_kind = ExportJson | ExportCsv | ExportExcel

primrec export_name :: "export_kind \<Rightarrow> string" where
  "export_name ExportJson = ''json''"
| "export_name ExportCsv = ''csv''"
| "export_name ExportExcel = ''excel''"

primrec export_title :: "export_kind \<Rightarrow> string" where
  "export_title ExportJson = ''JSON''"
| "export_title ExportCsv = ''CSV''"
| "export_title ExportExcel = ''EXCEL''"

definition export_path :: "jsnum \<Rightarrow> export_kind \<Rightarrow> string" where
  "export_path r k = path_with_id ''/results/'' r (''/exports/'' @ export_name k)"

definition handleExport :: "host \<Rightarrow> app_state \<Rightarrow> export_kind \<Rightarrow> (app_state, unit) proc" where
  "handleExport w c k =
     (case selectedResultForExport c of
        None \<Rightarrow> Return ()
      | Some e \<Rightarrow> handled (''export-'' @ export_name k) ''Could not generate export.''
          (bind (readJson as_receipt POST (export_path (result_id e) k) NoBody) (\<lambda>payload.
           Update (\<lambda>s. s\<lparr>openedWindows := openedWindows s
             @ [api_base w @ path_with_id ''/exports/'' (receipt_id payload) ''/download'']\<rparr>)
           (bind (refreshCoreData c) (\<lambda>_.
            succeed (case receipt_sha256 payload of
                Some hash \<Rightarrow> if hash \<noteq> []
                  then ''Generated '' @ export_title k @ '' export. SHA-256 '' @ take 12 hash @ ellipsis
                  else ''Generated '' @ export_title k @ '' export.''
              | None \<Rightarrow> ''Generated '' @ export_title k @ '' export.''))))))"

section \<open>Providers\<close>

definition handleSetProvider :: "provider_settings \<Rightarrow> (app_state, unit) proc" where
  "handleSetProvider next =
     handled ''save-provider'' ''Could not save provider settings.''
       (bind (readJson as_any PUT ''/settings/provider'' (SettingsBody next)) (\<lambda>_.
        Update (\<lambda>s. s\<lparr>provider := Some next\<rparr>)
        (succeed (''Default provider set to '' @ provider_type next @ '' ('' @ model next @ '').''))))"

definition probe_request :: "provider_settings \<Rightarrow> request" where
  "probe_request settings = Http POST ''/settings/providers/probe'' (SettingsBody settings)"

definition runProviderProbe :: "string \<Rightarrow> string \<Rightarrow> provider_settings \<Rightarrow> (app_state, provider_probe option) proc" where
  "runProviderProbe key label settings =
     finally_do
       (catch
         (Update (set_busy (Some (''probe-'' @ key)))
           (bind (await as_probe (probe_request settings)) (\<lambda>r.
            Update (\<lambda>s. s\<lparr>probeResults := obj_put key r (probeResults s)\<rparr>)
            (Update (show_banner (if reachable r then ToneSuccess else ToneError) (label @ '': '' @ probe_detail r))
            (Return (Some r))))))
         (\<lambda>e. Update (show_banner ToneError (error_message e ''Could not probe provider.'')) (Return None)))
       (set_busy None)"

definition ensureProviderProbeReachable ::
    "string \<Rightarrow> string \<Rightarrow> provider_settings \<Rightarrow> string \<Rightarrow> (app_state, bool) proc" where
  "ensureProviderProbeReachable key label settings blockedAction =
     bind (runProviderProbe key label settings) (\<lambda>r.
       if (case r of Some p \<Rightarrow> reachable p | None \<Rightarrow> False) then Return True
       else Update (show_banner ToneError (blockedAction @ '' blocked until provider probe succeeds.''
              @ (case r of Some p \<Rightarrow> '' '' @ probe_detail p | None \<Rightarrow> '''')))
            (Return False))"

definition handleProbeProvider :: "catalog_entry \<Rightarrow> (app_state, unit) proc" where
  "handleProbeProvider entry =
     bind (runProviderProbe (entry_key entry) (entry_label entry) (entry_settings entry)) (\<lambda>_. Return ())"

definition unless_invalid :: "app_state \<Rightarrow> (app_state, unit) proc \<Rightarrow> (app_state, unit) proc" where
  "unless_invalid c p =
     (case validateCustomProviderDraft (customProviderDraft c) of Some m \<Rightarrow> refuse m | None \<Rightarrow> p)"

definition handleSetCustomProvider :: "app_state \<Rightarrow> (app_state, unit) proc" where
  "handleSetCustomProvider c =
     unless_invalid c (handleSetProvider (buildCustomProviderSettings (customProviderDraft c)))"

definition CUSTOM_PROVIDER_KEY :: string where
  "CUSTOM_PROVIDER_KEY = CUSTOM_PROVIDER_DRAFT_STORAGE_KEY"

definition handleProbeCustomProvider :: "app_state \<Rightarrow> (app_state, unit) proc" where
  "handleProbeCustomProvider c =
     unless_invalid c
       (bind (runProviderProbe CUSTOM_PROVIDER_KEY (str_or (Some (cd_label (customProviderDraft c))) ''Custom provider'')
          (buildCustomProviderSettings (customProviderDraft c))) (\<lambda>_. Return ()))"

definition profile_path :: "string \<Rightarrow> string" where
  "profile_path i = ''/settings/providers/custom/'' @ i"

definition save_profile_request :: "app_state \<Rightarrow> (app_state, unit) proc" where
  "save_profile_request c =
     (let body = ProfileBody (trim (cd_label (customProviderDraft c))) (buildCustomProviderSettings (customProviderDraft c))
      in case selectedCustomProfileId c of
           Some (x # i) \<Rightarrow> bind (readJson as_any PUT (profile_path (x # i)) body) (\<lambda>_. Return ())
         | _ \<Rightarrow> bind (readJson as_profile POST ''/settings/providers/custom'' body) (\<lambda>created.
             Update (\<lambda>s. s\<lparr>selectedCustomProfileId := Some (profile_id created)\<rparr>) (Return ())))"

definition handleSaveCustomProfile :: "app_state \<Rightarrow> (app_state, unit) proc" where
  "handleSaveCustomProfile c =
     unless_invalid c
       (let settings = buildCustomProviderSettings (customProviderDraft c);
            name = trim (cd_label (customProviderDraft c))
        in bind (ensureProviderProbeReachable (coalesce (selectedCustomProfileId c) CUSTOM_PROVIDER_KEY)
              (str_or (Some name) ''Custom provider'') settings ''Custom provider save'') (\<lambda>passed.
            if \<not> passed then Return ()
            else handled ''save-custom-profile'' ''Could not save custom provider profile.''
              (bind (save_profile_request c) (\<lambda>_.
               bind (refreshCoreData c) (\<lambda>_.
               succeed (''Saved custom provider profile \"'' @ name @ ''\".''))))))"

definition handleLoadCustomProfile :: "custom_profile \<Rightarrow> app_state \<Rightarrow> app_state" where
  "handleLoadCustomProfile p s =
     show_banner ToneSuccess (''Loaded custom provider profile \"'' @ profile_name p @ ''\" into the form.'')
       (s\<lparr>customProviderDraft := buildCustomProviderDraftFromSettings (profile_settings p),
          selectedCustomProfileId := Some (profile_id p)\<rparr>)"

definition handleReverifyCustomProfile :: "app_state \<Rightarrow> custom_profile \<Rightarrow> (app_state, unit) proc" where
  "handleReverifyCustomProfile c p =
     handled (''reverify-'' @ profile_id p) ''Could not reverify custom provider profile.''
       (bind (readJson as_profile POST (profile_path (profile_id p @ ''/reverify'')) NoBody) (\<lambda>updated.
        Update (\<lambda>s. s\<lparr>probeResults := obj_put (''profile-'' @ profile_id p)
          \<lparr>probe_provider_type = provider_type (profile_settings updated), reachable = True,
           probe_status = coalesce (last_probe_status updated) ''reachable'',
           probe_detail = coalesce (last_probe_detail updated) ''Endpoint responded with HTTP 200.'',
           probe_endpoint = None, probe_status_code = None\<rparr> (probeResults s)\<rparr>)
        (bind (refreshCoreData c) (\<lambda>_.
         succeed (''Reverified custom provider profile \"'' @ profile_name p @ ''\".'')))))"

definition probe_max_age :: "app_state \<Rightarrow> jsnum" where
  "probe_max_age c =
     (let hours = custom_provider_probe_max_age_hours (providerControls c)
      in if num_truthy hours then hours else DEFAULT_CUSTOM_PROVIDER_PROBE_MAX_AGE_HOURS)"

definition profile_stale :: "host \<Rightarrow> app_state \<Rightarrow> custom_profile \<Rightarrow> bool" where
  "profile_stale w c p = customProviderProfileProbeIsStale (date_now w) (date_parse w) p (probe_max_age c)"

definition activate_path :: "custom_profile \<Rightarrow> string" where
  "activate_path p = profile_path (profile_id p @ ''/activate'')"

definition handleActivateCustomProfile :: "host \<Rightarrow> app_state \<Rightarrow> custom_profile \<Rightarrow> (app_state, unit) proc" where
  "handleActivateCustomProfile w c p =
     (if profile_stale w c p
      then refuse (''Custom provider activation blocked until \"'' @ profile_name p
        @ ''\" is reverified. The last successful probe is missing or older than ''
        @ num_to_string (probe_max_age c) @ '' hours.'')
      else bind (ensureProviderProbeReachable (''profile-'' @ profile_id p) (profile_name p) (profile_settings p)
              ''Custom provider activation'') (\<lambda>passed.
        if \<not> passed then Return ()
        else handled (''activate-'' @ profile_id p) ''Could not activate custom provider profile.''
          (bind (await as_provider (Http POST (activate_path p) NoBody)) (\<lambda>activated.
           Update (\<lambda>s. s\<lparr>provider := activated\<rparr>)
           (bind (refreshCoreData c) (\<lambda>_.
            succeed (''Activated custom provider profile \"'' @ profile_name p @ ''\" as default.'')))))))"

definition handleDeleteCustomProfile :: "app_state \<Rightarrow> custom_profile \<Rightarrow> (app_state, unit) proc" where
  "handleDeleteCustomProfile c p =
     handled (''delete-'' @ profile_id p) ''Could not delete custom provider profile.''
       (bind (readJson as_any DELETE (profile_path (profile_id p)) NoBody) (\<lambda>_.
        (if selectedCustomProfileId c = Some (profile_id p)
         then Update (\<lambda>s. s\<lparr>selectedCustomProfileId := None\<rparr>) else id)
        (bind (refreshCoreData c) (\<lambda>_.
         succeed (''Deleted custom provider profile \"'' @ profile_name p @ ''\".'')))))"

section \<open>The desktop shell\<close>

definition desktop_command ::
    "app_state \<Rightarrow> string \<Rightarrow> string \<Rightarrow> string \<Rightarrow> string \<Rightarrow> (app_state, unit) proc" where
  "desktop_command c busy command done failed =
     (if \<not> tauriRuntime c then Return ()
      else handled busy failed
        (bind (invoke as_desktop command) (\<lambda>r.
         Update (\<lambda>s. s\<lparr>desktopStatus := Some r\<rparr>)
         (bind (refreshCoreData c) (\<lambda>_. succeed done)))))"

definition handleDesktopStart :: "app_state \<Rightarrow> (app_state, unit) proc" where
  "handleDesktopStart c = desktop_command c ''desktop-start'' ''start_local_stack''
     ''Local backend stack started from the desktop shell.'' ''Could not start local stack.''"

definition handleDesktopStop :: "app_state \<Rightarrow> (app_state, unit) proc" where
  "handleDesktopStop c = desktop_command c ''desktop-stop'' ''stop_local_stack''
     ''Local backend stack stopped from the desktop shell.'' ''Could not stop local stack.''"

definition handleDesktopRestart :: "app_state \<Rightarrow> (app_state, unit) proc" where
  "handleDesktopRestart c = desktop_command c ''desktop-restart'' ''restart_local_stack''
     ''Local backend stack restarted from the desktop shell.'' ''Could not restart local stack.''"

definition desktop_open :: "app_state \<Rightarrow> string \<Rightarrow> string \<Rightarrow> string \<Rightarrow> string \<Rightarrow> (app_state, unit) proc" where
  "desktop_open c busy command done failed =
     (if \<not> tauriRuntime c then Return ()
      else handled busy failed (bind (invoke as_any command) (\<lambda>_. succeed done)))"

definition handleDesktopOpenProjectRoot :: "app_state \<Rightarrow> (app_state, unit) proc" where
  "handleDesktopOpenProjectRoot c = desktop_open c ''desktop-open-root'' ''open_project_root''
     ''Opened the ExtractFlow project root from the desktop shell.'' ''Could not open the project root.''"

definition handleDesktopOpenAppDataDir :: "app_state \<Rightarrow> (app_state, unit) proc" where
  "handleDesktopOpenAppDataDir c = desktop_open c ''desktop-open-data'' ''open_app_data_dir''
     ''Opened the ExtractFlow desktop data directory.'' ''Could not open the app data directory.''"

definition handleDesktopLoadLogs :: "app_state \<Rightarrow> (app_state, unit) proc" where
  "handleDesktopLoadLogs c =
     (if \<not> tauriRuntime c then Return ()
      else handled ''desktop-logs'' ''Could not load backend logs.''
        (bind (invoke as_logs ''get_backend_logs'') (\<lambda>r.
         Update (\<lambda>s. s\<lparr>desktopLogs := Some r\<rparr>)
         (succeed ''Loaded backend logs from the desktop shell.''))))"

definition dismissDesktopOnboarding :: "app_state \<Rightarrow> app_state" where
  "dismissDesktopOnboarding s =
     s\<lparr>localStorage := map_option (setItem DESKTOP_ONBOARDING_KEY ''true'') (localStorage s),
       desktopOnboardingDismissed := True\<rparr>"

section \<open>Events of the page\<close>

text \<open>Changes that a click, a keystroke or an effect makes at once.\<close>

definition setReviewDraft :: "string \<Rightarrow> string \<Rightarrow> app_state \<Rightarrow> app_state" where
  "setReviewDraft name v s = s\<lparr>reviewDrafts := obj_put name v (reviewDrafts s)\<rparr>"

definition dismissMockWarning :: "app_state \<Rightarrow> app_state" where
  "dismissMockWarning s =
     s\<lparr>localStorage := dismissMockProviderWarning (localStorage s), mockProviderWarningDismissed := True\<rparr>"

definition openAuditJob :: "app_state \<Rightarrow> jsnum \<Rightarrow> app_state \<Rightarrow> app_state" where
  "openAuditJob c i s =
     (let s' = handleSelectJob c i s
      in s'\<lparr>address := replaceWorkspaceUrl
              \<lparr>url_job_id = Some i, url_result_id = map_option result_id (result_of_job c i),
               url_status = jobStatusFilter c\<rparr> (address s')\<rparr>)"

inductive local_change :: "app_state \<Rightarrow> app_state \<Rightarrow> bool" where
  page: "local_change s (s\<lparr>activePage := p\<rparr>)"
| dismiss_banner: "local_change s (s\<lparr>banner := None\<rparr>)"
| dismiss_mock: "local_change s (dismissMockWarning s)"
| dismiss_onboarding: "local_change s (dismissDesktopOnboarding s)"
| review_draft: "local_change s (setReviewDraft n v s)"
| focus: "local_change s (s\<lparr>focusedFieldName := f\<rparr>)"
| pick_document: "local_change s (s\<lparr>selectedDocumentId := i\<rparr>)"
| pick_template: "local_change s (s\<lparr>selectedTemplateId := i\<rparr>)"
| pick_version: "local_change s (s\<lparr>selectedTemplateVersionId := i\<rparr>)"
| edit_template: "local_change s (s\<lparr>draftTemplate := d\<rparr>)"
| edit_provider: "local_change s (s\<lparr>customProviderDraft := cd\<rparr>)"
| select_job: "local_change s (handleSelectJob c i s)"
| start_new: "local_change s (handleStartNewExtraction s)"
| status_filter: "local_change s (handleJobStatusFilterChange c st s)"
| audit_job: "local_change s (openAuditJob c i s)"
| load_profile: "local_change s (handleLoadCustomProfile p s)"
| apply_suggestion: "local_change s (handleApplyLangExtractSuggestion g s)"
| open_schema: "local_change s (openSchemaDraft c v s)"
| flags: "local_change s (effect_restore_flags s)"
| persist: "local_change s (effect_persist_draft c s)"
| version_effect: "local_change s (effect_select_version c s)"
| document_effect: "local_change s (effect_select_document c s)"
| draft_effect: "local_change s (effect_reset_draft c s)"
| url_effect: "local_change s (effect_url_seed c s)"
| seed_effect: "local_change s (effect_default_seed c s)"

text \<open>The asynchronous handlers and effects; a closure may be older than the state it runs in.\<close>

inductive app_event :: "host \<Rightarrow> app_state \<Rightarrow> (app_state, unit) proc \<Rightarrow> bool" for w where
  refresh: "app_event w s (refreshCoreData c)"
| refresh_desktop: "app_event w s (refreshDesktopStatus c)"
| load_feedback: "app_event w s (effect_feedback c)"
| dismiss_suggestion: "app_event w s (handleDismissLangExtractSuggestion c k)"
| set_policy: "app_event w s (handleSetExportPolicy c b)"
| upload: "app_event w s (handleUpload c f)"
| run_job: "app_event w s (handleRunExtraction c)"
| create_template: "app_event w s (handleCreateTemplate c)"
| save_review: "app_event w s (handleSaveReview w c)"
| approve_all: "app_event w s (handleApproveAllReview w c)"
| approve_confident: "app_event w s (handleApproveHighConfidenceReview w c)"
| retry: "app_event w s (handleRetryJob c)"
| cancel: "app_event w s (handleCancelJob c)"
| export_result: "app_event w s (handleExport w c k)"
| set_provider: "app_event w s (handleSetProvider p)"
| probe: "app_event w s (handleProbeProvider e)"
| set_custom: "app_event w s (handleSetCustomProvider c)"
| probe_custom: "app_event w s (handleProbeCustomProvider c)"
| save_profile: "app_event w s (handleSaveCustomProfile c)"
| reverify: "app_event w s (handleReverifyCustomProfile c q)"
| activate: "app_event w s (handleActivateCustomProfile w c q)"
| delete_profile: "app_event w s (handleDeleteCustomProfile c q)"
| desktop_start: "app_event w s (handleDesktopStart c)"
| desktop_stop: "app_event w s (handleDesktopStop c)"
| desktop_restart: "app_event w s (handleDesktopRestart c)"
| open_root: "app_event w s (handleDesktopOpenProjectRoot c)"
| open_data: "app_event w s (handleDesktopOpenAppDataDir c)"
| load_logs: "app_event w s (handleDesktopLoadLogs c)"

inductive_cases app_eventE: "app_event w s p"

definition app_start :: "app_state \<Rightarrow> bool" where
  "app_start s \<longleftrightarrow> (\<exists>storage url tauri. s = initial_app storage url tauri)"

section \<open>What the handlers leave alone\<close>

definition user_fields :: "app_state \<Rightarrow> string option \<times> banner_record option \<times> string obj \<times> draft_template \<times> page_id
    \<times> jsnum option \<times> custom_draft \<times> string list" where
  "user_fields s = (busyAction s, banner s, reviewDrafts s, draftTemplate s, activePage s, selectedDocumentId s,
     customProviderDraft s, openedWindows s)"

definition keeps_user_fields :: "(app_state \<Rightarrow> app_state) \<Rightarrow> bool" where
  "keeps_user_fields u \<longleftrightarrow> (\<forall>s. user_fields (u s) = user_fields s)"

lemma refresh_keeps: "all_updates keeps_user_fields (refreshCoreData c)"
proof -
  have "all_updates keeps_user_fields (load_versions c ts)" for ts
    by (simp add: load_versions_def keeps_user_fields_def user_fields_def)
  moreover have "all_updates keeps_user_fields (load_results c js)" for js
    by (simp add: load_results_def keeps_user_fields_def user_fields_def)
  ultimately show ?thesis
    unfolding refreshCoreData_def
    by (intro all_updates_bind all_updates_catch all_updates_await)
      (auto simp: keeps_user_fields_def user_fields_def apply_core_data_def intro: all_updates_bind)
qed

lemma all_updates_mono: "all_updates R p \<Longrightarrow> (\<And>u. R u \<Longrightarrow> S u) \<Longrightarrow> all_updates S p"
  by (induction p) auto

definition keeps_busy :: "(app_state \<Rightarrow> app_state) \<Rightarrow> bool" where
  "keeps_busy u \<longleftrightarrow> (\<forall>s. (busyAction (u s) = None) = (busyAction s = None))"

lemma refresh_keeps_busy: "all_updates keeps_busy (refreshCoreData c)"
  using refresh_keeps by (rule all_updates_mono) (simp add: keeps_user_fields_def user_fields_def keeps_busy_def)

lemma other_keep_busy:
  "all_updates keeps_busy (refreshDesktopStatus c)"
  "all_updates keeps_busy (effect_feedback c)"
  "all_updates keeps_busy (handleDismissLangExtractSuggestion c k)"
  by (auto simp: refreshDesktopStatus_def effect_feedback_def feedback_load_def fetchLangExtractFeedbackSuggestions_def
      handleDismissLangExtractSuggestion_def show_error_def succeed_def keeps_busy_def unless_cancelled_def clear_feedback_def
      applyLangExtractFeedback_def show_banner_def split: option.split
      intro!: all_updates_bind all_updates_catch all_updates_await)

lemma local_change_busy: "local_change s s' \<Longrightarrow> busyAction s' = busyAction s"
  by (induction rule: local_change.induct)
    (simp_all add: dismissMockWarning_def dismissDesktopOnboarding_def setReviewDraft_def handleSelectJob_def sync_selects
      handleStartNewExtraction_def handleJobStatusFilterChange_def openAuditJob_def handleLoadCustomProfile_def
      handleApplyLangExtractSuggestion_def show_banner_def openSchemaDraft_def effect_restore_flags_def
      effect_persist_draft_def effect_select_version_def effect_select_document_def effect_reset_draft_def
      effect_url_seed_def effect_default_seed_def Let_def split: option.split)

section \<open>The busy flag\<close>

definition settles_busy :: "(app_state, unit) proc \<Rightarrow> bool" where
  "settles_busy p \<longleftrightarrow>
     (\<forall>h s. wp any_state any_request (\<lambda>h s r. busyAction s = None) p h s) \<or> all_updates keeps_busy p"

named_theorems busy_rules \<open>handlers that settle the busy flag\<close>

lemma settles_handled [busy_rules]: "settles_busy (handled b d body)"
  unfolding settles_busy_def handled_def by (auto intro!: wp_finally_all simp: set_busy_def)

lemma settles_refuse [busy_rules]: "settles_busy (refuse m)" "settles_busy (Return ())"
  by (simp_all add: settles_busy_def refuse_def keeps_busy_def show_banner_def)

lemma probe_idle: "wp any_state any_request (\<lambda>h s r. busyAction s = None) (runProviderProbe k l p) h s"
  unfolding runProviderProbe_def by (rule wp_finally_all) (simp add: set_busy_def)

lemma ensure_idle: "wp any_state any_request (\<lambda>h s r. busyAction s = None) (ensureProviderProbeReachable k l p a) h s"
  unfolding ensureProviderProbeReachable_def wp_bind
  by (rule wp_mono [OF probe_idle]) (auto simp: show_banner_def split: sum.split)

lemma settles_probe [busy_rules]: "settles_busy (bind (runProviderProbe k l p) (\<lambda>_. Return ()))"
  unfolding settles_busy_def wp_bind
  by (intro disjI1 allI wp_mono [OF probe_idle]) (auto split: sum.split)

lemma settles_after_probe [busy_rules]:
  "settles_busy (bind (ensureProviderProbeReachable k l p a) (\<lambda>passed. if \<not> passed then Return () else handled b d body))"
  unfolding settles_busy_def wp_bind
proof (intro disjI1 allI wp_mono [OF ensure_idle])
  fix h :: history and s :: app_state and r :: "thrown + bool"
  assume "busyAction s = None"
  moreover have "wp any_state any_request (\<lambda>h s r. busyAction s = None) (handled b d body) h s"
    unfolding handled_def by (rule wp_finally_all) (simp add: set_busy_def)
  ultimately show "case r of Inl e \<Rightarrow> busyAction s = None
    | Inr x \<Rightarrow> wp any_state any_request (\<lambda>h s r. busyAction s = None) (if \<not> x then Return () else handled b d body) h s"
    by (auto split: sum.split)
qed

lemma settles_unless_invalid [busy_rules]: "settles_busy p \<Longrightarrow> settles_busy (unless_invalid c p)"
  by (auto simp: unless_invalid_def settles_refuse split: option.split)

lemma settles_submit [busy_rules]: "settles_busy (submitReview w c m a)"
  unfolding submitReview_def by (auto simp: settles_handled settles_refuse split: option.split)

lemma settles_set_provider [busy_rules]: "settles_busy (handleSetProvider p)"
  unfolding handleSetProvider_def by (rule settles_handled)

lemma settles_desktop [busy_rules]:
  "settles_busy (desktop_command c b m d f)" "settles_busy (desktop_open c b m d f)"
  by (simp_all add: desktop_command_def desktop_open_def settles_handled settles_refuse)

lemma app_event_settles: "app_event w s p \<Longrightarrow> settles_busy p"
proof (induction rule: app_event.induct)
  case (refresh s c)
  then show ?case by (simp add: settles_busy_def refresh_keeps_busy)
next
  case (refresh_desktop s c)
  then show ?case by (simp add: settles_busy_def other_keep_busy)
next
  case (load_feedback s c)
  then show ?case by (simp add: settles_busy_def other_keep_busy)
next
  case (dismiss_suggestion s c k)
  then show ?case by (simp add: settles_busy_def other_keep_busy)
next
  case (run_job s c)
  then show ?case by (simp add: handleRunExtraction_def busy_rules split: option.split)
next
  case (export_result s c k)
  then show ?case by (simp add: handleExport_def busy_rules split: option.split)
qed (simp_all add: handleSetExportPolicy_def handleUpload_def handleCreateTemplate_def handleSaveReview_def
    handleApproveAllReview_def handleApproveHighConfidenceReview_def handleRetryJob_def handleCancelJob_def
    handleProbeProvider_def handleSetCustomProvider_def handleProbeCustomProvider_def handleSaveCustomProfile_def Let_def
    handleReverifyCustomProfile_def handleActivateCustomProfile_def handleDeleteCustomProfile_def handleDesktopStart_def
    handleDesktopStop_def handleDesktopRestart_def handleDesktopOpenProjectRoot_def handleDesktopOpenAppDataDir_def
    handleDesktopLoadLogs_def busy_rules)

interpretation busy: owned_flag "\<lambda>s. busyAction s = None" app_start "app_event w" local_change
proof
  show "busyAction s = None" if "app_start s" for s
    using that by (auto simp: app_start_def initial_app_def)
  show "(\<forall>h s. wp any_state any_request (\<lambda>h s r. busyAction s = None) p h s)
      \<or> all_updates (\<lambda>u. \<forall>s. (busyAction (u s) = None) = (busyAction s = None)) p" if "app_event w s p" for s p
    using app_event_settles [OF that] by (simp add: settles_busy_def keeps_busy_def [abs_def])
  show "(busyAction s' = None) = (busyAction s = None)" if "local_change s s'" for s s'
    using local_change_busy [OF that] by simp
qed

text \<open>
  C6: The busy indicator never sticks: in any interleaving of handlers, effects and clicks, whatever the
  replies, once no handler is waiting for a reply \<open>busyAction\<close> is null again.
\<close>

theorem busy_indicator_never_sticks:
  assumes "reach app_start (app_event w) local_change (s, [])"
  shows "busyAction s = None"
  using assms by (rule busy.quiescent_idle)

definition demo_host :: host where
  "demo_host = \<lparr>locale_number = num_to_string, date_now = Num 0, date_parse = (\<lambda>_. Num 0), api_base = ''''\<rparr>"

lemma policy_started:
  "\<exists>k. reach app_start (app_event w) local_change (set_busy (Some ''save-export-policy'') start_app,
       [([], Request [Http PUT ''/settings/export-policy'' (PolicyBody True)] k)])
     \<and> (\<forall>e. k [Rejected e] = Update (show_banner ToneError (error_message e ''Could not save export policy.''))
          (Update (set_busy None) (Return ())))"
proof -
  have "reach app_start (app_event w) local_change (start_app, [])"
    by (rule reach.init) (auto simp: app_start_def start_app_def)
  note reach.event [OF this app_event.set_policy [of w start_app start_app True]]
  then show ?thesis
    by (auto simp: handleSetExportPolicy_def handled_def readJson_def await_def show_error_def park_def reply_at_def
        settle_def)
qed

lemma busy_indicator_never_sticks_witness:
  "\<exists>s. reach app_start (app_event demo_host) local_change (s, []) \<and> banner s \<noteq> None \<and> busyAction s = None"
proof -
  obtain k where k: "reach app_start (app_event demo_host) local_change (set_busy (Some ''save-export-policy'') start_app,
       [] @ ([], Request [Http PUT ''/settings/export-policy'' (PolicyBody True)] k) # [])"
    "\<forall>e. k [Rejected e] = Update (show_banner ToneError (error_message e ''Could not save export policy.''))
          (Update (set_busy None) (Return ()))"
    using policy_started [of demo_host] by auto
  let ?s = "set_busy None (show_banner ToneError ''Could not save export policy.''
    (set_busy (Some ''save-export-policy'') start_app))"
  have "advance (k [Rejected OtherThrown]) (set_busy (Some ''save-export-policy'') start_app) = (?s, Return ())"
    using k(2) by simp
  from reach.reply [OF k(1) this] have r: "reach app_start (app_event demo_host) local_change (?s, [])"
    by (simp add: park_def)
  from busy_indicator_never_sticks [OF r] r show ?thesis by (auto simp: show_banner_def set_busy_def)
qed

text \<open>
  \<open>busyAction\<close> is one flag for all handlers, and the first to end clears it: an upload can still be
  waiting for its reply when the flag says that nothing is busy.
\<close>

theorem first_finisher_clears_busy:
  "\<exists>s h k. reach app_start (app_event w) local_change (s, [(h, Request [Upload f] k)]) \<and> busyAction s = None"
proof -
  obtain k where k: "reach app_start (app_event w) local_change (set_busy (Some ''save-export-policy'') start_app,
       [([], Request [Http PUT ''/settings/export-policy'' (PolicyBody True)] k)])"
    "\<forall>e. k [Rejected e] = Update (show_banner ToneError (error_message e ''Could not save export policy.''))
          (Update (set_busy None) (Return ()))"
    using policy_started [of w] by blast
  let ?t = "set_busy (Some ''upload'') (set_busy (Some ''save-export-policy'') start_app)"
  obtain k' where "advance (handleUpload start_app f) (set_busy (Some ''save-export-policy'') start_app)
      = (?t, Request [Upload f] k')"
    by (simp add: handleUpload_def handled_def uploadDocument_def await_def)
  from reach.event [OF k(1) app_event.upload [of w _ start_app f] this]
  have two: "reach app_start (app_event w) local_change (?t,
      [] @ ([], Request [Http PUT ''/settings/export-policy'' (PolicyBody True)] k) # [([], Request [Upload f] k')])"
    by (simp add: park_def)
  let ?s = "set_busy None (show_banner ToneError ''Could not save export policy.'' ?t)"
  have "advance (k [Rejected OtherThrown]) ?t = (?s, Return ())" using k(2) by simp
  from reach.reply [OF two this] have "reach app_start (app_event w) local_change (?s, [([], Request [Upload f] k')])"
    by (simp add: park_def)
  moreover have "busyAction ?s = None" by (simp add: set_busy_def)
  ultimately show ?thesis by blast
qed

section \<open>Which requests a handler may make\<close>

text \<open>A refresh only reads: its requests satisfy any condition that all \<open>GET\<close> requests satisfy.\<close>

lemma refresh_reads:
  assumes "\<And>h path. P h (Http GET path NoBody)"
  shows "wp any_state P (\<lambda>h s r. \<exists>x. r = Inr x) (refreshCoreData c) h s"
  using assms
  by (auto simp: refreshCoreData_def load_versions_def load_results_def get_json_def wp_simps split: sum.split)

lemma feedback_reads:
  assumes "\<And>h path. P h (Http GET path NoBody)"
  shows "wp any_state P (\<lambda>h s r. True) (fetchLangExtractFeedbackSuggestions v) h s"
  using assms by (simp add: fetchLangExtractFeedbackSuggestions_def wp_simps)

lemma handled_requests:
  "wp any_state P (\<lambda>h s r. True) body h (set_busy (Some b) s) \<Longrightarrow> wp any_state P (\<lambda>h s r. True) (handled b d body) h s"
  unfolding handled_def wp_finally wp_catch by (auto simp: show_error_def elim!: wp_mono split: sum.split)

lemma after_refresh_requests:
  assumes "\<And>h path. P h (Http GET path NoBody)" "\<And>h s. wp any_state P (\<lambda>h s r. True) p h s"
  shows "wp any_state P (\<lambda>h s r. True) (bind (refreshCoreData c) (\<lambda>_. p)) h s"
  unfolding wp_bind by (rule wp_mono [OF refresh_reads]) (auto simp: assms split: sum.split)

lemma settled_requests:
  assumes "P h q" "\<And>rs s a. settle as (reply_at rs 0) = Inr a \<Longrightarrow> wp any_state P (\<lambda>h s r. True) (f a) (h @ [([q], rs)]) s"
  shows "wp any_state P (\<lambda>h s r. True) (bind (await as q) f) h s"
  using assms by (auto simp: wp_simps split: sum.split)

lemma settled_json_requests:
  assumes "P h (Http m path body)"
    and "\<And>rs s a. settle as (reply_at rs 0) = Inr a \<Longrightarrow> wp any_state P (\<lambda>h s r. True) (f a) (h @ [([Http m path body], rs)]) s"
  shows "wp any_state P (\<lambda>h s r. True) (bind (readJson as m path body) f) h s"
  using assms unfolding readJson_def by (rule settled_requests)

lemma quiet_requests [simp]:
  "wp any_state P (\<lambda>h s r. True) (succeed m) h s" "wp any_state P (\<lambda>h s r. True) (refuse m) h s"
  "wp any_state P (\<lambda>h s r. True) (show_error d e) h s" "wp any_state P (\<lambda>h s r. True) review_saved h s"
  by (simp_all add: succeed_def refuse_def show_error_def review_saved_def)

text \<open>Conversely, the requests a handler certainly makes, run alone.\<close>

definition asks :: "(history \<Rightarrow> request list \<Rightarrow> reply list) \<Rightarrow> ('s, 'a) proc \<Rightarrow> history \<Rightarrow> 's \<Rightarrow> request \<Rightarrow> bool" where
  "asks env p h s q \<longleftrightarrow> q \<in> set (requests_of (fst (run env p h s)))"

lemma run_extends: "\<exists>t. fst (run env p h s) = h @ t"
proof (induction p arbitrary: h s)
  case (Request qs k)
  obtain t where "fst (run env (k (env h qs)) (h @ [(qs, env h qs)]) s) = (h @ [(qs, env h qs)]) @ t"
    using Request.IH [OF rangeI] by blast
  then show ?case by simp
qed simp_all

lemma asked_stays: "q \<in> set (requests_of h) \<Longrightarrow> asks env p h s q"
  using run_extends [of env p h s] by (auto simp: asks_def requests_of_def)

lemma asks_bind: "asks env p h s q \<Longrightarrow> asks env (bind p f) h s q"
proof -
  assume a: "asks env p h s q"
  obtain h' s' r where r: "run env p h s = (h', s', r)" by (cases "run env p h s")
  with a have "q \<in> set (requests_of h')" by (simp add: asks_def)
  then show ?thesis using r asked_stays [of q h'] by (cases r) (simp_all add: asks_def run_bind)
qed

lemma asks_await: "asks env (await as q) h s q" "asks env (readJson as m path body) h s (Http m path body)"
  by (simp_all add: asks_def readJson_def run_await requests_of_def)

lemma asks_handled: "asks env (handled b d body) h s q \<longleftrightarrow> asks env body h (set_busy (Some b) s) q"
  by (simp add: asks_def handled_def run_simps show_error_def split: prod.split sum.split)

lemma asks_first: "asks env (handled b d (bind (readJson as m path body) f)) h s (Http m path body)"
  unfolding asks_handled by (intro asks_bind asks_await)

text \<open>
  C1: A run is queued only for the selected document and schema version, with the default provider as
  override, and only when neither the selection nor the LangExtract readiness of the version blocks it;
  it is the first thing the handler asks the API for. When nothing blocks it, it is asked for.
\<close>

theorem run_requires_readiness:
  "wp any_state (\<lambda>h q. \<forall>path body. q = Http POST path body \<longrightarrow>
      h = [] \<and> path = ''/jobs'' \<and> run_blocked c = None
    \<and> (\<exists>d v. selectedDocumentId c = Some d \<and> selectedTemplateVersionId c = Some v \<and> num_truthy d \<and> num_truthy v
         \<and> body = JobBody d v (default_provider c)))
    (\<lambda>h s r. True) (handleRunExtraction c) [] s
   \<and> (run_blocked c = None \<longrightarrow> asks env (handleRunExtraction c) [] s (Http POST ''/jobs''
         (JobBody (the (selectedDocumentId c)) (the (selectedTemplateVersionId c)) (default_provider c))))"
proof (cases "run_blocked c")
  case None
  then obtain d v where "selectedDocumentId c = Some d" "selectedTemplateVersionId c = Some v" "num_truthy d" "num_truthy v"
    by (auto simp: run_blocked_def id_truthy_def split: option.splits if_splits)
  with None show ?thesis unfolding handleRunExtraction_def
    by (auto intro!: handled_requests settled_json_requests after_refresh_requests asks_first)
next
  case (Some m)
  then show ?thesis by (simp add: handleRunExtraction_def)
qed

lemma after_probe_requests:
  assumes "\<And>h. P h (Http POST ''/settings/providers/probe'' (SettingsBody settings)) \<or> h \<noteq> []"
    and "\<And>rs r s. settle as_probe (reply_at rs 0) = Inr r \<Longrightarrow> reachable r \<Longrightarrow>
      wp any_state P (\<lambda>h s r. True) p [([probe_request settings], rs)] s"
  shows "wp any_state P (\<lambda>h s r. True)
     (bind (ensureProviderProbeReachable k l settings a) (\<lambda>passed. if \<not> passed then Return () else p)) [] s"
  using assms(1) [of "[]"] assms(2)
  by (auto simp: ensureProviderProbeReachable_def runProviderProbe_def wp_simps probe_request_def [symmetric]
      split: sum.split option.split)

lemma profile_paths [simp]:
  "''/settings/providers/probe'' \<noteq> activate_path p" "activate_path p \<noteq> ''/settings/providers/probe''"
  by (simp_all add: activate_path_def profile_path_def)

definition probed :: "provider_settings \<Rightarrow> history \<Rightarrow> bool" where
  "probed settings h \<longleftrightarrow>
     (\<exists>rs r. h = [([probe_request settings], rs)] \<and> settle as_probe (reply_at rs 0) = Inr r \<and> reachable r)"

lemma asks_after_probe:
  assumes "settle as_probe (reply_at (env [] [probe_request settings]) 0) = Inr r" "reachable r"
    and "\<And>h s. asks env p h s q"
  shows "asks env (bind (ensureProviderProbeReachable k l settings a) (\<lambda>passed. if \<not> passed then Return () else p)) [] s q"
  using assms by (simp add: asks_def ensureProviderProbeReachable_def runProviderProbe_def run_simps)

text \<open>
  A custom provider profile is activated only when its last successful probe is not stale and a
  probe of its settings, made by the same handler just before, was answered as reachable; then it is.
\<close>

theorem activation_needs_probe:
  "wp any_state (\<lambda>h q. \<forall>body. q = Http POST (activate_path p) body \<longrightarrow>
      \<not> profile_stale w c p \<and> probed (profile_settings p) h)
    (\<lambda>h s r. True) (handleActivateCustomProfile w c p) [] s
   \<and> (\<not> profile_stale w c p \<and> probed (profile_settings p)
         [([probe_request (profile_settings p)], env [] [probe_request (profile_settings p)])]
       \<longrightarrow> asks env (handleActivateCustomProfile w c p) [] s (Http POST (activate_path p) NoBody))"
proof (cases "profile_stale w c p")
  case False
  have "wp any_state (\<lambda>h q. \<forall>body. q = Http POST (activate_path p) body \<longrightarrow>
      \<not> profile_stale w c p \<and> probed (profile_settings p) h)
    (\<lambda>h s r. True) (handleActivateCustomProfile w c p) [] s"
    unfolding handleActivateCustomProfile_def if_not_P [OF False]
    by (intro after_probe_requests handled_requests settled_requests)
      (auto simp: probed_def False intro!: after_refresh_requests)
  moreover have "asks env (handleActivateCustomProfile w c p) [] s (Http POST (activate_path p) NoBody)"
    if "probed (profile_settings p) [([probe_request (profile_settings p)], env [] [probe_request (profile_settings p)])]"
  proof -
    from that obtain r where r: "settle as_probe (reply_at (env [] [probe_request (profile_settings p)]) 0) = Inr r"
      "reachable r" by (auto simp: probed_def)
    show ?thesis unfolding handleActivateCustomProfile_def if_not_P [OF False]
      by (rule asks_after_probe, rule r(1), rule r(2), unfold asks_handled) (intro asks_bind asks_await)
  qed
  ultimately show ?thesis by blast
qed (simp add: handleActivateCustomProfile_def)

text \<open>
  The custom provider form is saved only when it validates and a probe of exactly the settings that
  are saved, made by the same handler just before, was answered as reachable; then it is.
\<close>

theorem saving_needs_probe:
  "wp any_state (\<lambda>h q. \<forall>m path name st. q = Http m path (ProfileBody name st) \<longrightarrow>
      validateCustomProviderDraft (customProviderDraft c) = None
    \<and> name = trim (cd_label (customProviderDraft c)) \<and> name \<noteq> []
    \<and> st = buildCustomProviderSettings (customProviderDraft c) \<and> probed st h)
    (\<lambda>h s r. True) (handleSaveCustomProfile c) [] s
   \<and> (\<forall>settings. settings = buildCustomProviderSettings (customProviderDraft c)
        \<and> validateCustomProviderDraft (customProviderDraft c) = None
        \<and> probed settings [([probe_request settings], env [] [probe_request settings])] \<longrightarrow>
        (\<exists>m path. asks env (handleSaveCustomProfile c) [] s
           (Http m path (ProfileBody (trim (cd_label (customProviderDraft c))) settings))))" (is "wp _ ?P _ _ _ _ \<and> ?asks")
proof (cases "validateCustomProviderDraft (customProviderDraft c)")
  case None
  then have label: "trim (cd_label (customProviderDraft c)) \<noteq> []"
    by (auto simp: validateCustomProviderDraft_def)
  have save: "wp any_state ?P (\<lambda>h s r. True) (save_profile_request c) h s"
    if "probed (buildCustomProviderSettings (customProviderDraft c)) h" for h s
    using None label that
    by (auto simp: save_profile_request_def Let_def split: option.split list.split
        intro!: settled_json_requests)
  let ?body = "handled ''save-custom-profile'' ''Could not save custom provider profile.''
     (bind (save_profile_request c) (\<lambda>_. bind (refreshCoreData c) (\<lambda>_.
        succeed (''Saved custom provider profile \"'' @ trim (cd_label (customProviderDraft c)) @ ''\".''))))"
  have eq: "handleSaveCustomProfile c =
     bind (ensureProviderProbeReachable (coalesce (selectedCustomProfileId c) CUSTOM_PROVIDER_KEY)
       (str_or (Some (trim (cd_label (customProviderDraft c)))) ''Custom provider'')
       (buildCustomProviderSettings (customProviderDraft c)) ''Custom provider save'')
       (\<lambda>passed. if \<not> passed then Return () else ?body)"
    by (simp add: handleSaveCustomProfile_def unless_invalid_def None Let_def)
  have ?asks
  proof (intro allI impI)
    fix settings
    assume "settings = buildCustomProviderSettings (customProviderDraft c)
        \<and> validateCustomProviderDraft (customProviderDraft c) = None
        \<and> probed settings [([probe_request settings], env [] [probe_request settings])]"
    then obtain r where st: "settings = buildCustomProviderSettings (customProviderDraft c)"
      and r: "settle as_probe (reply_at (env [] [probe_request settings]) 0) = Inr r" "reachable r"
      by (auto simp: probed_def)
    obtain m path where "\<And>h s. asks env (save_profile_request c) h s
        (Http m path (ProfileBody (trim (cd_label (customProviderDraft c))) settings))"
      unfolding save_profile_request_def Let_def st
      by (cases "selectedCustomProfileId c"; cases "the (selectedCustomProfileId c)")
        (auto intro: asks_bind asks_await)
    then have "asks env (handleSaveCustomProfile c) [] s
        (Http m path (ProfileBody (trim (cd_label (customProviderDraft c))) settings))"
      unfolding eq using r unfolding st by (intro asks_after_probe) (auto simp: asks_handled intro: asks_bind)
    then show "\<exists>m path. asks env (handleSaveCustomProfile c) [] s
        (Http m path (ProfileBody (trim (cd_label (customProviderDraft c))) settings))" by blast
  qed
  moreover have "wp any_state ?P (\<lambda>h s r. True) (handleSaveCustomProfile c) [] s" unfolding eq
  proof (rule after_probe_requests)
    fix rs r s
    assume "settle as_probe (reply_at rs 0) = Inr r" "reachable r"
    then have "probed (buildCustomProviderSettings (customProviderDraft c))
        [([probe_request (buildCustomProviderSettings (customProviderDraft c))], rs)]" by (auto simp: probed_def)
    then show "wp any_state ?P (\<lambda>h s r. True) ?body
        [([probe_request (buildCustomProviderSettings (customProviderDraft c))], rs)] s"
      by (intro handled_requests, unfold wp_bind [of _ _ _ "save_profile_request c"])
        (auto intro!: wp_mono [OF save] after_refresh_requests split: sum.split)
  qed simp
  ultimately show ?thesis by blast
qed (simp add: handleSaveCustomProfile_def unless_invalid_def)

text \<open>
  C5: A review is posted once, first of all requests, to the result of the selected job, with the edits
  read from the drafts, or with none when the user only approves; approving always posts.
\<close>

theorem review_sends_the_drafts:
  "wp any_state (\<lambda>h q. \<forall>path body. q = Http POST path body \<longrightarrow>
      h = [] \<and> (\<exists>i e edits. selectedJobId c = Some i \<and> result_of_job c i = Some e
        \<and> path = review_path (result_id e) \<and> body = ReviewBody ''local-ui'' edits True minimum
        \<and> (if approveOnly then edits = []
           else buildReviewEditsForResult (locale_number w) (reviewDrafts c) (result_of e) (selected_definition c i) = Inr edits)))
    (\<lambda>h s r. True) (submitReview w c minimum approveOnly) [] s
   \<and> (\<forall>i e. selectedJobId c = Some i \<and> num_truthy i \<and> result_of_job c i = Some e \<longrightarrow>
        asks env (submitReview w c minimum True) [] s (Http POST (review_path (result_id e)) (ReviewBody ''local-ui'' [] True minimum)))"
  (is "wp _ ?P _ _ _ _ \<and> ?asks")
proof -
  have feedback: "wp any_state ?P (\<lambda>h s r. True) (review_feedback c i) h s" for i h s
    by (auto simp: review_feedback_def review_saved_def succeed_def fetchLangExtractFeedbackSuggestions_def
        split: option.split intro!: settled_json_requests)
  have "wp any_state ?P (\<lambda>h s r. True) (submitReview w c minimum approveOnly) [] s"
    if i: "selectedJobId c = Some i" "num_truthy i" and e: "result_of_job c i = Some e" for i e
  proof (cases "review_edits w c i e approveOnly")
    case (Inl m)
    with i e show ?thesis
      by (auto simp: submitReview_def id_truthy_def wp_simps intro!: handled_requests)
  next
    case (Inr edits)
    then have edits: "if approveOnly then edits = []
       else buildReviewEditsForResult (locale_number w) (reviewDrafts c) (result_of e) (selected_definition c i) = Inr edits"
      by (auto simp: review_edits_def split: if_splits)
    have "wp any_state ?P (\<lambda>h s r. True)
       (bind (readJson as_result POST (review_path (result_id e)) (ReviewBody ''local-ui'' edits True minimum)) (\<lambda>updated.
          Update (store_review c i e updated) (bind (refreshCoreData c) (\<lambda>_. review_feedback c i)))) [] s" for s
    proof (rule settled_json_requests)
      fix rs t updated
      show "wp any_state ?P (\<lambda>h s r. True) (Update (store_review c i e updated)
          (bind (refreshCoreData c) (\<lambda>_. review_feedback c i)))
          ([] @ [([Http POST (review_path (result_id e)) (ReviewBody ''local-ui'' edits True minimum)], rs)]) t"
        unfolding wp.simps by (rule after_refresh_requests [OF _ feedback]) simp
    qed (use i e edits in auto)
    moreover have "submitReview w c minimum approveOnly = handled ''save-review'' ''Could not save review.''
       (bind (readJson as_result POST (review_path (result_id e)) (ReviewBody ''local-ui'' edits True minimum)) (\<lambda>updated.
          Update (store_review c i e updated) (bind (refreshCoreData c) (\<lambda>_. review_feedback c i))))"
      using i e Inr by (simp add: submitReview_def id_truthy_def lift_result_def)
    ultimately show ?thesis by (simp only: handled_requests)
  qed
  then have "wp any_state ?P (\<lambda>h s r. True) (submitReview w c minimum approveOnly) [] s"
    by (cases "selectedJobId c"; cases "result_of_job c (the (selectedJobId c))")
      (auto simp: submitReview_def id_truthy_def)
  moreover have ?asks
    by (auto simp: submitReview_def id_truthy_def review_edits_def lift_result_def intro!: asks_first)
  ultimately show ?thesis by blast
qed

text \<open>
  An export is requested only for the result of the selected job, as the first request; when there is
  such a result it is requested.
\<close>

theorem export_of_selected_result:
  "wp any_state (\<lambda>h q. \<forall>path body. q = Http POST path body \<longrightarrow>
      h = [] \<and> (\<exists>i e. selectedJobId c = Some i \<and> result_of_job c i = Some e \<and> path = export_path (result_id e) k))
    (\<lambda>h s r. True) (handleExport w c k) [] s
   \<and> (\<forall>i e. selectedJobId c = Some i \<and> num_truthy i \<and> result_of_job c i = Some e \<longrightarrow>
        asks env (handleExport w c k) [] s (Http POST (export_path (result_id e) k) NoBody))"
proof (cases "selectedResultForExport c")
  case (Some e)
  then obtain i where "selectedJobId c = Some i" "result_of_job c i = Some e"
    by (cases "selectedJobId c") (auto simp: selectedResultForExport_def split: if_splits)
  with Some show ?thesis
    by (auto simp: handleExport_def intro!: handled_requests settled_json_requests after_refresh_requests asks_first)
qed (auto simp: handleExport_def selectedResultForExport_def id_truthy_def)

section \<open>Handlers from start to end\<close>

lemma run_handled:
  "run env (handled b d body) h s = (case run env body h (set_busy (Some b) s) of
     (h', s', Inr a) \<Rightarrow> (h', set_busy None s', Inr a)
   | (h', s', Inl e) \<Rightarrow> (h', set_busy None (show_banner ToneError (error_message e d) s'), Inr ()))"
  by (simp add: handled_def run_simps show_error_def split: prod.split sum.split)

lemma run_user_fields:
  "all_updates keeps_user_fields p \<Longrightarrow> run env p h s = (h', s', r) \<Longrightarrow> user_fields s' = user_fields s"
proof (induction p arbitrary: h s)
  case (Request qs k)
  from Request.prems have "all_updates keeps_user_fields (k (env h qs))"
    and "run env (k (env h qs)) (h @ [(qs, env h qs)]) s = (h', s', r)" by auto
  then show ?case by (rule Request.IH [OF rangeI])
qed (auto simp: keeps_user_fields_def)

lemma run_refresh_frame:
  obtains h' s' where "run env (refreshCoreData c) h s = (h', s', Inr ())" "user_fields s' = user_fields s"
proof -
  obtain h' s' r where r: "run env (refreshCoreData c) h s = (h', s', r)" by (cases "run env (refreshCoreData c) h s")
  have "wp any_state any_request (\<lambda>h s r. \<exists>x. r = Inr x) (refreshCoreData c) h s" by (rule refresh_reads) simp
  from wp_run [OF this _ r] have "r = Inr ()" by auto
  with r run_user_fields [OF refresh_keeps r] that show thesis by blast
qed

definition demo_envelope :: "review_field list \<Rightarrow> result_envelope" where
  "demo_envelope fs = \<lparr>result_id = Num 7, result_job_id = Num 1, result_of = sample_result fs\<rparr>"

definition review_app :: "review_field list \<Rightarrow> string obj \<Rightarrow> app_state" where
  "review_app fs drafts = start_app\<lparr>selectedJobId := Some (Num 1), resultsByJob := [(Num 1, demo_envelope fs)],
     reviewDrafts := drafts\<rparr>"

lemma review_app_simps [simp]:
  "selectedJobId (review_app fs ds) = Some (Num 1)" "reviewDrafts (review_app fs ds) = ds"
  "result_of_job (review_app fs ds) (Num 1) = Some (demo_envelope fs)"
  "selected_definition (review_app fs ds) i = None"
  by (simp_all add: review_app_def result_of_job_def rec_get_def selected_definition_def selected_version_id_def find_job_def
      find_version_def start_app_def initial_app_def)

lemma demo_envelope_simps [simp]:
  "result_extracted (result_of (demo_envelope fs)) = fs" "result_id (demo_envelope fs) = Num 7"
  by (simp_all add: demo_envelope_def sample_result_def)

text \<open>
  A draft that cannot be read back, a table that is no JSON array for instance, stops the review before
  any request: the parser's message is shown and nothing else changes.
\<close>

theorem unreadable_review_sends_nothing:
  assumes "selectedJobId c = Some i" "num_truthy i" "result_of_job c i = Some e"
    and "buildReviewEditsForResult (locale_number w) (reviewDrafts c) (result_of e) (selected_definition c i) = Inl m"
  shows "final_history env (handleSaveReview w c) s = []
    \<and> final_state env (handleSaveReview w c) s = (show_banner ToneError m s)\<lparr>busyAction := None\<rparr>"
  using assms
  by (simp add: final_history_def final_state_def handleSaveReview_def submitReview_def id_truthy_def run_handled
      review_edits_def run_simps set_busy_def show_banner_def)

lemma unreadable_review_sends_nothing_witness:
  "final_history (env_of demo_server) (handleSaveReview demo_host (review_app [sample_field ''t'' ''table'' JNull] [(''t'', ''{'')]))
     start_app = []"
proof -
  let ?c = "review_app [sample_field ''t'' ''table'' JNull] [(''t'', ''{'')]"
  have facts: "to_lower ''table'' = ''table''" "trim ''{'' = ''{''" "json_parse ''{'' = None" by code_simp+
  have "buildReviewEditsForResult (locale_number demo_host) (reviewDrafts ?c)
      (result_of (demo_envelope [sample_field ''t'' ''table'' JNull])) (selected_definition ?c (Num 1))
      = Inl ''t must be valid JSON.''"
    by (simp add: buildReviewEditsForResult_def field_edit_def Let_def getFieldDefinition_def parseReviewDraft_def
        getReviewFieldType_def sample_field_def obj_get_def parseStructuredReviewDraft_def STRUCTURED_FIELD_TYPES_def facts)
  from unreadable_review_sends_nothing [OF _ _ _ this] show ?thesis by (simp add: num_truthy_def)
qed


text \<open>
  The schema form posts the payload built from the draft, as its first request, whenever it can be
  built; saved with the LangExtract provider, a prompt and examples, the posted schema passes the readiness
  check of the run button.
\<close>

theorem posted_schema_is_built_and_ready:
  "wp any_state (\<lambda>h q. \<forall>path n t dt d. q = Http POST path (TemplateBody n t dt d) \<longrightarrow>
      h = [] \<and> path = ''/templates'' \<and> template_name d = n \<and> description d = t \<and> document_type d = dt
    \<and> (isLangExtractProvider (provider c) \<and> trim (dt_prompt_description (draftTemplate c)) \<noteq> []
         \<and> dt_examples (draftTemplate c) \<noteq> [] \<longrightarrow> getLangExtractExtractionReadiness d None = None))
    (\<lambda>h s r. True) (handleCreateTemplate c) [] s
   \<and> (\<forall>d. buildTemplatePayload (draftTemplate c) (provider c)
          (Some (coalesce (currentTemplateDefinition c) starterTemplateDefinition)) = Inr d \<longrightarrow>
        asks env (handleCreateTemplate c) [] s (Http POST ''/templates''
          (TemplateBody (template_name d) (description d) (document_type d) d)))" (is "wp _ ?P _ _ _ _ \<and> ?asks")
proof -
  let ?base = "coalesce (currentTemplateDefinition c) starterTemplateDefinition"
  show ?thesis
  proof (cases "buildTemplatePayload (draftTemplate c) (provider c) (Some ?base)")
    case (Inl m)
    then show ?thesis unfolding handleCreateTemplate_def by (auto simp: wp_simps intro!: handled_requests)
  next
    case (Inr d)
    have fields: "template_name d = dt_template_name (draftTemplate c)" "description d = dt_description (draftTemplate c)"
      "document_type d = dt_document_type (draftTemplate c)"
      using payload_names [OF Inr] by simp_all
    have ready: "getLangExtractExtractionReadiness d None = None"
      if "isLangExtractProvider (provider c)" "trim (dt_prompt_description (draftTemplate c)) \<noteq> []"
        "dt_examples (draftTemplate c) \<noteq> []"
    proof -
      from that(1) obtain p where p: "provider c = Some p"
        by (cases "provider c") (auto simp: isLangExtractProvider_def isLangExtractProviderSettings_def)
      from Inr that show ?thesis unfolding p by (rule saved_schema_ready)
    qed
    have "handleCreateTemplate c = handled ''save-template'' ''Could not save schema.''
        (bind (readJson as_any POST ''/templates''
          (TemplateBody (dt_template_name (draftTemplate c)) (dt_description (draftTemplate c))
             (dt_document_type (draftTemplate c)) d)) (\<lambda>_.
         bind (refreshCoreData c) (\<lambda>_.
         succeed (''Saved schema \"'' @ dt_template_name (draftTemplate c) @ ''\".''))))"
      by (simp add: handleCreateTemplate_def Inr lift_result_def)
    moreover have "wp any_state ?P (\<lambda>h s r. True)
        (bind (readJson as_any POST ''/templates''
          (TemplateBody (dt_template_name (draftTemplate c)) (dt_description (draftTemplate c))
             (dt_document_type (draftTemplate c)) d)) (\<lambda>_.
         bind (refreshCoreData c) (\<lambda>_.
         succeed (''Saved schema \"'' @ dt_template_name (draftTemplate c) @ ''\".'')))) [] t" for t
      by (rule settled_json_requests) (auto simp: fields ready intro!: after_refresh_requests)
    moreover have ?asks
      using asks_first calculation(1) by (simp add: Inr fields)
    ultimately show ?thesis by (simp only: handled_requests)
  qed
qed

section \<open>Drafts that outlive their job\<close>

text \<open>
  Queueing a run selects the new job and clears the busy flag, but keeps the review drafts of the job
  that was shown before: nothing else resets them until the user clicks a job.
\<close>

theorem run_keeps_old_drafts:
  assumes "run_blocked c = None"
    and "settle as_job (reply_at (env [] [Http POST ''/jobs''
           (JobBody (the (selectedDocumentId c)) (the (selectedTemplateVersionId c)) (default_provider c))]) 0) = Inr created"
  shows "selectedJobId (final_state env (handleRunExtraction c) s) = Some (job_id created)
    \<and> reviewDrafts (final_state env (handleRunExtraction c) s) = reviewDrafts s
    \<and> busyAction (final_state env (handleRunExtraction c) s) = None"
proof -
  let ?q = "Http POST ''/jobs''
    (JobBody (the (selectedDocumentId c)) (the (selectedTemplateVersionId c)) (default_provider c))"
  obtain h' s' where r: "run env (refreshCoreData c) [([?q], env [] [?q])] (set_busy (Some ''run'') s) = (h', s', Inr ())"
    and u: "user_fields s' = user_fields (set_busy (Some ''run'') s)"
    by (rule run_refresh_frame)
  from u have "reviewDrafts s' = reviewDrafts s" by (simp add: user_fields_def set_busy_def)
  with assms r show ?thesis
    by (simp add: final_state_def handleRunExtraction_def run_handled run_simps succeed_def select_job_of_def set_busy_def
        show_banner_def)
qed

fun job_server :: "request \<Rightarrow> reply" where
  "job_server (Http POST path body) = Response True '''' (Some (VJob (demo_job 3 ''queued'')))"
| "job_server q = demo_server q"

definition ready_app :: app_state where
  "ready_app = start_app\<lparr>selectedDocumentId := Some (Num 5), selectedTemplateVersionId := Some (Num 11),
     reviewDrafts := [(''total'', ''12'')]\<rparr>"

lemma run_keeps_old_drafts_witness:
  "selectedJobId (final_state (env_of job_server) (handleRunExtraction ready_app) ready_app) = Some (Num 3)
   \<and> reviewDrafts (final_state (env_of job_server) (handleRunExtraction ready_app) ready_app) = [(''total'', ''12'')]"
proof -
  have "run_blocked ready_app = None"
    by (simp add: run_blocked_def ready_app_def id_truthy_def num_truthy_def find_version_def start_app_def initial_app_def)
  from run_keeps_old_drafts [OF this, of "env_of job_server" "demo_job 3 ''queued''" ready_app] show ?thesis
    by (simp add: env_of_def reply_at_def settle_def demo_job_def ready_app_def)
qed





text \<open>
  The reply to a review is written into the drafts even when another job was selected meanwhile:
  the form of that job then shows, and would send, the values of the job that was reviewed.
\<close>

theorem late_review_reply_overwrites_drafts:
  assumes "selectedJobId c = Some i" "num_truthy i" "result_of_job c i = Some e"
    and "advance (submitReview w c minimum approveOnly) s = (s', Request qs k)"
    and "settle as_result (reply_at rs 0) = Inr updated" "advance (k rs) t = (t', p)"
  shows "reviewDrafts t' = initial_review_drafts updated (selected_definition c i) \<and> selectedJobId t' = selectedJobId t"
proof (cases "review_edits w c i e approveOnly")
  case (Inl m)
  with assms(1-4) show ?thesis
    by (simp add: submitReview_def id_truthy_def handled_def lift_result_def show_error_def)
next
  case (Inr edits)
  with assms show ?thesis
    by (auto simp: submitReview_def id_truthy_def handled_def lift_result_def readJson_def await_def refreshCoreData_def
        store_review_def)
qed

lemma late_review_reply_overwrites_drafts_witness:
  "\<exists>s' qs k t' p. advance (submitReview demo_host (review_app [] []) None True) start_app = (s', Request qs k)
     \<and> advance (k [Response True '''' (Some (VResult (sample_result [sample_field ''a'' ''Number'' JNull])))])
         (start_app\<lparr>selectedJobId := Some (Num 2)\<rparr>) = (t', p)
     \<and> reviewDrafts t' = [(''a'', '''')] \<and> selectedJobId t' = Some (Num 2)"
proof -
  let ?c = "review_app [] []" and ?r = "sample_result [sample_field ''a'' ''Number'' JNull]"
  obtain s' qs k where s: "advance (submitReview demo_host ?c None True) start_app = (s', Request qs k)"
    by (simp add: submitReview_def id_truthy_def num_truthy_def handled_def review_edits_def lift_result_def readJson_def await_def)
  obtain t' p where t: "advance (k [Response True '''' (Some (VResult ?r))]) (start_app\<lparr>selectedJobId := Some (Num 2)\<rparr>) = (t', p)"
    by (cases "advance (k [Response True '''' (Some (VResult ?r))]) (start_app\<lparr>selectedJobId := Some (Num 2)\<rparr>)")
  have "initial_review_drafts ?r None = [(''a'', '''')]"
    by (simp add: initial_review_drafts_def sample_result_def sample_field_def getInitialReviewDraft_def Let_def
        original_value_def nullish_def from_entries_def obj_put_def obj_insert.simps)
  with late_review_reply_overwrites_drafts [OF _ _ _ s _ t, of "Num 1" "demo_envelope []" ?r] s t show ?thesis
    by (simp add: num_truthy_def reply_at_def settle_def)
qed


section \<open>Selecting a job and reviewing it untouched\<close>

text \<open>
  C20: A user who opens a completed job and saves the review without touching a field sends no edits, when
  every value of the result is one its editor could have written.
\<close>

theorem opened_job_saves_no_edits:
  assumes "result_of_job c i = Some e" "distinct (map field_name (result_extracted (result_of e)))"
    and "\<forall>f \<in> set (result_extracted (result_of e)). canonical_field (locale_number w) (selected_definition c i) f"
  shows "review_edits w (handleSelectJob c i c) i e False = Inr []"
proof -
  have same: "selected_definition (handleSelectJob c i c) i = selected_definition c i"
    by (simp add: selected_definition_def selected_version_id_def find_version_def find_job_def handleSelectJob_def sync_selects)
  have "reviewDrafts (handleSelectJob c i c) = initial_review_drafts (result_of e) (selected_definition c i)"
    by (simp add: handleSelectJob_def sync_drafts(1) [OF assms(1)] selected_definition_def selected_version_id_def)
  with same untouched_edits [OF assms(2,3)] show ?thesis by (simp add: review_edits_def)
qed

lemma opened_job_saves_no_edits_witness:
  "review_edits demo_host (handleSelectJob (review_app [sample_field ''a'' ''Number'' JNull] []) (Num 1)
       (review_app [sample_field ''a'' ''Number'' JNull] [])) (Num 1) (demo_envelope [sample_field ''a'' ''Number'' JNull]) False
   = Inr []"
proof -
  have "to_lower ''Number'' = ''number''" by code_simp
  then show ?thesis
    by (intro opened_job_saves_no_edits) (simp_all add: sample_field_def canonical_field_def canonical_value_def
        original_value_def nullish_def Let_def getReviewFieldType_def getFieldDefinition_def)
qed

section \<open>The guards at work\<close>

lemma wp_asked:
  assumes "wp any_state P Q p [] s" "asks env p [] s q"
  shows "\<exists>h. P h q"
proof -
  obtain h' s' r where r: "run env p [] s = (h', s', r)" by (cases "run env p [] s")
  with assms(2) obtain i where "i < length h'" "q \<in> set (fst (h' ! i))"
    by (fastforce simp: asks_def requests_of_def in_set_conv_nth)
  with wp_run [OF assms(1) _ r] show ?thesis by auto
qed

text \<open>A server on which every probe succeeds and every other request fails.\<close>

definition good_probe :: provider_probe where
  "good_probe = \<lparr>probe_provider_type = ''mock'', reachable = True, probe_status = ''reachable'', probe_detail = ''ok'',
     probe_endpoint = None, probe_status_code = None\<rparr>"

fun probe_server :: "request \<Rightarrow> reply" where
  "probe_server (Http POST path (SettingsBody p)) = Response True '''' (Some (VProbe good_probe))"
| "probe_server _ = Rejected OtherThrown"

lemma probed_here: "probed p [([probe_request p], env_of probe_server [] [probe_request p])]"
  by (simp add: probed_def env_of_def probe_request_def reply_at_def settle_def good_probe_def)

lemma run_requires_readiness_witness:
  "run_blocked ready_app = None
   \<and> asks (env_of probe_server) (handleRunExtraction ready_app) [] ready_app (Http POST ''/jobs'' (JobBody (Num 5) (Num 11) None))"
proof -
  have free: "run_blocked ready_app = None"
    by (simp add: run_blocked_def ready_app_def id_truthy_def num_truthy_def find_version_def start_app_def initial_app_def)
  then have a: "asks (env_of probe_server) (handleRunExtraction ready_app) [] ready_app (Http POST ''/jobs'' (JobBody (Num 5) (Num 11) None))"
    using run_requires_readiness [where c = ready_app and env = "env_of probe_server" and s = ready_app]
    by (simp add: ready_app_def default_provider_def start_app_def initial_app_def)
  from wp_asked [OF run_requires_readiness [THEN conjunct1] a] a show ?thesis by auto
qed

lemma activation_needs_probe_witness:
  "\<not> profile_stale demo_host start_app sample_profile
   \<and> asks (env_of probe_server) (handleActivateCustomProfile demo_host start_app sample_profile) [] start_app
       (Http POST (activate_path sample_profile) NoBody)"
proof -
  have fresh: "\<not> profile_stale demo_host start_app sample_profile"
    by (simp add: profile_stale_def probe_max_age_def customProviderProfileProbeIsStale_def sample_profile_def demo_host_def
        start_app_def initial_app_def DEFAULT_CUSTOM_PROVIDER_PROBE_MAX_AGE_HOURS_def str_or_def num_truthy_def) code_simp
  with probed_here have a: "asks (env_of probe_server) (handleActivateCustomProfile demo_host start_app sample_profile) []
      start_app (Http POST (activate_path sample_profile) NoBody)"
    using activation_needs_probe by blast
  from wp_asked [OF activation_needs_probe [THEN conjunct1] a] a show ?thesis by auto
qed

definition form_app :: app_state where
  "form_app = start_app\<lparr>customProviderDraft := DEFAULT_CUSTOM_PROVIDER_DRAFT\<rparr>"

lemma saving_needs_probe_witness:
  "\<exists>m path. asks (env_of probe_server) (handleSaveCustomProfile form_app) [] form_app
     (Http m path (ProfileBody (trim (cd_label DEFAULT_CUSTOM_PROVIDER_DRAFT))
        (buildCustomProviderSettings DEFAULT_CUSTOM_PROVIDER_DRAFT)))
   \<and> trim (cd_label DEFAULT_CUSTOM_PROVIDER_DRAFT) \<noteq> []"
proof -
  have f: "customProviderDraft form_app = DEFAULT_CUSTOM_PROVIDER_DRAFT" by (simp add: form_app_def)
  have v: "validateCustomProviderDraft DEFAULT_CUSTOM_PROVIDER_DRAFT = None" by code_simp
  from saving_needs_probe [THEN conjunct2, rule_format, where c = form_app and env = "env_of probe_server" and s = form_app] probed_here v
  obtain m path where a: "asks (env_of probe_server) (handleSaveCustomProfile form_app) [] form_app
     (Http m path (ProfileBody (trim (cd_label DEFAULT_CUSTOM_PROVIDER_DRAFT))
        (buildCustomProviderSettings DEFAULT_CUSTOM_PROVIDER_DRAFT)))" by (auto simp: f)
  from wp_asked [OF saving_needs_probe [THEN conjunct1] a] a show ?thesis by (auto simp: f)
qed

lemma review_sends_the_drafts_witness:
  "asks (env_of probe_server) (handleApproveAllReview demo_host (review_app [] [])) [] start_app
     (Http POST (review_path (Num 7)) (ReviewBody ''local-ui'' [] True None))
   \<and> selectedJobId (review_app [] []) = Some (Num 1)"
proof -
  have a: "asks (env_of probe_server) (submitReview demo_host (review_app [] []) None True) [] start_app
     (Http POST (review_path (Num 7)) (ReviewBody ''local-ui'' [] True None))"
    using review_sends_the_drafts [THEN conjunct2, rule_format, where c = "review_app [] []" and i = "Num 1" and e = "demo_envelope []"
        and env = "env_of probe_server" and w = demo_host and minimum = None and s = start_app] by (simp add: num_truthy_def)
  from wp_asked [OF review_sends_the_drafts [THEN conjunct1] a] a show ?thesis by (simp add: handleApproveAllReview_def)
qed

lemma export_of_selected_result_witness:
  "asks (env_of probe_server) (handleExport demo_host (review_app [] []) ExportCsv) [] start_app
     (Http POST (export_path (Num 7) ExportCsv) NoBody)"
proof -
  have a: "asks (env_of probe_server) (handleExport demo_host (review_app [] []) ExportCsv) [] start_app
     (Http POST (export_path (Num 7) ExportCsv) NoBody)"
    using export_of_selected_result [THEN conjunct2, rule_format, where c = "review_app [] []" and i = "Num 1" and e = "demo_envelope []"
        and env = "env_of probe_server" and w = demo_host and k = ExportCsv and s = start_app] by (simp add: num_truthy_def)
  from wp_asked [OF export_of_selected_result [THEN conjunct1] a] a show ?thesis by auto
qed

definition schema_app :: app_state where
  "schema_app = start_app\<lparr>provider := Some langextract_provider, draftTemplate := starter_draft\<rparr>"

lemma posted_schema_is_built_and_ready_witness:
  "\<exists>d. asks (env_of probe_server) (handleCreateTemplate schema_app) [] schema_app
         (Http POST ''/templates'' (TemplateBody (template_name d) (description d) (document_type d) d))
     \<and> getLangExtractExtractionReadiness d None = None"
proof -
  obtain d where d: "buildTemplatePayload starter_draft (Some langextract_provider) (Some starterTemplateDefinition) = Inr d"
    using starter_payload by blast
  have s: "draftTemplate schema_app = starter_draft" "provider schema_app = Some langextract_provider"
    "currentTemplateDefinition schema_app = None"
    by (simp_all add: schema_app_def currentTemplateDefinition_def find_version_def start_app_def initial_app_def)
  have le: "isLangExtractProvider (Some langextract_provider)" "trim (dt_prompt_description starter_draft) \<noteq> []"
    "dt_examples starter_draft \<noteq> []" by code_simp+
  from d have a: "asks (env_of probe_server) (handleCreateTemplate schema_app) [] schema_app
       (Http POST ''/templates'' (TemplateBody (template_name d) (description d) (document_type d) d))"
    using posted_schema_is_built_and_ready [THEN conjunct2, rule_format, where c = schema_app and d = d and env = "env_of probe_server" and s = schema_app]
    by (simp add: s)
  from wp_asked [OF posted_schema_is_built_and_ready [THEN conjunct1] a] le have
    "getLangExtractExtractionReadiness d None = None" by (auto simp: s)
  with a show ?thesis by blast
qed
end
