(* ===== verification/AppInvariant.thy ===== *)
theory AppInvariant
  imports AppHandlers
begin

text \<open>
  What holds of the state of \<open>App\<close> whenever it is rendered: in every state reachable by any interleaving of
  handlers, effects, clicks and replies. The locale gives the induction once; the updates of the
  handlers and the changes made at once discharge its assumptions.
\<close>

section \<open>Invariants of interleaved handlers\<close>

locale state_invariant =
  fixes holds :: "'s \<Rightarrow> bool"
    and start :: "'s \<Rightarrow> bool"
    and events :: "'s \<Rightarrow> ('s, 'a) proc \<Rightarrow> bool"
    and change :: "'s \<Rightarrow> 's \<Rightarrow> bool"
  assumes start_holds: "start s \<Longrightarrow> holds s"
    and events_keep: "events s p \<Longrightarrow> all_updates (\<lambda>u. \<forall>s. holds s \<longrightarrow> holds (u s)) p"
    and change_keeps: "change s s' \<Longrightarrow> holds s \<Longrightarrow> holds s'"
begin

lemma advance_holds:
  "all_updates (\<lambda>u. \<forall>s. holds s \<longrightarrow> holds (u s)) p \<Longrightarrow> holds s \<Longrightarrow> advance p s = (s', p') \<Longrightarrow>
   holds s' \<and> all_updates (\<lambda>u. \<forall>s. holds s \<longrightarrow> holds (u s)) p'"
  by (induction p arbitrary: s) auto

lemma reach_holds:
  "reach start events change c \<Longrightarrow>
   holds (fst c) \<and> (\<forall>t \<in> set (snd c). all_updates (\<lambda>u. \<forall>s. holds s \<longrightarrow> holds (u s)) (snd t))"
proof (induction rule: reach.induct)
  case (init s)
  then show ?case by (simp add: start_holds)
next
  case (event s ts p s' p')
  with advance_holds [OF events_keep [OF event.hyps(2)] _ event.hyps(3)] show ?case
    by (auto simp: park_def)
next
  case (change s ts s')
  with change_keeps show ?case by auto
next
  case (reply s us h qs k vs rs s' p')
  then have "all_updates (\<lambda>u. \<forall>s. holds s \<longrightarrow> holds (u s)) (k rs)" "holds s" by auto
  from advance_holds [OF this reply.hyps(2)] reply.IH show ?case by (auto simp: park_def)
qed

lemma always: "reach start events change (s, ts) \<Longrightarrow> holds s"
  using reach_holds [of "(s, ts)"] by simp

end

section \<open>What holds of the state\<close>

text \<open>The records of the state have each key once; the keys of the suggestions are kept once.\<close>

definition maps_sound :: "app_state \<Rightarrow> bool" where
  "maps_sound s \<longleftrightarrow> obj_ok (reviewDrafts s) \<and> obj_ok (probeResults s) \<and> obj_ok (providerHealth s)
     \<and> distinct (map fst (resultsByJob s)) \<and> distinct (sessionAppliedKeys s) \<and> distinct (dismissedKeys s)"

text \<open>The notices hidden on screen are those the storage says are dismissed.\<close>

definition flags_stored :: "app_state \<Rightarrow> bool" where
  "flags_stored s \<longleftrightarrow>
     (\<forall>st. localStorage s = Some st \<longrightarrow>
        (mockProviderWarningDismissed s = (getItem st MOCK_PROVIDER_WARNING_DISMISS_KEY = Some ''true''))
      \<and> (desktopOnboardingDismissed s \<longrightarrow> getItem st DESKTOP_ONBOARDING_KEY = Some ''true''))"

text \<open>Where no suggestions are shown for the version, or none could be loaded, none are held.\<close>

definition feedback_sound :: "app_state \<Rightarrow> bool" where
  "feedback_sound s \<longleftrightarrow>
     (langextractFeedbackStatus s = FeedbackIdle \<or> langextractFeedbackStatus s = FeedbackError \<longrightarrow>
      langextractFeedbackSuggestions s = [])"

text \<open>Every window opened is the download of an export.\<close>

definition export_download :: "host \<Rightarrow> string \<Rightarrow> bool" where
  "export_download w url \<longleftrightarrow> (\<exists>i. url = api_base w @ path_with_id ''/exports/'' i ''/download'')"

definition windows_sound :: "host \<Rightarrow> app_state \<Rightarrow> bool" where
  "windows_sound w s \<longleftrightarrow> list_all (export_download w) (openedWindows s)"

definition sound :: "host \<Rightarrow> app_state \<Rightarrow> bool" where
  "sound w s \<longleftrightarrow> maps_sound s \<and> flags_stored s \<and> feedback_sound s \<and> windows_sound w s"

definition keeps_sound :: "host \<Rightarrow> (app_state \<Rightarrow> app_state) \<Rightarrow> bool" where
  "keeps_sound w u \<longleftrightarrow> (\<forall>s. sound w s \<longrightarrow> sound w (u s))"

lemmas sound_defs = keeps_sound_def sound_def maps_sound_def flags_stored_def feedback_sound_def windows_sound_def

lemma storage_keys [simp]:
  "MOCK_PROVIDER_WARNING_DISMISS_KEY \<noteq> DESKTOP_ONBOARDING_KEY"
  "DESKTOP_ONBOARDING_KEY \<noteq> MOCK_PROVIDER_WARNING_DISMISS_KEY"
  "MOCK_PROVIDER_WARNING_DISMISS_KEY \<noteq> CUSTOM_PROVIDER_DRAFT_STORAGE_KEY"
  "DESKTOP_ONBOARDING_KEY \<noteq> CUSTOM_PROVIDER_DRAFT_STORAGE_KEY"
  by code_simp+

lemma obj_ok_drafts [simp]: "obj_ok (initial_review_drafts r d)"
  by (simp add: initial_review_drafts_def js_object)

lemma distinct_add_once [simp]: "distinct ks \<Longrightarrow> distinct (add_once k ks)"
  by (simp add: add_once_def)

lemma distinct_rec_put [simp]: "distinct (map fst m) \<Longrightarrow> distinct (map fst (rec_put k v m))"
  by (simp add: rec_put_def distinct_update)

lemma distinct_rec_fold: "distinct (map fst (foldl (\<lambda>m (k, v). rec_put k v m) [] es))"
  by (induction es rule: rev_induct) (auto split: prod.split)

section \<open>The refresh and the shape of a handler\<close>

named_theorems keep_rules \<open>handlers whose updates keep the invariant\<close>

lemma keeps_banner [keep_rules]: "keeps_sound w (show_banner t m)" "keeps_sound w (set_busy b)"
  by (simp_all add: sound_defs show_banner_def set_busy_def)

lemma keeps_shapes [keep_rules]:
  "all_updates (keeps_sound w) (succeed m)" "all_updates (keeps_sound w) (refuse m)"
  "all_updates (keeps_sound w) (show_error d e)" "all_updates (keeps_sound w) (Return ())"
  by (simp_all add: succeed_def refuse_def show_error_def keep_rules)

lemma keeps_handled [keep_rules]:
  "all_updates (keeps_sound w) body \<Longrightarrow> all_updates (keeps_sound w) (handled b d body)"
  unfolding handled_def by (intro all_updates_finally all_updates_catch) (simp_all add: keep_rules)

lemma keeps_core_data [keep_rules]: "keeps_sound w (apply_core_data rs)"
  by (simp add: sound_defs apply_core_data_def js_object)

lemma keeps_refresh [keep_rules]: "all_updates (keeps_sound w) (refreshCoreData c)"
proof -
  have "all_updates (keeps_sound w) (load_versions c ts)" for ts
    by (simp add: load_versions_def sound_defs)
  moreover have "all_updates (keeps_sound w) (load_results c js)" for js
    by (simp add: load_results_def sound_defs distinct_rec_fold)
  ultimately show ?thesis
    unfolding refreshCoreData_def
    by (intro all_updates_bind all_updates_catch all_updates_await)
      (auto simp: keep_rules intro: all_updates_bind, simp_all add: sound_defs)
qed

lemma keeps_feedback [keep_rules]:
  "keeps_sound w (applyLangExtractFeedback f)" "keeps_sound w (clear_feedback st)"
  "all_updates (keeps_sound w) (fetchLangExtractFeedbackSuggestions v)"
  by (simp_all add: sound_defs applyLangExtractFeedback_def clear_feedback_def fetchLangExtractFeedbackSuggestions_def wp_simps)


section \<open>Changes made at once\<close>

lemma sync_sound:
  "sound w s \<Longrightarrow> sound w (syncJobSelection c i s)"
  by (auto simp: syncJobSelection_def sound_defs Let_def split: option.split)

lemma dismissals_sound:
  "sound w s \<Longrightarrow> sound w (dismissMockWarning s)"
  "sound w s \<Longrightarrow> sound w (dismissDesktopOnboarding s)"
  "sound w s \<Longrightarrow> sound w (effect_restore_flags s)"
  "sound w s \<Longrightarrow> sound w (effect_persist_draft c s)"
  by (auto simp: sound_defs dismissMockWarning_def dismissMockProviderWarning_def dismissDesktopOnboarding_def
      effect_restore_flags_def effect_persist_draft_def writePersistedCustomProviderDraft_def
      readMockProviderWarningDismissed_def)

lemma url_seed_sound: "sound w s \<Longrightarrow> sound w (effect_url_seed c s)"
proof -
  assume s: "sound w s"
  let ?u = "parseWorkspaceSearch (snd (address s))"
  have "sound w (if url_status ?u \<noteq> jobStatusFilter c then s\<lparr>jobStatusFilter := url_status ?u\<rparr> else s)"
    using s by (simp add: sound_defs)
  moreover have "sound w t \<Longrightarrow> sound w (t\<lparr>workspaceSeeded := True\<rparr>)" for t by (simp add: sound_defs)
  ultimately show ?thesis by (auto simp: effect_url_seed_def Let_def sync_sound)
qed

lemma default_seed_sound: "sound w s \<Longrightarrow> sound w (effect_default_seed c s)"
proof -
  have "sound w t \<Longrightarrow> sound w (t\<lparr>workspaceSeeded := True\<rparr>)" for t by (simp add: sound_defs)
  then show "sound w s \<Longrightarrow> sound w (effect_default_seed c s)"
    by (auto simp: effect_default_seed_def sync_sound split: option.split)
qed

lemma select_job_sound: "sound w s \<Longrightarrow> sound w (handleSelectJob c i s)"
proof -
  assume "sound w s"
  then have "sound w (syncJobSelection c i (s\<lparr>workspaceSeeded := True\<rparr>))"
    by (intro sync_sound) (simp add: sound_defs)
  then show ?thesis by (simp add: handleSelectJob_def sound_defs)
qed

lemma edits_sound:
  "sound w s \<Longrightarrow> sound w (setReviewDraft n v s)"
  "sound w s \<Longrightarrow> sound w (handleStartNewExtraction s)"
  "sound w s \<Longrightarrow> sound w (handleJobStatusFilterChange c st s)"
  "sound w s \<Longrightarrow> sound w (handleLoadCustomProfile p s)"
  "sound w s \<Longrightarrow> sound w (handleApplyLangExtractSuggestion g s)"
  "sound w s \<Longrightarrow> sound w (openSchemaDraft c x s)"
  by (auto simp: sound_defs setReviewDraft_def js_object handleStartNewExtraction_def handleJobStatusFilterChange_def
      handleLoadCustomProfile_def handleApplyLangExtractSuggestion_def openSchemaDraft_def show_banner_def
      split: option.split)

lemma selection_sound:
  "sound w s \<Longrightarrow> sound w (effect_select_version c s)"
  "sound w s \<Longrightarrow> sound w (effect_select_document c s)"
  "sound w s \<Longrightarrow> sound w (effect_reset_draft c s)"
  by (auto simp: sound_defs effect_select_version_def effect_select_document_def effect_reset_draft_def split: option.split)

lemma audit_sound: "sound w s \<Longrightarrow> sound w (openAuditJob c i s)"
  using select_job_sound [of w s c i] by (simp add: openAuditJob_def Let_def sound_defs)

lemma local_change_sound: "local_change s s' \<Longrightarrow> sound w s \<Longrightarrow> sound w s'"
  by (induction rule: local_change.induct)
    (simp_all add: dismissals_sound edits_sound selection_sound audit_sound select_job_sound url_seed_sound
      default_seed_sound, simp_all add: sound_defs)

section \<open>The handlers\<close>

lemma keeps_if: "all_updates R p \<Longrightarrow> all_updates R q \<Longrightarrow> all_updates R (if b then p else q)"
  by simp

lemma keeps_probe [keep_rules]: "all_updates (keeps_sound w) (runProviderProbe k l p)"
  unfolding runProviderProbe_def
  by (intro all_updates_finally all_updates_catch)
    (auto simp: keep_rules intro!: all_updates_bind all_updates_await, simp_all add: sound_defs js_object)

lemma keeps_ensure [keep_rules]: "all_updates (keeps_sound w) (ensureProviderProbeReachable k l p a)"
  unfolding ensureProviderProbeReachable_def by (intro all_updates_bind keep_rules) (simp_all add: keep_rules)

lemma keeps_review [keep_rules]: "all_updates (keeps_sound w) (submitReview v c m a)"
proof -
  have "keeps_sound w (store_review c i e updated)" for i e updated
    by (simp add: sound_defs store_review_def)
  moreover have "keeps_sound w (suggestions_banner f x)" for f x
    by (simp add: sound_defs suggestions_banner_def)
  moreover from this have "all_updates (keeps_sound w) (review_feedback c i)" for i
    by (auto simp: review_feedback_def review_saved_def keep_rules split: option.split intro!: all_updates_bind)
  ultimately show ?thesis
    by (auto simp: submitReview_def keep_rules split: option.split intro!: keeps_handled all_updates_bind all_updates_await)
qed


lemma keeps_unless_invalid [keep_rules]:
  "all_updates (keeps_sound w) p \<Longrightarrow> all_updates (keeps_sound w) (unless_invalid c p)"
  by (simp add: unless_invalid_def keep_rules split: option.split)

lemma keeps_setters [keep_rules]:
  "keeps_sound w (\<lambda>s. s\<lparr>exportPolicy := a\<rparr>)" "keeps_sound w (\<lambda>s. s\<lparr>provider := b\<rparr>)"
  "keeps_sound w (\<lambda>s. s\<lparr>selectedCustomProfileId := d\<rparr>)" "keeps_sound w (\<lambda>s. s\<lparr>desktopStatus := e\<rparr>)"
  "keeps_sound w (\<lambda>s. s\<lparr>desktopLogs := f\<rparr>)" "keeps_sound w (select_job_of i)"
  "keeps_sound w (\<lambda>s. (select_job_of i s)\<lparr>activePage := g\<rparr>)"
  "keeps_sound w (\<lambda>s. s\<lparr>selectedDocumentId := h, selectedJobId := j, focusedFieldName := k, activePage := g\<rparr>)"
  "keeps_sound w (\<lambda>s. s\<lparr>dismissedKeys := add_once x (dismissedKeys s)\<rparr>)"
  "keeps_sound w (\<lambda>s. s\<lparr>probeResults := obj_put y z (probeResults s)\<rparr>)"
  "keeps_sound w (\<lambda>s. s\<lparr>openedWindows := openedWindows s @ [api_base w @ path_with_id ''/exports/'' i ''/download'']\<rparr>)"
  by (auto simp: sound_defs select_job_of_def js_object export_download_def)

lemma keeps_effects [keep_rules]:
  "all_updates (keeps_sound w) (refreshDesktopStatus c)"
  "all_updates (keeps_sound w) (effect_feedback c)"
  "all_updates (keeps_sound w) (handleDismissLangExtractSuggestion c k)"
proof -
  show "all_updates (keeps_sound w) (refreshDesktopStatus c)"
    by (auto simp: refreshDesktopStatus_def keep_rules intro!: all_updates_catch all_updates_bind all_updates_await)
  have clear: "keeps_sound w (unless_cancelled n u)" if "keeps_sound w u" for n u
    using that by (simp add: keeps_sound_def unless_cancelled_def)
  have run: "sound w s \<Longrightarrow> sound w (s\<lparr>feedbackRun := n\<rparr>)" for s n by (simp add: sound_defs)
  show "all_updates (keeps_sound w) (effect_feedback c)"
    by (auto simp: effect_feedback_def feedback_load_def keep_rules clear intro!: all_updates_catch all_updates_bind
        split: option.split, simp_all add: sound_defs)
  show "all_updates (keeps_sound w) (handleDismissLangExtractSuggestion c k)"
    by (auto simp: handleDismissLangExtractSuggestion_def keep_rules
        intro!: all_updates_catch all_updates_bind all_updates_await)
qed

lemma keeps_desktop [keep_rules]:
  "all_updates (keeps_sound w) (desktop_command c b m d f)" "all_updates (keeps_sound w) (desktop_open c b m d f)"
  by (auto simp: desktop_command_def desktop_open_def keep_rules intro!: keeps_handled all_updates_bind all_updates_await)

lemma keeps_documents [keep_rules]:
  "all_updates (keeps_sound w) (handleSetExportPolicy c b)" "all_updates (keeps_sound w) (handleUpload c f)"
  "all_updates (keeps_sound w) (handleCreateTemplate c)" "all_updates (keeps_sound w) (handleRunExtraction c)"
  "all_updates (keeps_sound w) (handleRetryJob c)" "all_updates (keeps_sound w) (handleCancelJob c)"
  by (auto simp: handleSetExportPolicy_def handleUpload_def uploadDocument_def handleCreateTemplate_def handleRunExtraction_def
      handleRetryJob_def handleCancelJob_def keep_rules split: option.split
      intro!: keeps_handled all_updates_bind all_updates_await)

lemma keeps_export [keep_rules]: "all_updates (keeps_sound w) (handleExport w c k)"
  by (auto simp: handleExport_def keep_rules split: option.split intro!: keeps_handled all_updates_bind all_updates_await)

lemma keeps_providers [keep_rules]:
  "all_updates (keeps_sound w) (handleSetProvider p)" "all_updates (keeps_sound w) (handleProbeProvider e)"
  "all_updates (keeps_sound w) (handleSetCustomProvider c)" "all_updates (keeps_sound w) (handleProbeCustomProvider c)"
  by (auto simp: handleSetProvider_def handleProbeProvider_def handleSetCustomProvider_def handleProbeCustomProvider_def keep_rules
      intro!: keeps_unless_invalid keeps_handled all_updates_bind all_updates_await)

lemma keeps_save_request [keep_rules]: "all_updates (keeps_sound w) (save_profile_request c)"
  by (auto simp: save_profile_request_def Let_def keep_rules split: option.split list.split
      intro!: all_updates_bind all_updates_await)

lemma keeps_profiles [keep_rules]:
  "all_updates (keeps_sound w) (handleReverifyCustomProfile c q)" "all_updates (keeps_sound w) (handleDeleteCustomProfile c q)"
  by (auto simp: handleReverifyCustomProfile_def handleDeleteCustomProfile_def keep_rules
      intro!: keeps_handled all_updates_bind all_updates_await)

lemma keeps_after_probe:
  "all_updates (keeps_sound w) p \<Longrightarrow> all_updates (keeps_sound w)
     (bind (ensureProviderProbeReachable k l q a) (\<lambda>passed. if \<not> passed then Return () else handled b d p))"
  by (intro all_updates_bind keeps_ensure keeps_if keeps_handled) simp_all

lemma keeps_activate [keep_rules]: "all_updates (keeps_sound w) (handleActivateCustomProfile v c q)"
  unfolding handleActivateCustomProfile_def
  by (intro keeps_if keeps_after_probe) (auto simp: keep_rules intro!: all_updates_bind all_updates_await)

lemma keeps_save [keep_rules]: "all_updates (keeps_sound w) (handleSaveCustomProfile c)"
  unfolding handleSaveCustomProfile_def Let_def
  by (intro keeps_unless_invalid keeps_after_probe) (auto simp: keep_rules intro!: all_updates_bind all_updates_await)

lemma keeps_shell [keep_rules]:
  "all_updates (keeps_sound w) (handleDesktopStart c)" "all_updates (keeps_sound w) (handleDesktopStop c)"
  "all_updates (keeps_sound w) (handleDesktopRestart c)" "all_updates (keeps_sound w) (handleDesktopOpenProjectRoot c)"
  "all_updates (keeps_sound w) (handleDesktopOpenAppDataDir c)" "all_updates (keeps_sound w) (handleDesktopLoadLogs c)"
  by (auto simp: handleDesktopStart_def handleDesktopStop_def handleDesktopRestart_def handleDesktopOpenProjectRoot_def
      handleDesktopOpenAppDataDir_def handleDesktopLoadLogs_def keep_rules
      intro!: keeps_handled all_updates_bind all_updates_await)

lemma app_event_keeps: "app_event w s p \<Longrightarrow> all_updates (keeps_sound w) p"
  by (induction rule: app_event.induct)
    (simp_all add: keep_rules handleSaveReview_def handleApproveAllReview_def handleApproveHighConfidenceReview_def)

lemma loading_keeps_flags:
  assumes "snd (loadSavedCustomProviderDraft storage) = Some st"
  shows "\<exists>st'. storage = Some st' \<and>
    getItem st MOCK_PROVIDER_WARNING_DISMISS_KEY = getItem st' MOCK_PROVIDER_WARNING_DISMISS_KEY"
  using assms unfolding loadSavedCustomProviderDraft_def readPersistedCustomProviderDraft_def
  by (auto split: option.splits if_splits)

lemma reload_storage:
  "\<exists>st'. localStorage (initial_app (Some st) url tauri) = Some st'
    \<and> getItem st' MOCK_PROVIDER_WARNING_DISMISS_KEY = getItem st MOCK_PROVIDER_WARNING_DISMISS_KEY
    \<and> getItem st' DESKTOP_ONBOARDING_KEY = getItem st DESKTOP_ONBOARDING_KEY"
  by (simp add: initial_app_def loadSavedCustomProviderDraft_def readPersistedCustomProviderDraft_def
      split: option.split)

lemma initial_sound: "sound w (initial_app storage url tauri)"
proof -
  let ?s = "initial_app storage url tauri"
  have "localStorage ?s = snd (loadSavedCustomProviderDraft storage)"
    and "mockProviderWarningDismissed ?s = readMockProviderWarningDismissed storage"
    and "\<not> desktopOnboardingDismissed ?s"
    by (simp_all add: initial_app_def)
  then have "flags_stored ?s"
    using loading_keeps_flags [of storage] by (auto simp: flags_stored_def readMockProviderWarningDismissed_def)
  then show ?thesis
    by (simp add: sound_def maps_sound_def feedback_sound_def windows_sound_def initial_app_def)
qed

interpretation app: state_invariant "sound w" app_start "app_event w" local_change
proof
  show "sound w s" if "app_start s" for s
    using that by (auto simp: app_start_def initial_sound)
  show "all_updates (\<lambda>u. \<forall>s. sound w s \<longrightarrow> sound w (u s)) p" if "app_event w s p" for s p
    using app_event_keeps [OF that] by (simp add: keeps_sound_def [abs_def])
  show "sound w s'" if "local_change s s'" "sound w s" for s s'
    using that by (rule local_change_sound)
qed

section \<open>The reachable states\<close>

text \<open>
  C18: In every state \<open>App\<close> can reach, whatever handlers, effects, clicks and late replies are interleaved: the
  review drafts, the probes and the health records have each key once and in property order, results are
  kept once per job, dismissed and applied suggestions once; no suggestion is held where the feedback is
  idle or failed; and every window opened was the download of an export of this API.
\<close>

theorem reachable_state_is_sound:
  assumes "reach app_start (app_event w) local_change (s, ts)"
  shows "obj_ok (reviewDrafts s) \<and> obj_ok (probeResults s) \<and> obj_ok (providerHealth s)
    \<and> distinct (map fst (resultsByJob s)) \<and> distinct (sessionAppliedKeys s) \<and> distinct (dismissedKeys s)
    \<and> (langextractFeedbackStatus s = FeedbackIdle \<or> langextractFeedbackStatus s = FeedbackError \<longrightarrow>
        langextractFeedbackSuggestions s = [])
    \<and> (\<forall>url \<in> set (openedWindows s). export_download w url)"
  using app.always [OF assms]
  by (simp add: sound_def maps_sound_def feedback_sound_def windows_sound_def list_all_iff)

lemma start_reachable: "reach app_start (app_event w) local_change (start_app, [])"
  by (rule reach.init) (auto simp: app_start_def start_app_def)

lemma typed_reachable:
  "reach app_start (app_event w) local_change (setReviewDraft ''total'' ''9'' (setReviewDraft ''total'' ''8'' start_app), [])"
  by (rule reach.change [OF reach.change [OF start_reachable]]) (rule local_change.review_draft)+

lemma reachable_state_is_sound_witness:
  "obj_ok (reviewDrafts (setReviewDraft ''total'' ''9'' (setReviewDraft ''total'' ''8'' start_app)))"
  using reachable_state_is_sound [OF typed_reachable [of demo_host]] by blast

text \<open>
  What was dismissed stays dismissed: after any session, opening the app again from the storage the
  session left behind hides the production warning exactly if it was hidden, and the desktop reminder
  if it was hidden, however the effects, handlers and replies of the session were interleaved.
\<close>

theorem dismissals_survive_reload:
  assumes "reach app_start (app_event w) local_change (s, ts)" "localStorage s = Some st"
  shows "mockProviderWarningDismissed (effect_restore_flags (initial_app (localStorage s) url tauri)) = mockProviderWarningDismissed s
    \<and> (desktopOnboardingDismissed s \<longrightarrow>
        desktopOnboardingDismissed (effect_restore_flags (initial_app (localStorage s) url tauri)))"
proof -
  let ?c = "initial_app (localStorage s) url tauri"
  from app.always [OF assms(1)] have "flags_stored s" by (simp add: sound_def)
  moreover obtain st' where "localStorage ?c = Some st'"
    and "getItem st' MOCK_PROVIDER_WARNING_DISMISS_KEY = getItem st MOCK_PROVIDER_WARNING_DISMISS_KEY"
    and "getItem st' DESKTOP_ONBOARDING_KEY = getItem st DESKTOP_ONBOARDING_KEY"
    using reload_storage [of st url tauri] assms(2) by auto
  ultimately show ?thesis
    using assms(2) by (simp add: effect_restore_flags_def readMockProviderWarningDismissed_def flags_stored_def)
qed

lemma dismissals_survive_reload_witness:
  "mockProviderWarningDismissed (effect_restore_flags (initial_app
      (localStorage (dismissMockWarning start_app)) (''/'', '''') False))"
proof -
  have "reach app_start (app_event demo_host) local_change (dismissMockWarning start_app, [])"
    by (rule reach.change [OF start_reachable]) (rule local_change.dismiss_mock)
  moreover have "localStorage (dismissMockWarning start_app) = Some (setItem MOCK_PROVIDER_WARNING_DISMISS_KEY ''true'' [])"
    by (simp add: dismissMockWarning_def dismissMockProviderWarning_def start_app_def initial_app_def
        loadSavedCustomProviderDraft_def readPersistedCustomProviderDraft_def getItem_def)
  moreover have "mockProviderWarningDismissed (dismissMockWarning start_app)" by (simp add: dismissMockWarning_def)
  ultimately show ?thesis
    using dismissals_survive_reload [of demo_host "dismissMockWarning start_app" "[]" _ "(''/'', '''')" False] by blast
qed

end
