(* ===== verification/EditorSessions.thy ===== *)
theory EditorSessions
  imports ReviewEditors
begin

text \<open>
  The table editor over a whole session. The editor keeps no table of its own: each action parses the draft
  text it is given, changes the rows and hands back the text. The locale states what makes such an editor a
  refinement of the same actions on the rows alone; it is interpreted on \<open>TableReviewEditor\<close>.
\<close>

section \<open>Editors that work on a text\<close>

locale text_editor =
  fixes parse :: "'t \<Rightarrow> 'm \<times> 'e option"
    and spell :: "'m \<Rightarrow> 't"
    and valid :: "'m \<Rightarrow> bool"
    and act :: "'a \<Rightarrow> 'm \<Rightarrow> 'm"
  assumes parse_spell: "valid m \<Longrightarrow> parse (spell m) = (m, None)"
    and parse_valid: "valid (fst (parse t))"
    and act_valid: "valid m \<Longrightarrow> valid (act a m)"
begin

lemma edit_refines: "parse (spell (act a (fst (parse t)))) = (act a (fst (parse t)), None)"
  by (intro parse_spell act_valid parse_valid)

lemma session_refines:
  "as \<noteq> [] \<Longrightarrow> parse (foldl (\<lambda>t a. spell (act a (fst (parse t)))) t as) = (foldl (\<lambda>m a. act a m) (fst (parse t)) as, None)"
proof (induction as rule: rev_induct)
  case (snoc a as)
  then show ?case
    using edit_refines [of a "foldl (\<lambda>t a. spell (act a (fst (parse t)))) t as"]
    by (cases "as = []") (simp_all add: edit_refines)
qed simp

end

section \<open>The table editor\<close>

datatype table_action =
    EditCell nat string string
  | AppendRow
  | AppendColumn

text \<open>What the text becomes, by the functions of the editor on the rows it parsed.\<close>

primrec edit_table :: "(string \<Rightarrow> string) \<Rightarrow> table_action \<Rightarrow> string \<Rightarrow> string" where
  "edit_table se (EditCell i column v) raw = updateCell i column v (fst (parseTableDraft se raw))"
| "edit_table se AppendRow raw = addRow (fst (parseTableDraft se raw))"
| "edit_table se AppendColumn raw = addColumn (fst (parseTableDraft se raw))"

text \<open>The specification: the same actions on the rows.\<close>

primrec act_on_rows :: "table_action \<Rightarrow> table_row list \<Rightarrow> table_row list" where
  "act_on_rows (EditCell i column v) rows = update_cell_rows i column v rows"
| "act_on_rows AppendRow rows = add_row_rows rows"
| "act_on_rows AppendColumn rows = add_column_rows rows"

lemma edit_table_eq: "edit_table se a raw = serializeTableRows (act_on_rows a (fst (parseTableDraft se raw)))"
  by (cases a) (simp_all add: updateCell_def addRow_def addColumn_def)

lemma singleton_ok: "obj_ok [(k, v)]"
  by (simp add: obj_ok_def)

lemma act_on_rows_ok: "list_all obj_ok rows \<Longrightarrow> list_all obj_ok (act_on_rows a rows)"
  by (cases a) (auto simp: list_all_length nth_update_cell_rows add_row_rows_def add_column_rows_def obj_ok_put
      obj_ok_from_entries singleton_ok nth_append)

interpretation table: text_editor "parseTableDraft se" serializeTableRows "list_all obj_ok" act_on_rows
proof
  show "list_all obj_ok (fst (parseTableDraft se t))" for t
    using parsed_rows_ok by (metis prod.collapse)
qed (simp_all add: table_reads_back act_on_rows_ok)

text \<open>
  C25: A session of the table editor refines the same session on plain rows: after any sequence of cell edits, new
  rows and new columns the text is read without an error as the rows that the actions give, starting from
  the rows the editor could read; a text it could not read counts as no rows, so the first action replaces it.
\<close>

theorem table_session_refines_rows:
  assumes "as \<noteq> []"
  shows "parseTableDraft se (foldl (\<lambda>raw a. edit_table se a raw) raw as) =
    (foldl (\<lambda>rows a. act_on_rows a rows) (fst (parseTableDraft se raw)) as, None)"
  unfolding edit_table_eq using assms by (rule table.session_refines)

lemma table_session_refines_rows_witness:
  "parseTableDraft id (edit_table id (EditCell 0 ''column_1'' ''x'') (edit_table id AppendColumn ''{}'')) = ([[(''column_1'', ''x'')]], None)"
proof -
  have "foldl (\<lambda>rows a. act_on_rows a rows) (fst (parseTableDraft id ''{}'')) [AppendColumn, EditCell 0 ''column_1'' ''x'']
      = [[(''column_1'', ''x'')]]"
    by code_simp
  with table_session_refines_rows [of "[AppendColumn, EditCell 0 ''column_1'' ''x'']" id "''{}''"] show ?thesis by simp
qed
end
