(* ===== verification/Workspace.thy ===== *)
theory Workspace
  imports AppHandlers "HOL-Library.Multiset"
begin

text \<open>
  \<open>ExtractionWorkspacePage\<close>: the values it derives from the props \<open>App\<close> passes, which are fields of the
  state \<open>c\<close>, the job list, the stage of the selected job, and the actions offered with their enablement.
  The theorems relate them to the handlers: what the page offers is what the handler will do.
\<close>

section \<open>The selected job and what belongs to it\<close>

definition selectedJob :: "app_state \<Rightarrow> job_record option" where
  "selectedJob c = (if id_truthy (selectedJobId c) then find (\<lambda>j. same_id (Some (job_id j)) (selectedJobId c)) (jobs c) else None)"

definition selectedResult :: "app_state \<Rightarrow> result_envelope option" where
  "selectedResult c = Option.bind (selectedJob c) (\<lambda>j. result_of_job c (job_id j))"

definition find_document :: "app_state \<Rightarrow> jsnum option \<Rightarrow> document_record option" where
  "find_document c i = find (\<lambda>d. same_id (Some (document_id d)) i) (documents c)"

definition selectedDocument :: "app_state \<Rightarrow> document_record option" where
  "selectedDocument c =
     or_else (Option.bind (selectedJob c) (\<lambda>j. find_document c (Some (job_document_id j))))
       (find_document c (selectedDocumentId c))"

definition selectedTemplateVersion :: "app_state \<Rightarrow> template_version_record option" where
  "selectedTemplateVersion c =
     or_else (Option.bind (selectedJob c) (\<lambda>j. find_version c (Some (job_version_id j))))
       (find_version c (selectedTemplateVersionId c))"

definition parserFailureGuidance :: "app_state \<Rightarrow> failure_guidance option" where
  "parserFailureGuidance c = getParserFailureGuidance (Option.bind (selectedJob c) job_record.error_message)"

definition find_template :: "app_state \<Rightarrow> jsnum option \<Rightarrow> template_summary option" where
  "find_template c i = find (\<lambda>t. same_id (Some (template_id t)) i) (templates c)"

definition selectedTemplate :: "app_state \<Rightarrow> template_summary option" where
  "selectedTemplate c =
     or_else (find_template c (map_option version_template_id (selectedTemplateVersion c)))
       (find_template c (selectedTemplateId c))"

definition selectedSchemaVersions :: "app_state \<Rightarrow> template_version_record list" where
  "selectedSchemaVersions c =
     filter (\<lambda>v. same_id (Some (version_template_id v)) (or_else (map_option template_id (selectedTemplate c)) (selectedTemplateId c)))
       (templateVersions c)"

text \<open>\<open>None\<close>: ready; otherwise the message.\<close>

definition langExtractRunReadiness :: "app_state \<Rightarrow> string option" where
  "langExtractRunReadiness c =
     (case selectedTemplateVersion c of
        None \<Rightarrow> None
      | Some v \<Rightarrow> getLangExtractExtractionReadiness (definition_of v)
          (if isLangExtractProvider (default_provider c) then default_provider c else None))"

definition stage :: "app_state \<Rightarrow> workspace_stage" where
  "stage c =
     (case selectedJob c of
        None \<Rightarrow> StageDraft
      | Some j \<Rightarrow>
          if job_status j = ''failed'' then StageFailed
          else if job_status j = ''completed'' then
            (case selectedResult c of
               None \<Rightarrow> StageReady
             | Some r \<Rightarrow>
                 if length (fields_requiring_review (result_of r)) > 0 \<or>
                    require_review_cleared (exportPolicy c) \<and> review_status (result_of r) = Some ''pending''
                 then StageReview else StageReady)
          else StageProcessing)"

section \<open>Fields, progress and provider\<close>

definition extractedFields :: "app_state \<Rightarrow> review_field list" where
  "extractedFields c = (case selectedResult c of None \<Rightarrow> [] | Some r \<Rightarrow> result_extracted (result_of r))"

definition calculatedFields :: "app_state \<Rightarrow> review_field list" where
  "calculatedFields c = (case selectedResult c of None \<Rightarrow> [] | Some r \<Rightarrow> result_calculated (result_of r))"

definition fieldsNeedingReview :: "app_state \<Rightarrow> review_field list" where
  "fieldsNeedingReview c = filter (\<lambda>f. requires_review f \<or> validation_status f = ''invalid'') (extractedFields c)"

definition highConfidenceReviewCount :: "app_state \<Rightarrow> nat" where
  "highConfidenceReviewCount c =
     length (filter (\<lambda>f. isHighConfidenceField f REVIEW_HIGH_CONFIDENCE_MIN) (fieldsNeedingReview c))"

definition jobProgressPct :: "app_state \<Rightarrow> jsnum" where
  "jobProgressPct c = clampProgressPct (Option.bind (selectedJob c) progress_pct)"

definition jobProgressLabel :: "app_state \<Rightarrow> string" where
  "jobProgressLabel c =
     getJobStageLabel (or_else (Option.bind (selectedJob c) progress_stage)
       (if map_option job_status (selectedJob c) = Some ''queued'' then Some ''queued'' else None))"

definition workspaceInteractive :: "app_state \<Rightarrow> bool" where
  "workspaceInteractive c \<longleftrightarrow> coreDataState c = CoreReady"

definition validatedFields :: "app_state \<Rightarrow> review_field list" where
  "validatedFields c =
     filter (\<lambda>f. \<not> list_ex (\<lambda>g. field_name g = field_name f) (fieldsNeedingReview c)) (extractedFields c)"

definition exportHistory :: "app_state \<Rightarrow> export_record list" where
  "exportHistory c =
     (case selectedJob c of None \<Rightarrow> [] | Some j \<Rightarrow> filter (\<lambda>e. num_eq (export_job_id e) (job_id j)) (exportsList c))"

definition focusedField :: "app_state \<Rightarrow> review_field option" where
  "focusedField c =
     or_else (find (\<lambda>f. Some (field_name f) = focusedFieldName c) (extractedFields c))
       (case fieldsNeedingReview c of f # _ \<Rightarrow> Some f
        | [] \<Rightarrow> (case extractedFields c of f # _ \<Rightarrow> Some f | [] \<Rightarrow> None))"

definition selectedRunProvider :: "app_state \<Rightarrow> provider_settings option" where
  "selectedRunProvider c =
     or_else (map_option (\<lambda>r. llm_provider (result_of r)) (selectedResult c))
     (or_else (Option.bind (selectedJob c) provider_override)
       (map_option (\<lambda>v. llm_provider_settings (definition_of v)) (selectedTemplateVersion c)))"

definition selectedRunProviderLabel :: "app_state \<Rightarrow> string" where
  "selectedRunProviderLabel c =
     (case selectedRunProvider c of
        Some p \<Rightarrow> provider_type p @ '' ('' @ model p @ '')''
      | None \<Rightarrow> ''Unknown provider'')"

definition recommendedTemplateVersion :: "app_state \<Rightarrow> template_version_record option" where
  "recommendedTemplateVersion c = (case selectedSchemaVersions c of v # _ \<Rightarrow> Some v | [] \<Rightarrow> None)"

definition hasMultipleSchemaVersions :: "app_state \<Rightarrow> bool" where
  "hasMultipleSchemaVersions c \<longleftrightarrow> length (selectedSchemaVersions c) > 1"

text \<open>The effect on the local state \<open>showVersionSelector\<close>.\<close>

definition effect_version_selector :: "app_state \<Rightarrow> bool \<Rightarrow> bool" where
  "effect_version_selector c shown =
     (if \<not> hasMultipleSchemaVersions c then False
      else (case (selectedTemplateVersion c, recommendedTemplateVersion c) of
          (Some v, Some r) \<Rightarrow> if \<not> num_eq (version_id v) (version_id r) then True else shown
        | _ \<Rightarrow> shown))"

section \<open>The job list\<close>

definition review_count_of :: "app_state \<Rightarrow> job_record \<Rightarrow> nat" where
  "review_count_of c j =
     (case result_of_job c (job_id j) of None \<Rightarrow> 0 | Some r \<Rightarrow> length (fields_requiring_review (result_of r)))"

definition all_job_groups :: "app_state \<Rightarrow> (string \<times> job_record list) list" where
  "all_job_groups c =
     [(''Processing'', filter (\<lambda>j. job_status j = ''queued'' \<or> job_status j = ''running'') (jobs c)),
      (''Needs review'', filter (\<lambda>j. review_count_of c j > 0) (jobs c)),
      (''Failed'', filter (\<lambda>j. job_status j = ''failed'') (jobs c)),
      (''Cancelled'', filter (\<lambda>j. job_status j = ''cancelled'') (jobs c)),
      (''Completed'', filter (\<lambda>j. job_status j = ''completed'' \<and> review_count_of c j = 0) (jobs c))]"

definition jobGroups :: "app_state \<Rightarrow> (string \<times> job_record list) list" where
  "jobGroups c = filter (\<lambda>(label, items). length items > 0) (all_job_groups c)"

definition visibleJobGroups :: "app_state \<Rightarrow> (string \<times> job_record list) list" where
  "visibleJobGroups c =
     (case jobStatusFilter c of
        None \<Rightarrow> jobGroups c
      | Some f \<Rightarrow> if f = [] then jobGroups c
          else filter (\<lambda>(label, items). js_includes (to_lower label) (to_lower f)) (jobGroups c))"

definition statusFilters :: "(string \<times> string option) list" where
  "statusFilters = [(''All'', None), (''Processing'', Some ''processing''), (''Review'', Some ''review''), (''Failed'', Some ''failed'')]"

definition job_row_title :: "app_state \<Rightarrow> job_record \<Rightarrow> string" where
  "job_row_title c j =
     (case find_document c (Some (job_document_id j)) of
        Some d \<Rightarrow> original_filename d
      | None \<Rightarrow> ''Document '' @ num_to_string (job_document_id j))"

definition job_row_status :: "app_state \<Rightarrow> job_record \<Rightarrow> string" where
  "job_row_status c j =
     (if job_status j = ''completed'' then
        (if review_count_of c j \<noteq> 0 then num_to_string (num_of_nat (review_count_of c j)) @ '' need review'' else ''Ready to export'')
      else if job_status j = ''failed'' then ''Failed'' else ''Processing'')"

definition empty_jobs_text :: "app_state \<Rightarrow> string \<times> string" where
  "empty_jobs_text c =
     (case coreDataState c of
        CoreLoading \<Rightarrow> (''Loading jobs...'',
          ''Hold this spot while the workspace loads the latest jobs and schemas.'')
      | CoreUnavailable \<Rightarrow> (''Job history unavailable'',
          ''Reconnect the local API before job history and saved setup can load here.'')
      | CoreReady \<Rightarrow> (''No extraction history yet'',
          ''Your first upload should not require a tour of the product.''))"

section \<open>Header and progress\<close>

definition progressSteps :: "app_state \<Rightarrow> (string \<times> bool) list" where
  "progressSteps c =
     [(''File uploaded'', selectedDocument c \<noteq> None),
      (''Schema selected'', selectedTemplateVersion c \<noteq> None),
      (''Extraction queued'', selectedJob c \<noteq> None),
      (''Fields processed'', (case selectedJob c of None \<Rightarrow> False | Some j \<Rightarrow> job_status j \<noteq> ''queued'')),
      (if stage c = StageReview then ''Review waiting'' else ''Result ready'', stage c = StageReview \<or> stage c = StageReady)]"

definition document_title :: "app_state \<Rightarrow> string" where
  "document_title c = (case selectedDocument c of Some d \<Rightarrow> original_filename d | None \<Rightarrow> ''document'')"

definition headerTitle :: "app_state \<Rightarrow> string" where
  "headerTitle c =
     (case stage c of
        StageDraft \<Rightarrow> ''New extraction''
      | StageProcessing \<Rightarrow> ''Processing '' @ document_title c
      | StageFailed \<Rightarrow> ''Fix and rerun '' @ document_title c
      | StageReview \<Rightarrow> num_to_string (num_of_nat (length (fieldsNeedingReview c))) @ '' fields need review''
      | StageReady \<Rightarrow> ''Extraction complete'')"

definition headerCopy :: "app_state \<Rightarrow> string" where
  "headerCopy c =
     (case stage c of
        StageDraft \<Rightarrow> ''Upload a document, confirm one schema, and keep the whole job in one workspace.''
      | StageProcessing \<Rightarrow> ''Stay here while the backend works. Progress belongs in the job, not on a separate page.''
      | StageFailed \<Rightarrow> ''The job failed. Show the problem clearly and keep the user one action away from recovery.''
      | StageReview \<Rightarrow> ''Review only the fields that need a human decision, then save once.''
      | StageReady \<Rightarrow> ''The output is ready. Export it from the same place where you trusted it.'')"

definition nextStep :: "app_state \<Rightarrow> string" where
  "nextStep c =
     (if selectedDocument c = None then ''Upload a file''
      else if langExtractRunReadiness c \<noteq> None then ''Complete LangExtract examples''
      else if selectedTemplateVersion c \<noteq> None then ''Run extraction''
      else if templates c \<noteq> [] then ''Choose a schema''
      else ''Open schema builder'')"

section \<open>The actions of the header\<close>

text \<open>What a button calls, and whether it is enabled; in the order of the page.\<close>

datatype workspace_action =
    ApproveHighConfidence
  | ApproveAll
  | SaveReview
  | RetryJob
  | CancelJob
  | ExportAs export_kind
  | RunExtraction

definition can_act :: "app_state \<Rightarrow> string \<Rightarrow> bool" where
  "can_act c busy \<longleftrightarrow> workspaceInteractive c \<and> busyAction c \<noteq> Some busy"

definition review_actions :: "app_state \<Rightarrow> (workspace_action \<times> bool) list" where
  "review_actions c =
     (if stage c \<noteq> StageReview then []
      else (if highConfidenceReviewCount c > 0 then [(ApproveHighConfidence, can_act c ''save-review'')] else [])
        @ [(ApproveAll, can_act c ''save-review'' \<and> length (fieldsNeedingReview c) \<noteq> 0),
           (SaveReview, can_act c ''save-review'')])"

definition job_actions :: "app_state \<Rightarrow> (workspace_action \<times> bool) list" where
  "job_actions c =
     (if stage c = StageFailed \<and> selectedJob c \<noteq> None then [(RetryJob, can_act c ''retry-job'')] else [])
     @ (case selectedJob c of
          None \<Rightarrow> []
        | Some j \<Rightarrow> if job_status j = ''queued'' \<or> job_status j = ''running''
            then [(CancelJob, can_act c ''cancel-job'')] else [])"

definition export_actions :: "app_state \<Rightarrow> (workspace_action \<times> bool) list" where
  "export_actions c =
     (if stage c = StageReady \<or> stage c = StageReview
      then map (\<lambda>k. (ExportAs k, can_act c (''export-'' @ export_name k) \<and> \<not> exportBlocked c))
             [ExportJson, ExportCsv, ExportExcel]
      else [])"

definition run_actions :: "app_state \<Rightarrow> (workspace_action \<times> bool) list" where
  "run_actions c =
     (if (stage c = StageDraft \<or> stage c = StageFailed) \<and> templates c \<noteq> []
      then [(RunExtraction, selectedDocument c \<noteq> None \<and> selectedTemplateVersion c \<noteq> None \<and>
               langExtractRunReadiness c = None \<and> can_act c ''run'')]
      else [])"

definition workspace_actions :: "app_state \<Rightarrow> (workspace_action \<times> bool) list" where
  "workspace_actions c = review_actions c @ job_actions c @ export_actions c @ run_actions c"

text \<open>The handler a button calls.\<close>

primrec action_handler :: "host \<Rightarrow> app_state \<Rightarrow> workspace_action \<Rightarrow> (app_state, unit) proc" where
  "action_handler w c ApproveHighConfidence = handleApproveHighConfidenceReview w c"
| "action_handler w c ApproveAll = handleApproveAllReview w c"
| "action_handler w c SaveReview = handleSaveReview w c"
| "action_handler w c RetryJob = handleRetryJob c"
| "action_handler w c CancelJob = handleCancelJob c"
| "action_handler w c (ExportAs k) = handleExport w c k"
| "action_handler w c RunExtraction = handleRunExtraction c"

section \<open>The review list\<close>

definition review_badge :: "review_field \<Rightarrow> string" where
  "review_badge f = (if validation_status f = ''invalid'' then ''Invalid'' else ''Needs Review'')"

definition source_badge :: "review_field \<Rightarrow> string" where
  "source_badge f =
     (if requires_review f then ''Needs Review''
      else if validation_status f = ''invalid'' then ''Invalid'' else ''Valid'')"

definition shown_draft :: "app_state \<Rightarrow> review_field \<Rightarrow> string" where
  "shown_draft c f =
     coalesce (obj_get (reviewDrafts c) (field_name f))
       (getInitialReviewDraft f (getFieldDefinition (map_option definition_of (selectedTemplateVersion c)) (field_name f)))"

definition first_signal :: "review_field \<Rightarrow> string" where
  "first_signal f = (case getReviewSignals f of s # _ \<Rightarrow> s | [] \<Rightarrow> ''This field needs confirmation.'')"

section \<open>Selected parts\<close>

lemma selectedJob_SomeD:
  assumes "selectedJob c = Some j"
  shows "selectedJobId c = Some (job_id j)" "num_truthy (job_id j)" "j \<in> set (jobs c)" "find_job c (job_id j) = Some j"
proof -
  from assms obtain i where i: "selectedJobId c = Some i" "num_truthy i"
    and f: "find (\<lambda>j. same_id (Some (job_id j)) (Some i)) (jobs c) = Some j"
    by (cases "selectedJobId c") (auto simp: selectedJob_def id_truthy_def split: if_splits)
  from f have "same_id (Some (job_id j)) (Some i)" and "j \<in> set (jobs c)" by (auto simp: find_Some_iff)
  then have e: "job_id j = i" "i \<noteq> NaN" by (auto simp: same_id_def num_eq_def)
  with f have "find_job c (job_id j) = Some j" by (simp add: find_job_def same_id_def)
  with i e \<open>j \<in> set (jobs c)\<close> show "selectedJobId c = Some (job_id j)" "num_truthy (job_id j)" "j \<in> set (jobs c)"
    "find_job c (job_id j) = Some j" by auto
qed

lemma selectedResult_export: "selectedJob c = Some j \<Longrightarrow> selectedResultForExport c = selectedResult c"
  using selectedJob_SomeD [of c j] by (simp add: selectedResult_def selectedResultForExport_def id_truthy_def)

section \<open>The stage and the export gate\<close>

text \<open>
  C7: For a completed job the export gate is closed exactly while the workspace is in the review stage and
  the policy asks for cleared reviews; and no export button is then enabled.
\<close>

theorem export_gate_is_the_review_stage:
  assumes "selectedJob c = Some j" "job_status j = ''completed''"
  shows "exportBlocked c = (require_review_cleared (exportPolicy c) \<and> stage c = StageReview)
   \<and> (exportBlocked c \<longrightarrow> (\<forall>k. (ExportAs k, True) \<notin> set (workspace_actions c)))"
proof
  show "exportBlocked c = (require_review_cleared (exportPolicy c) \<and> stage c = StageReview)"
    using assms by (auto simp: exportBlocked_def selectedResult_export stage_def split: option.splits)
  show "exportBlocked c \<longrightarrow> (\<forall>k. (ExportAs k, True) \<notin> set (workspace_actions c))"
    by (auto simp: workspace_actions_def review_actions_def job_actions_def export_actions_def run_actions_def
        split: option.splits if_splits)
qed

definition pending_app :: "bool \<Rightarrow> app_state" where
  "pending_app gate = start_app\<lparr>coreDataState := CoreReady, jobs := [demo_job 1 ''completed''], selectedJobId := Some (Num 1),
     resultsByJob := [(Num 1, demo_envelope [])], exportPolicy := \<lparr>require_review_cleared = gate\<rparr>\<rparr>"

lemma pending_selected: "selectedJob (pending_app gate) = Some (demo_job 1 ''completed'')"
  by (simp add: selectedJob_def pending_app_def id_truthy_def num_truthy_def demo_job_def same_id_def num_eq_def)

lemma export_gate_is_the_review_stage_witness:
  "exportBlocked (pending_app False) = (require_review_cleared (exportPolicy (pending_app False)) \<and> stage (pending_app False) = StageReview)"
  by (rule export_gate_is_the_review_stage [OF pending_selected, THEN conjunct1]) (simp add: demo_job_def)

section \<open>What is offered is what is done\<close>

lemma actions_enabled:
  assumes "(a, True) \<in> set (workspace_actions c)"
  shows "workspaceInteractive c"
  using assms
  by (auto simp: workspace_actions_def review_actions_def job_actions_def export_actions_def run_actions_def can_act_def
      split: option.splits if_splits)

text \<open>
  Nothing is enabled while the data is loading or the API is down; and in the draft stage an enabled run
  button is never refused by its handler: the run is posted for the document and version the page shows.
\<close>

theorem enabled_run_is_posted:
  assumes "(a, True) \<in> set (workspace_actions c)"
  shows "coreDataState c = CoreReady
   \<and> (a = RunExtraction \<and> stage c = StageDraft \<and> (\<forall>d \<in> set (documents c). num_truthy (document_id d))
        \<and> (\<forall>v \<in> set (templateVersions c). num_truthy (version_id v)) \<longrightarrow>
      (\<exists>d v. selectedDocument c = Some d \<and> selectedTemplateVersion c = Some v
         \<and> asks env (action_handler w c a) [] s (Http POST ''/jobs'' (JobBody (document_id d) (version_id v) (default_provider c)))))"
proof (intro conjI impI)
  show "coreDataState c = CoreReady" using actions_enabled [OF assms] by (simp add: workspaceInteractive_def)
  assume a: "a = RunExtraction \<and> stage c = StageDraft \<and> (\<forall>d \<in> set (documents c). num_truthy (document_id d))
        \<and> (\<forall>v \<in> set (templateVersions c). num_truthy (version_id v))"
  then have "(RunExtraction, True) \<in> set (run_actions c)"
    using assms by (auto simp: workspace_actions_def review_actions_def job_actions_def export_actions_def
        split: option.splits if_splits)
  then obtain d v where d: "selectedDocument c = Some d" and v: "selectedTemplateVersion c = Some v"
    and r: "langExtractRunReadiness c = None"
    by (auto simp: run_actions_def split: if_splits)
  from a have none: "selectedJob c = None" by (auto simp: stage_def split: option.splits if_splits)
  from d none have d': "find_document c (selectedDocumentId c) = Some d" by (simp add: selectedDocument_def)
  from v none have v': "find_version c (selectedTemplateVersionId c) = Some v" by (simp add: selectedTemplateVersion_def)
  from d' have "same_id (Some (document_id d)) (selectedDocumentId c)" "d \<in> set (documents c)"
    by (auto simp: find_document_def find_Some_iff)
  with a have di: "selectedDocumentId c = Some (document_id d)" "num_truthy (document_id d)"
    by (auto simp: same_id_def num_eq_def split: option.splits)
  from v' have "same_id (Some (version_id v)) (selectedTemplateVersionId c)" "v \<in> set (templateVersions c)"
    by (auto simp: find_version_def find_Some_iff)
  with a have vi: "selectedTemplateVersionId c = Some (version_id v)" "num_truthy (version_id v)"
    by (auto simp: same_id_def num_eq_def split: option.splits)
  have "run_blocked c = None"
    using r v v' di vi by (simp add: run_blocked_def id_truthy_def langExtractRunReadiness_def)
  then have "asks env (handleRunExtraction c) [] s (Http POST ''/jobs'' (JobBody (document_id d) (version_id v) (default_provider c)))"
    using di vi by (simp add: handleRunExtraction_def asks_first)
  with a d v show "\<exists>d v. selectedDocument c = Some d \<and> selectedTemplateVersion c = Some v
     \<and> asks env (action_handler w c a) [] s (Http POST ''/jobs'' (JobBody (document_id d) (version_id v) (default_provider c)))"
    by auto
qed

definition draft_app :: app_state where
  "draft_app = start_app\<lparr>coreDataState := CoreReady, documents := [demo_document], templates := [demo_template],
     templateVersions := [demo_version], selectedDocumentId := Some (Num 5), selectedTemplateId := Some (Num 1),
     selectedTemplateVersionId := Some (Num 11)\<rparr>"

lemma enabled_run_is_posted_witness:
  "asks (env_of probe_server) (action_handler demo_host draft_app RunExtraction) [] draft_app
     (Http POST ''/jobs'' (JobBody (Num 5) (Num 11) None))"
proof -
  have sel: "selectedJob draft_app = None" "selectedDocument draft_app = Some demo_document"
    "selectedTemplateVersion draft_app = Some demo_version"
    by (simp_all add: selectedJob_def selectedDocument_def selectedTemplateVersion_def draft_app_def start_app_def
        initial_app_def id_truthy_def find_document_def find_version_def demo_document_def demo_version_def same_id_def num_eq_def)
  have ready: "langExtractRunReadiness draft_app = None"
  proof -
    have mock: "\<not> isLangExtractProviderSettings (Some (llm_provider_settings (definition_of demo_version)))"
      by (simp add: demo_version_def starterTemplateDefinition_def starter_provider_def isLangExtractProviderSettings_def)
    have none: "default_provider draft_app = None"
      by (simp add: default_provider_def draft_app_def start_app_def initial_app_def)
    show ?thesis
      unfolding langExtractRunReadiness_def sel option.case none using mock
      by (simp add: getLangExtractExtractionReadiness_def isLangExtractProvider_def)
  qed
  have stage: "stage draft_app = StageDraft" by (simp add: stage_def sel)
  have act: "(RunExtraction, True) \<in> set (workspace_actions draft_app)"
    by (simp add: workspace_actions_def run_actions_def stage sel ready can_act_def workspaceInteractive_def)
      (simp add: draft_app_def start_app_def initial_app_def)
  have ids: "\<forall>d \<in> set (documents draft_app). num_truthy (document_id d)"
    "\<forall>v \<in> set (templateVersions draft_app). num_truthy (version_id v)"
    by (simp_all add: draft_app_def demo_document_def demo_version_def num_truthy_def)
  have p: "default_provider draft_app = None"
    by (simp add: default_provider_def draft_app_def start_app_def initial_app_def)
  from enabled_run_is_posted [OF act, THEN conjunct2, rule_format, of "env_of probe_server" demo_host draft_app]
  show ?thesis using stage ids by (simp add: sel p demo_document_def demo_version_def)
qed

section \<open>A review opens the gate\<close>

text \<open>
  The reply to a review moves the job on: with fields still to review the page stays in the review
  stage, otherwise it shows the result as ready and the exports open under either policy.
\<close>

theorem review_reply_opens_the_gate:
  assumes "selectedJob s = Some j" "job_status j = ''completed''"
  shows "stage (store_review c (job_id j) e updated s) =
      (if fields_requiring_review updated = [] then StageReady else StageReview)
   \<and> (fields_requiring_review updated = [] \<longrightarrow> \<not> exportBlocked (store_review c (job_id j) e updated s))"
proof -
  let ?s = "store_review c (job_id j) e updated s"
  have "selectedJob ?s = selectedJob s" by (simp add: selectedJob_def store_review_def)
  with assms(1) have job: "selectedJob ?s = Some j" by simp
  have r: "result_of_job ?s (job_id j) = Some \<lparr>result_id = result_id e, result_job_id = job_id j,
      result_of = updated\<lparr>review_status := Some ''reviewed''\<rparr>\<rparr>"
    by (simp add: result_of_job_def store_review_def rec_get_def rec_put_def update_conv)
  then have res: "selectedResult ?s = Some \<lparr>result_id = result_id e, result_job_id = job_id j,
      result_of = updated\<lparr>review_status := Some ''reviewed''\<rparr>\<rparr>"
    by (simp add: selectedResult_def job)
  with job have "selectedResultForExport ?s = Some \<lparr>result_id = result_id e, result_job_id = job_id j,
      result_of = updated\<lparr>review_status := Some ''reviewed''\<rparr>\<rparr>"
    by (simp add: selectedResult_export)
  then show ?thesis by (simp add: stage_def job assms(2) res exportBlocked_def)
qed

lemma review_reply_opens_the_gate_witness:
  "stage (store_review start_app (Num 1) (demo_envelope []) (sample_result []) (pending_app True)) = StageReady"
  using review_reply_opens_the_gate [OF pending_selected, of start_app "demo_envelope []" "sample_result []" True]
  by (simp add: demo_job_def sample_result_def)

section \<open>The job list shows every job once\<close>

lemma mset_nonempty_groups:
  "mset (concat (map snd (filter (\<lambda>(label, items). length items > 0) gs))) = mset (concat (map snd gs))"
  by (induction gs) auto

lemma mset_split5:
  assumes "\<forall>x \<in> set xs. length (filter (\<lambda>p. p x) [p1, p2, p3, p4, p5]) = 1"
  shows "mset (filter p1 xs) + mset (filter p2 xs) + mset (filter p3 xs) + mset (filter p4 xs) + mset (filter p5 xs) = mset xs"
  using assms
proof (induction xs)
  case (Cons x xs)
  then have "length (filter (\<lambda>p. p x) [p1, p2, p3, p4, p5]) = 1" by simp
  with Cons show ?case by (auto split: if_splits)
qed simp

text \<open>
  The groups of the job list partition the jobs: when every status is one the API documents and only
  completed jobs have results to review, each job is listed exactly once.
\<close>

theorem job_groups_partition:
  assumes "\<forall>j \<in> set (jobs c). job_status j \<in> {''queued'', ''running'', ''failed'', ''cancelled'', ''completed''}"
    and "\<forall>j \<in> set (jobs c). review_count_of c j > 0 \<longrightarrow> job_status j = ''completed''"
  shows "mset (concat (map snd (jobGroups c))) = mset (jobs c)"
proof -
  let ?ps = "[\<lambda>j. job_status j = ''queued'' \<or> job_status j = ''running'', \<lambda>j. review_count_of c j > 0,
    \<lambda>j. job_status j = ''failed'', \<lambda>j. job_status j = ''cancelled'', \<lambda>j. job_status j = ''completed'' \<and> review_count_of c j = 0]"
  have one: "length (filter (\<lambda>p. p j) ?ps) = 1" if "j \<in> set (jobs c)" for j
    using assms(1) [rule_format, OF that] assms(2) [rule_format, OF that] by auto
  have "mset (concat (map snd (all_job_groups c))) = mset (jobs c)"
    using mset_split5 [of "jobs c", OF ballI, OF one] by (simp add: all_job_groups_def add.assoc)
  then show ?thesis unfolding jobGroups_def mset_nonempty_groups .
qed

definition listed_app :: app_state where
  "listed_app = start_app\<lparr>jobs := [demo_job 1 ''completed'', demo_job 2 ''running'', demo_job 3 ''cancelled'']\<rparr>"

lemma job_groups_partition_witness:
  "mset (concat (map snd (jobGroups listed_app))) = mset (jobs listed_app)"
  by (rule job_groups_partition)
    (simp_all add: listed_app_def demo_job_def review_count_of_def result_of_job_def rec_get_def start_app_def initial_app_def)

lemma group_label_tests:
  "map (\<lambda>f. map (\<lambda>l. js_includes (to_lower l) (to_lower f))
       [''Processing'', ''Needs review'', ''Failed'', ''Cancelled'', ''Completed'']) [''processing'', ''review'', ''failed'']
   = [[True, False, False, False, False], [False, True, False, False, False], [False, False, True, False, False]]"
  by code_simp

text \<open>
  Each filter button shows exactly the group it names; no button reaches the cancelled or the completed
  jobs alone.
\<close>

theorem filter_buttons_select_their_group:
  "visibleJobGroups (c\<lparr>jobStatusFilter := None\<rparr>) = jobGroups c
   \<and> visibleJobGroups (c\<lparr>jobStatusFilter := Some ''processing''\<rparr>) = filter (\<lambda>g. fst g = ''Processing'') (jobGroups c)
   \<and> visibleJobGroups (c\<lparr>jobStatusFilter := Some ''review''\<rparr>) = filter (\<lambda>g. fst g = ''Needs review'') (jobGroups c)
   \<and> visibleJobGroups (c\<lparr>jobStatusFilter := Some ''failed''\<rparr>) = filter (\<lambda>g. fst g = ''Failed'') (jobGroups c)"
proof -
  have same: "jobGroups (c\<lparr>jobStatusFilter := f\<rparr>) = jobGroups c" for f
    by (simp add: jobGroups_def all_job_groups_def review_count_of_def result_of_job_def)
  have labels: "fst g \<in> {''Processing'', ''Needs review'', ''Failed'', ''Cancelled'', ''Completed''}"
    if "g \<in> set (jobGroups c)" for g
  proof -
    from that have "g \<in> set (all_job_groups c)" by (auto simp: jobGroups_def)
    then show ?thesis by (auto simp: all_job_groups_def)
  qed
  have tests: "js_includes (to_lower l) (to_lower ''processing'') = (l = ''Processing'')"
    "js_includes (to_lower l) (to_lower ''review'') = (l = ''Needs review'')"
    "js_includes (to_lower l) (to_lower ''failed'') = (l = ''Failed'')"
    if "l \<in> {''Processing'', ''Needs review'', ''Failed'', ''Cancelled'', ''Completed''}" for l
    using that group_label_tests by fastforce+
  have pick: "filter (\<lambda>(label, items). js_includes (to_lower label) (to_lower f)) (jobGroups c) = filter (\<lambda>g. fst g = l) (jobGroups c)"
    if "\<And>k. k \<in> {''Processing'', ''Needs review'', ''Failed'', ''Cancelled'', ''Completed''} \<Longrightarrow>
          js_includes (to_lower k) (to_lower f) = (k = l)" for f l
    unfolding case_prod_unfold by (rule filter_cong [OF refl]) (use that labels in blast)
  have "filter (\<lambda>(label, items). js_includes (to_lower label) (to_lower ''processing'')) (jobGroups c)
      = filter (\<lambda>g. fst g = ''Processing'') (jobGroups c)"
    by (rule pick) (rule tests)
  moreover have "filter (\<lambda>(label, items). js_includes (to_lower label) (to_lower ''review'')) (jobGroups c)
      = filter (\<lambda>g. fst g = ''Needs review'') (jobGroups c)"
    by (rule pick) (rule tests)
  moreover have "filter (\<lambda>(label, items). js_includes (to_lower label) (to_lower ''failed'')) (jobGroups c)
      = filter (\<lambda>g. fst g = ''Failed'') (jobGroups c)"
    by (rule pick) (rule tests)
  ultimately show ?thesis by (simp add: visibleJobGroups_def same)
qed

text \<open>
  A cancelled job is listed as cancelled, but its row and its page say it is processing, and the page
  offers no action for it: it can neither be retried nor cancelled.
\<close>

theorem cancelled_job_has_no_action:
  assumes "selectedJob c = Some j" "job_status j = ''cancelled''"
  shows "(\<exists>items. (''Cancelled'', items) \<in> set (jobGroups c) \<and> j \<in> set items)
    \<and> job_row_status c j = ''Processing'' \<and> stage c = StageProcessing \<and> workspace_actions c = []"
proof -
  have "stage c = StageProcessing" using assms by (simp add: stage_def)
  moreover have "j \<in> set (filter (\<lambda>j. job_status j = ''cancelled'') (jobs c))"
    using assms selectedJob_SomeD(3) [OF assms(1)] by simp
  then have "(''Cancelled'', filter (\<lambda>j. job_status j = ''cancelled'') (jobs c)) \<in> set (jobGroups c)"
    unfolding jobGroups_def all_job_groups_def by (subst set_filter) (auto simp: filter_empty_conv simp del: filter.simps)
  with \<open>j \<in> set (filter _ _)\<close> have "\<exists>items. (''Cancelled'', items) \<in> set (jobGroups c) \<and> j \<in> set items"
    by blast
  ultimately show ?thesis using assms
    by (simp add: job_row_status_def workspace_actions_def review_actions_def job_actions_def export_actions_def run_actions_def)
qed

lemma cancelled_job_has_no_action_witness:
  "stage (listed_app\<lparr>selectedJobId := Some (Num 3)\<rparr>) = StageProcessing"
  using cancelled_job_has_no_action [of "listed_app\<lparr>selectedJobId := Some (Num 3)\<rparr>" "demo_job 3 ''cancelled''"]
  by (simp add: listed_app_def selectedJob_def id_truthy_def num_truthy_def demo_job_def same_id_def num_eq_def)

section \<open>The field in focus\<close>

lemma mset_filter_not: "mset (filter p xs) + mset (filter (\<lambda>x. \<not> p x) xs) = mset xs"
  by (induction xs) auto

text \<open>
  The fields split into those that need review and those listed as validated when names are unique; and
  the field in focus is always one of them, the chosen one if it exists and one to review otherwise.
\<close>

theorem focused_field_is_listed:
  "(focusedField c = None \<longleftrightarrow> extractedFields c = [])
   \<and> (\<forall>f. focusedField c = Some f \<longrightarrow> f \<in> set (extractedFields c)
        \<and> (Some (field_name f) = focusedFieldName c \<or> f \<in> set (fieldsNeedingReview c) \<or> fieldsNeedingReview c = []))
   \<and> (distinct (map field_name (extractedFields c)) \<longrightarrow>
        mset (fieldsNeedingReview c) + mset (validatedFields c) = mset (extractedFields c))"
proof (intro conjI impI allI)
  have sub: "set (fieldsNeedingReview c) \<subseteq> set (extractedFields c)" by (auto simp: fieldsNeedingReview_def)
  let ?chosen = "find (\<lambda>f. Some (field_name f) = focusedFieldName c) (extractedFields c)"
  have chosen: "g \<in> set (extractedFields c) \<and> Some (field_name g) = focusedFieldName c" if "?chosen = Some g" for g
    using that by (auto simp: find_Some_iff)
  show "focusedField c = None \<longleftrightarrow> extractedFields c = []"
    by (auto simp: focusedField_def fieldsNeedingReview_def split: option.splits list.splits)
  fix f assume "focusedField c = Some f"
  then consider "?chosen = Some f" | g fs where "fieldsNeedingReview c = f # fs"
    | g fs where "fieldsNeedingReview c = []" "extractedFields c = f # fs"
    by (cases ?chosen) (auto simp: focusedField_def split: list.splits simp del: find.simps)
  note cs = this
  show "f \<in> set (extractedFields c)"
    using cs by cases (use chosen in blast, use sub in auto)
  show "Some (field_name f) = focusedFieldName c \<or> f \<in> set (fieldsNeedingReview c) \<or> fieldsNeedingReview c = []"
    using cs by cases (use chosen in blast, simp_all)
next
  assume d: "distinct (map field_name (extractedFields c))"
  let ?p = "\<lambda>f. requires_review f \<or> validation_status f = ''invalid''"
  have eq: "g = f" if "f \<in> set (extractedFields c)" "g \<in> set (extractedFields c)" "field_name g = field_name f" for f g
    using d that by (simp add: distinct_map inj_on_def)
  have "list_ex (\<lambda>g. field_name g = field_name f) (fieldsNeedingReview c) = ?p f" if f: "f \<in> set (extractedFields c)" for f
  proof
    assume "list_ex (\<lambda>g. field_name g = field_name f) (fieldsNeedingReview c)"
    then obtain g where "g \<in> set (extractedFields c)" "?p g" "field_name g = field_name f"
      by (auto simp: list_ex_iff fieldsNeedingReview_def)
    with eq [OF f] show "?p f" by blast
  next
    assume "?p f"
    with f show "list_ex (\<lambda>g. field_name g = field_name f) (fieldsNeedingReview c)"
      unfolding list_ex_iff fieldsNeedingReview_def by fastforce
  qed
  then have "validatedFields c = filter (\<lambda>f. \<not> ?p f) (extractedFields c)"
    by (auto simp: validatedFields_def intro: filter_cong)
  then show "mset (fieldsNeedingReview c) + mset (validatedFields c) = mset (extractedFields c)"
    by (simp only: fieldsNeedingReview_def mset_filter_not)
qed

definition reviewing_app :: app_state where
  "reviewing_app = (pending_app True)\<lparr>resultsByJob := [(Num 1, demo_envelope
     [sample_field ''a'' ''text'' (JStr ''x''), (sample_field ''b'' ''text'' (JStr ''y''))\<lparr>requires_review := True\<rparr>])]\<rparr>"

lemma focused_field_is_listed_witness:
  "mset (fieldsNeedingReview reviewing_app) + mset (validatedFields reviewing_app) = mset (extractedFields reviewing_app)"
proof -
  have "selectedJob reviewing_app = selectedJob (pending_app True)" by (simp add: reviewing_app_def selectedJob_def)
  with pending_selected [of True] have "selectedJob reviewing_app = Some (demo_job 1 ''completed'')" by simp
  then have "distinct (map field_name (extractedFields reviewing_app))"
    by (simp add: extractedFields_def selectedResult_def result_of_job_def reviewing_app_def rec_get_def demo_job_def
        demo_envelope_def sample_result_def sample_field_def)
  with focused_field_is_listed [of reviewing_app, THEN conjunct2, THEN conjunct2] show ?thesis by simp
qed

section \<open>A completed job whose result is missing\<close>

text \<open>
  A completed job whose result did not load (its request failed, or is still running) is presented as
  a complete extraction with enabled exports, and an export then does nothing at all, not even an error.
\<close>

theorem missing_result_is_shown_as_complete:
  assumes "selectedJob c = Some j" "job_status j = ''completed''" "result_of_job c (job_id j) = None"
  shows "headerTitle c = ''Extraction complete''
    \<and> (ExportAs k, can_act c (''export-'' @ export_name k)) \<in> set (workspace_actions c)
    \<and> action_handler w c (ExportAs k) = Return ()"
proof -
  have none: "selectedResult c = None" using assms by (simp add: selectedResult_def)
  then have export: "selectedResultForExport c = None" using selectedResult_export [OF assms(1)] by simp
  have stage: "stage c = StageReady" using assms none by (simp add: stage_def)
  show ?thesis
    by (cases k) (simp_all add: headerTitle_def stage workspace_actions_def export_actions_def export exportBlocked_def
        handleExport_def)
qed

lemma missing_result_is_shown_as_complete_witness:
  "action_handler demo_host ((pending_app True)\<lparr>resultsByJob := []\<rparr>) (ExportAs ExportCsv) = Return ()"
proof -
  let ?c = "(pending_app True)\<lparr>resultsByJob := []\<rparr>"
  have "selectedJob ?c = selectedJob (pending_app True)" by (simp add: selectedJob_def)
  then have "selectedJob ?c = Some (demo_job 1 ''completed'')" using pending_selected by simp
  from missing_result_is_shown_as_complete [OF this, of ExportCsv demo_host]
  show ?thesis by (simp add: demo_job_def result_of_job_def rec_get_def)
qed

end
