(* ===== verification/WorkspaceView.thy ===== *)
theory WorkspaceView
  imports Workspace
begin

text \<open>
  The panels of \<open>ExtractionWorkspacePage\<close>: the draft form with its notices, the source panel of a job in
  progress, the outcome panel of each stage, the review cards and the result and export rows, as
  functions of the state. Dates are rendered by the parameters \<open>parse_date\<close> and \<open>show_date\<close>.
\<close>

section \<open>The draft form\<close>

definition draft_tiles :: "app_state \<Rightarrow> (string \<times> string) list" where
  "draft_tiles c =
     [(''Document'', coalesce (map_option original_filename (selectedDocument c)) ''Choose a file''),
      (''Schema'', case selectedTemplateVersion c of
         Some v \<Rightarrow> if version_name v \<noteq> []
           then coalesce (map_option summary_name (selectedTemplate c)) ''Schema'' @ '' '' @ middle_dot @ '' '' @ version_name v
           else if templates c \<noteq> [] then ''Choose one schema'' else ''Create a schema first''
       | None \<Rightarrow> if templates c \<noteq> [] then ''Choose one schema'' else ''Create a schema first''),
      (''Next step'', nextStep c)]"

definition readiness_notice :: "app_state \<Rightarrow> string option" where
  "readiness_notice c = (if stage c = StageDraft then langExtractRunReadiness c else None)"

definition upload_button :: "app_state \<Rightarrow> string \<times> bool" where
  "upload_button c =
     (case coreDataState c of
        CoreLoading \<Rightarrow> ''Loading workspace...''
      | CoreUnavailable \<Rightarrow> ''Reconnect backend to upload''
      | CoreReady \<Rightarrow> ''Choose file'', workspaceInteractive c)"

definition upload_stats :: "app_state \<Rightarrow> (string \<times> string) list" where
  "upload_stats c =
     [(''Selected document'', coalesce (map_option original_filename (selectedDocument c)) ''None yet''),
      (''Type'', case selectedDocument c of Some d \<Rightarrow> getDocumentTypeLabel (content_type d) | None \<Rightarrow> em_dash)]"

text \<open>The options of a select: its current value and what each option stands for.\<close>

definition document_select :: "app_state \<Rightarrow> (string \<times> (string \<times> string) list) option" where
  "document_select c =
     (if length (documents c) > 1
      then Some (select_value (selectedDocumentId c),
        ('''', ''Select document'') # map (\<lambda>d. (num_to_string (document_id d), original_filename d)) (documents c))
      else None)"

definition template_select :: "app_state \<Rightarrow> (string \<times> (string \<times> string) list) option" where
  "template_select c =
     (if templates c \<noteq> []
      then Some (select_value (map_option template_id (selectedTemplate c)),
        ('''', ''Select schema'') # map (\<lambda>t. (num_to_string (template_id t), summary_name t)) (templates c))
      else None)"

definition version_note :: "app_state \<Rightarrow> string" where
  "version_note c =
     (case selectedTemplateVersion c of
        Some v \<Rightarrow> ''Using '' @ version_name v @ ''.''
      | None \<Rightarrow> ''The latest saved version will be used by default.'')"

definition version_select :: "app_state \<Rightarrow> bool \<Rightarrow> (string \<times> (string \<times> string) list) option" where
  "version_select c shown =
     (if hasMultipleSchemaVersions c \<and> shown
      then Some (select_value (map_option version_id (selectedTemplateVersion c)),
        ('''', ''Select version'') # map (\<lambda>v. (num_to_string (version_id v), version_name v)) (selectedSchemaVersions c))
      else None)"

definition schema_notice :: "app_state \<Rightarrow> string option" where
  "schema_notice c =
     (if templates c \<noteq> [] then None
      else Some (case coreDataState c of
          CoreLoading \<Rightarrow> ''Loading workspace data...''
        | CoreUnavailable \<Rightarrow> ''Workspace data unavailable''
        | CoreReady \<Rightarrow> ''No schemas yet''))"

definition draft_preview_stats :: "app_state \<Rightarrow> (string \<times> string) list" where
  "draft_preview_stats c =
     [(''Schema'', coalesce (map_option summary_name (selectedTemplate c)) ''Choose one schema''),
      (''Version'', coalesce (map_option version_name (selectedTemplateVersion c)) ''Advanced only''),
      (''Fields to extract'', num_to_string (num_of_nat
         (case selectedTemplateVersion c of Some v \<Rightarrow> length (extracted_fields (definition_of v)) | None \<Rightarrow> 0))),
      (''Export formats'', case selectedTemplateVersion c of
         Some v \<Rightarrow> js_join ('' '' @ middle_dot @ '' '') (export_formats (definition_of v))
       | None \<Rightarrow> js_join ('' '' @ middle_dot @ '' '') [''JSON'', ''CSV'', ''Excel''])]"

definition field_preview :: "app_state \<Rightarrow> (string \<times> string \<times> string list) list" where
  "field_preview c =
     (case selectedTemplateVersion c of
        None \<Rightarrow> []
      | Some v \<Rightarrow> map (\<lambda>f. (field_def_label f, field_def_type f,
            (if required f = Some True then ''Required'' else ''Optional'')
            # (if citation_required f = Some True then [''Citation''] else []))) (extracted_fields (definition_of v)))"

section \<open>The source panel\<close>

definition source_line :: "(string \<Rightarrow> jsnum) \<Rightarrow> (jsnum \<Rightarrow> string) \<Rightarrow> app_state \<Rightarrow> string" where
  "source_line parse_date show_date c =
     (case selectedDocument c of
        Some d \<Rightarrow> getDocumentTypeLabel (content_type d) @ '' '' @ middle_dot @ '' uploaded ''
          @ formatTimestamp parse_date show_date (Some (document_created_at d))
      | None \<Rightarrow> ''Choose a document to begin.'')"

text \<open>The failure card: its title, the error, the guidance and the parser's state.\<close>

definition failure_card :: "app_state \<Rightarrow> (string \<times> string list) option" where
  "failure_card c =
     (let error = str_or (Option.bind (selectedJob c) job_record.error_message) '''' in
      if error = [] then None
      else Some (coalesce (map_option guidance_title (parserFailureGuidance c)) ''Failure detail'',
        error # (case parserFailureGuidance c of
            None \<Rightarrow> []
          | Some g \<Rightarrow> guidance_detail g # (case parserStatus c of
                None \<Rightarrow> []
              | Some p \<Rightarrow> [''Parser runtime: '' @ (if docling_enabled p then ''Docling enabled'' else ''Docling disabled'')
                  @ (if str_or (prewarm_status p) '''' \<noteq> []
                     then '' '' @ middle_dot @ '' prewarm '' @ str_or (prewarm_status p) '''' else '''') @ ''.'']))))"

definition source_row :: "review_field \<Rightarrow> string \<times> string \<times> string" where
  "source_row f =
     (field_label f,
      str_or (source_text f) (str_or (extraction_notes f) ''No source snippet returned.''),
      source_badge f)"

section \<open>The outcome panel\<close>

definition outcome_title :: "app_state \<Rightarrow> string \<times> string" where
  "outcome_title c =
     (case stage c of
        StageDraft \<Rightarrow> (''Outcome preview'', ''The user should know what progress looks like before they press run.'')
      | StageProcessing \<Rightarrow> (''Progress'', ''This replaces the old Runs page. Status belongs inside the active job.'')
      | StageFailed \<Rightarrow> (''Progress'', ''This replaces the old Runs page. Status belongs inside the active job.'')
      | StageReview \<Rightarrow> (''Review only the exceptions'',
          num_to_string (num_of_nat (length (fieldsNeedingReview c))) @ '' fields need a human decision before export.'')
      | StageReady \<Rightarrow> (''Trusted result'', ''The extraction finished cleanly. Export directly from the trusted result.''))"

definition job_stats :: "(string \<Rightarrow> jsnum) \<Rightarrow> (jsnum \<Rightarrow> string) \<Rightarrow> app_state \<Rightarrow> (string \<times> string) list" where
  "job_stats parse_date show_date c =
     [(''Status'', coalesce (map_option job_status (selectedJob c)) ''Queued''),
      (''Schema'', coalesce (map_option (\<lambda>v. template_name (definition_of v)) (selectedTemplateVersion c)) ''Unknown schema''),
      (''Run provider'', selectedRunProviderLabel c),
      (''Started'', formatTimestamp parse_date show_date (map_option job_created_at (selectedJob c))),
      (''Last update'', formatTimestamp parse_date show_date (map_option job_updated_at (selectedJob c)))]
     @ (if stage c = StageProcessing then [(''Pipeline stage'', jobProgressLabel c)] else [])"

definition progress_bar :: "app_state \<Rightarrow> (string \<times> jsnum) option" where
  "progress_bar c = (if stage c = StageProcessing then Some (jobProgressLabel c, jobProgressPct c) else None)"

definition recovery_note :: "app_state \<Rightarrow> string \<times> string" where
  "recovery_note c =
     (if stage c = StageFailed
      then (''Recovery path'', ''Use Retry extraction to re-queue this job with the same document and schema.'')
      else (''Why this stays here'',
        ''Progress updates every few seconds while the worker parses, extracts, validates, and calculates.''))"

definition result_stats :: "(string \<Rightarrow> jsnum) \<Rightarrow> (jsnum \<Rightarrow> string) \<Rightarrow> app_state \<Rightarrow> (string \<times> string) list" where
  "result_stats parse_date show_date c =
     (let count = (\<lambda>n. num_to_string (num_of_nat n));
          reviewed = str_or (Option.bind (selectedResult c) (\<lambda>r. reviewed_at (result_of r))) ''''
      in [(''Extracted fields'', count (length (extractedFields c))), (''Run provider'', selectedRunProviderLabel c),
          (''Needs review'', count (length (fieldsNeedingReview c))),
          (''Calculated fields'', count (length (calculatedFields c))),
          (''Reviewed'', if reviewed \<noteq> [] then formatTimestamp parse_date show_date (Some reviewed) else ''Not yet'')])"

section \<open>Review cards and rows\<close>

record review_card =
  card_label :: string
  card_reason :: string
  card_badges :: "string list"
  card_signals :: "string list"
  card_hint :: string
  card_control :: editor_control
  card_draft :: string
  card_current :: string
  card_place :: string
  card_span :: string
  card_confidence :: string
  card_type :: string

definition card_definition :: "app_state \<Rightarrow> review_field \<Rightarrow> template_field option" where
  "card_definition c f = getFieldDefinition (map_option definition_of (selectedTemplateVersion c)) (field_name f)"

definition shown_value :: "review_field \<Rightarrow> json option" where
  "shown_value f = or_else (nullish (normalized_value f)) (extracted_value f)"

definition review_card_of :: "(jsnum \<Rightarrow> string) \<Rightarrow> app_state \<Rightarrow> review_field \<Rightarrow> review_card" where
  "review_card_of loc c f =
     (let d = card_definition c f; type = getFieldType f d in
      \<lparr>card_label = field_label f,
       card_reason = first_signal f,
       card_badges = (if isHighConfidenceField f REVIEW_HIGH_CONFIDENCE_MIN then [''High confidence''] else []) @ [review_badge f],
       card_signals = getReviewSignals f,
       card_hint = reviewFieldHint type d,
       card_control = reviewFieldEditor type d,
       card_draft = shown_draft c f,
       card_current = formatValue loc (shown_value f),
       card_place = (case page_number f of
           Some n \<Rightarrow> if num_truthy n then ''Page '' @ num_to_string n else ''Page '' @ em_dash
         | None \<Rightarrow> ''Page '' @ em_dash) @ '' '' @ middle_dot @ '' '' @ str_or (location_reference f) ''Unknown location'',
       card_span = formatCharInterval (char_start f) (char_end f),
       card_confidence = formatConfidence (confidence_score f),
       card_type = type\<rparr>)"

definition review_cards :: "(jsnum \<Rightarrow> string) \<Rightarrow> app_state \<Rightarrow> review_card list" where
  "review_cards loc c = map (review_card_of loc c) (fieldsNeedingReview c)"

definition no_review_note :: "app_state \<Rightarrow> string option" where
  "no_review_note c =
     (if fieldsNeedingReview c \<noteq> [] then None
      else Some (if require_review_cleared (exportPolicy c)
            \<and> Option.bind (selectedResult c) (\<lambda>r. review_status (result_of r)) = Some ''pending''
          then ''Review confirmation required'' else ''No manual review required''))"

definition validated_rows :: "(jsnum \<Rightarrow> string) \<Rightarrow> app_state \<Rightarrow> (string \<times> string) list" where
  "validated_rows loc c = map (\<lambda>f. (field_label f, formatValue loc (shown_value f))) (take 6 (validatedFields c))"

definition calculated_rows :: "(jsnum \<Rightarrow> string) \<Rightarrow> app_state \<Rightarrow> (string \<times> string \<times> string) list" where
  "calculated_rows loc c =
     map (\<lambda>f. (field_label f, formatValue loc (calculated_value f),
        if validation_status f = ''invalid'' then ''Invalid'' else ''Valid'')) (calculatedFields c)"

definition export_row ::
    "(string \<Rightarrow> jsnum) \<Rightarrow> (jsnum \<Rightarrow> string) \<Rightarrow> string \<Rightarrow> export_record \<Rightarrow> string \<times> string \<times> string" where
  "export_row parse_date show_date base e =
     (basename (file_path e),
      formatTimestamp parse_date show_date (exported_at e)
        @ (if str_or (content_sha256 e) '''' \<noteq> []
           then '' '' @ middle_dot @ '' SHA-256 '' @ take 12 (str_or (content_sha256 e) '''') @ ellipsis else ''''),
      base @ path_with_id ''/exports/'' (export_id e) ''/download'')"

section \<open>What is typed is what is sent\<close>

lemma setReviewDraft_frame:
  "selectedJob (setReviewDraft k v c) = selectedJob c" "find_version (setReviewDraft k v c) i = find_version c i"
  "selected_definition (setReviewDraft k v c) n = selected_definition c n"
  "selectedTemplateVersion (setReviewDraft k v c) = selectedTemplateVersion c"
  by (simp_all add: setReviewDraft_def selectedJob_def find_version_def selected_definition_def selected_version_id_def
      find_job_def selectedTemplateVersion_def)

lemma selected_definition_shown:
  assumes "selectedJob c = Some j" "find_version c (Some (job_version_id j)) = Some v"
  shows "selected_definition c (job_id j) = map_option definition_of (selectedTemplateVersion c)"
  using assms selectedJob_SomeD(4) [OF assms(1)]
  by (simp add: selected_definition_def selected_version_id_def selectedTemplateVersion_def)

text \<open>
  C26: What is typed is what is sent: a value typed into a review card is what that card shows, the other
  cards are left alone, and saving parses just that text, with the field definition the card was
  rendered with, into the edit that is posted.
\<close>

theorem typed_value_is_sent:
  assumes "selectedJob c = Some j" "find_version c (Some (job_version_id j)) = Some ver" "obj_ok (reviewDrafts c)"
    and "c' = setReviewDraft (field_name f) v c"
  shows "card_draft (review_card_of loc c' f) = v
    \<and> (field_name g \<noteq> field_name f \<longrightarrow> card_draft (review_card_of loc c' g) = card_draft (review_card_of loc c g))
    \<and> field_edit num (reviewDrafts c') (selected_definition c' (job_id j)) f =
        res_bind (parseReviewDraft num f v (card_definition c' f)) (\<lambda>parsed.
          Inr (if stringify parsed = stringify (original_value f) then None
               else Some \<lparr>edit_field = field_name f, edit_value = parsed,
                          edit_reason = ''Updated from extraction workspace''\<rparr>))"
proof -
  have drafts: "obj_get (reviewDrafts c') k = (if k = field_name f then Some v else obj_get (reviewDrafts c) k)" for k
    using obj.get_put [OF assms(3)] by (simp add: assms(4) setReviewDraft_def)
  have same: "selectedTemplateVersion c' = selectedTemplateVersion c"
    "selected_definition c' (job_id j) = map_option definition_of (selectedTemplateVersion c)"
    using selected_definition_shown [OF assms(1, 2)] by (simp_all add: assms(4) setReviewDraft_frame)
  show ?thesis
    by (auto simp: review_card_of_def Let_def shown_draft_def drafts same field_edit_def card_definition_def)
qed

lemma typed_value_is_sent_witness:
  "card_draft (review_card_of num_to_string (setReviewDraft ''a'' ''new'' ((pending_app True)\<lparr>templateVersions := [demo_version]\<rparr>))
     (sample_field ''a'' ''text'' (JStr ''old''))) = ''new''"
proof -
  let ?c = "(pending_app True)\<lparr>templateVersions := [demo_version]\<rparr>"
  have "selectedJob ?c = selectedJob (pending_app True)" by (simp add: selectedJob_def)
  then have j: "selectedJob ?c = Some (demo_job 1 ''completed'')" using pending_selected by simp
  have v: "find_version ?c (Some (job_version_id (demo_job 1 ''completed''))) = Some demo_version"
    by (simp add: find_version_def demo_version_def demo_job_def same_id_def num_eq_def)
  have "obj_ok (reviewDrafts ?c)" by (simp add: pending_app_def start_app_def initial_app_def obj_ok_def obj_keys_def)
  from typed_value_is_sent [OF j v this refl, where f = "sample_field ''a'' ''text'' (JStr ''old'')" and v = "''new''" and loc = num_to_string]
  show ?thesis by (simp add: sample_field_def)
qed

end
