(* ===== verification/PageLoads.thy ===== *)
theory PageLoads
  imports AppHandlers
begin

text \<open>
  The pages and panels that load their own data: \<open>ParsedTextPanel\<close> (the text of the document under
  review), \<open>AuditPage\<close> and \<open>AdminPage\<close>, each with its local state, its effect with the clean-up, and what
  it shows. The theorems cover every interleaving of the loads: replies that come too late, indicators that
  stay, and lists that an older reply overwrites. A clean-up is modelled by starting the next run.
\<close>

section \<open>The parsed text panel\<close>

record parsed_panel =
  parsed_state :: "parsed_text option"
  panel_error :: "string option"
  panel_loading :: bool
  panel_run :: nat

definition initial_panel :: parsed_panel where
  "initial_panel = \<lparr>parsed_state = None, panel_error = None, panel_loading = False, panel_run = 0\<rparr>"

text \<open>This call site does not use \<open>readJson\<close>: a refused request gets a message of its own.\<close>

definition parsed_reply :: "reply \<Rightarrow> thrown + parsed_text" where
  "parsed_reply r =
     (case r of
        Response False text v \<Rightarrow> Inl (JsError ''Parsed document text is not available yet.'')
      | _ \<Rightarrow> settle as_parsed r)"

definition parsed_text_path :: "jsnum \<Rightarrow> string" where
  "parsed_text_path i = path_with_id ''/documents/'' i ''/parsed-text''"

definition fetch_parsed :: "jsnum \<Rightarrow> ('s, parsed_text) proc" where
  "fetch_parsed i = Request [Http GET (parsed_text_path i) NoBody] (\<lambda>rs.
     case parsed_reply (reply_at rs 0) of Inl e \<Rightarrow> Throw e | Inr p \<Rightarrow> Return p)"

definition if_current :: "nat \<Rightarrow> (parsed_panel \<Rightarrow> parsed_panel) \<Rightarrow> parsed_panel \<Rightarrow> parsed_panel" where
  "if_current n u s = (if panel_run s = n then u s else s)"

definition loadParsedText :: "jsnum \<Rightarrow> nat \<Rightarrow> (parsed_panel, unit) proc" where
  "loadParsedText i n =
     Update (\<lambda>s. s\<lparr>panel_loading := True\<rparr>) (Update (\<lambda>s. s\<lparr>panel_error := None\<rparr>)
       (finally_do
         (catch
           (bind (fetch_parsed i) (\<lambda>p. Update (if_current n (\<lambda>s. s\<lparr>parsed_state := Some p\<rparr>)) (Return ())))
           (\<lambda>e. Update (if_current n (\<lambda>s. s\<lparr>parsed_state := None,
                  panel_error := Some (error_message e ''Could not load parsed document text.'')\<rparr>)) (Return ())))
         (if_current n (\<lambda>s. s\<lparr>panel_loading := False\<rparr>))))"

text \<open>The effect on \<open>documentId\<close>, after the clean-up of the run before it.\<close>

definition effect_parsed_text :: "jsnum option \<Rightarrow> parsed_panel \<Rightarrow> (parsed_panel, unit) proc" where
  "effect_parsed_text i s =
     Update (\<lambda>t. t\<lparr>panel_run := Suc (panel_run s)\<rparr>)
       (if \<not> id_truthy i then Update (\<lambda>t. t\<lparr>parsed_state := None, panel_error := None\<rparr>) (Return ())
        else loadParsedText (the i) (Suc (panel_run s)))"

section \<open>The audit page\<close>

record audit_page =
  events_shown :: "audit_event list"
  audit_loading :: bool
  audit_error :: "string option"
  audit_run :: nat

definition initial_audit :: audit_page where
  "initial_audit = \<lparr>events_shown = [], audit_loading = True, audit_error = None, audit_run = 0\<rparr>"

definition if_mounted :: "nat \<Rightarrow> (audit_page \<Rightarrow> audit_page) \<Rightarrow> audit_page \<Rightarrow> audit_page" where
  "if_mounted n u s = (if audit_run s = n then u s else s)"

definition loadEvents :: "nat \<Rightarrow> (audit_page, unit) proc" where
  "loadEvents n =
     Update (\<lambda>s. s\<lparr>audit_loading := True\<rparr>) (Update (\<lambda>s. s\<lparr>audit_error := None\<rparr>)
       (finally_do
         (catch
           (bind (readJson as_audit GET ''/audit/events?limit=100'' NoBody) (\<lambda>es.
              Update (if_mounted n (\<lambda>s. s\<lparr>events_shown := es\<rparr>)) (Return ())))
           (\<lambda>e. Update (if_mounted n (\<lambda>s. s\<lparr>audit_error := Some (error_message e ''Could not load audit events.'')\<rparr>))
              (Return ())))
         (if_mounted n (\<lambda>s. s\<lparr>audit_loading := False\<rparr>))))"

text \<open>A row of the table; \<open>row_job\<close> is the job its link opens. The locale's date format is a parameter.\<close>

record audit_row =
  row_time :: string
  row_actor :: string
  row_action :: string
  row_object :: string
  row_job :: "jsnum option"
  row_details :: string

definition formatAuditTimestamp :: "(string \<Rightarrow> string) \<Rightarrow> string \<Rightarrow> string" where
  "formatAuditTimestamp locale_date v = locale_date v"

definition formatAuditAction :: "string \<Rightarrow> string" where
  "formatAuditAction action = replace_char CHR ''.'' ('' '' @ middle_dot @ '' '') action"

text \<open>\<open>join(sep)\<close> of an array of JSON values.\<close>

definition join_values :: "string \<Rightarrow> json list \<Rightarrow> string" where
  "join_values sep vs = js_join sep (map (\<lambda>v. if v = JNull then '''' else json_to_string v) vs)"

definition audit_job_id :: "audit_event \<Rightarrow> jsnum option" where
  "audit_job_id e = (case obj_get (audit_metadata e) ''job_id'' of Some (JNum n) \<Rightarrow> Some n | _ \<Rightarrow> None)"

definition audit_details :: "audit_event \<Rightarrow> string" where
  "audit_details e =
     (case obj_get (audit_metadata e) ''reason'' of
        Some (JStr reason) \<Rightarrow> reason
      | _ \<Rightarrow> (case obj_get (audit_metadata e) ''content_sha256'' of
          Some (JStr hash) \<Rightarrow> ''SHA-256 '' @ take 12 hash @ ellipsis
        | _ \<Rightarrow> (case obj_get (audit_metadata e) ''field_names'' of
            Some (JArr names) \<Rightarrow> ''Fields: '' @ join_values '', '' names
          | _ \<Rightarrow> audit_action e)))"

definition audit_row_of :: "(string \<Rightarrow> string) \<Rightarrow> audit_event \<Rightarrow> audit_row" where
  "audit_row_of locale_date e =
     \<lparr>row_time = formatAuditTimestamp locale_date (audit_created_at e), row_actor = audit_actor e,
      row_action = formatAuditAction (audit_action e),
      row_object = (case obj_get (audit_metadata e) ''original_filename'' of
          Some (JStr name) \<Rightarrow> name | _ \<Rightarrow> audit_object_type e),
      row_job = (if id_truthy (audit_job_id e) then audit_job_id e else None),
      row_details = audit_details e\<rparr>"

definition audit_count :: "audit_page \<Rightarrow> string" where
  "audit_count s = (if audit_loading s then ellipsis else num_to_string (num_of_nat (length (events_shown s))))"

definition audit_empty_notice :: "audit_page \<Rightarrow> bool" where
  "audit_empty_notice s \<longleftrightarrow> \<not> audit_loading s \<and> str_or (audit_error s) '''' = '''' \<and> events_shown s = []"

section \<open>The admin page\<close>

record admin_page =
  tenants_shown :: "tenant_usage list"
  admin_loading :: bool
  admin_error :: "string option"
  busyTenant :: "string option"

definition initial_admin :: admin_page where
  "initial_admin = \<lparr>tenants_shown = [], admin_loading = True, admin_error = None, busyTenant = None\<rparr>"

definition loadUsage :: "(admin_page, unit) proc" where
  "loadUsage =
     Update (\<lambda>s. s\<lparr>admin_loading := True\<rparr>) (Update (\<lambda>s. s\<lparr>admin_error := None\<rparr>)
       (finally_do
         (catch
           (bind (readJson as_tenants GET ''/admin/tenants/usage'' NoBody) (\<lambda>ts.
              Update (\<lambda>s. s\<lparr>tenants_shown := ts\<rparr>) (Return ())))
           (\<lambda>e. Update (\<lambda>s. s\<lparr>admin_error := Some (error_message e ''Could not load tenant usage.'')\<rparr>) (Return ())))
         (\<lambda>s. s\<lparr>admin_loading := False\<rparr>)))"

definition tenant_status_path :: "string \<Rightarrow> string" where
  "tenant_status_path t = ''/admin/tenants/'' @ t @ ''/status''"

definition tenant_status_body :: "bool \<Rightarrow> payload" where
  "tenant_status_body hold =
     TenantBody hold (if hold then Some ''manual suspend from admin console'' else None)"

definition setTenantSuspended :: "string \<Rightarrow> bool \<Rightarrow> (admin_page, unit) proc" where
  "setTenantSuspended t hold =
     Update (\<lambda>s. s\<lparr>busyTenant := Some t\<rparr>) (Update (\<lambda>s. s\<lparr>admin_error := None\<rparr>)
       (finally_do
         (catch
           (bind (readJson as_any PUT (tenant_status_path t) (tenant_status_body hold)) (\<lambda>_. loadUsage))
           (\<lambda>e. Update (\<lambda>s. s\<lparr>admin_error := Some (error_message e ''Could not update tenant status.'')\<rparr>) (Return ())))
         (\<lambda>s. s\<lparr>busyTenant := None\<rparr>)))"

text \<open>A row: the status and the button, what it asks for, and whether it is enabled.\<close>

record tenant_row =
  tenant_status :: string
  tenant_activity :: string
  tenant_button :: string
  tenant_next :: bool
  tenant_enabled :: bool

definition tenant_row_of :: "(string \<Rightarrow> string) \<Rightarrow> admin_page \<Rightarrow> tenant_usage \<Rightarrow> tenant_row" where
  "tenant_row_of locale_date s t =
     \<lparr>tenant_status = (if tenant_suspended t then ''Suspended'' else ''Active''),
      tenant_activity = (case latest_activity_at t of
          Some v \<Rightarrow> if v \<noteq> [] then formatAuditTimestamp locale_date v else em_dash
        | None \<Rightarrow> em_dash),
      tenant_button = (if tenant_suspended t then ''Unsuspend'' else ''Suspend''),
      tenant_next = (\<not> tenant_suspended t),
      tenant_enabled = (busyTenant s \<noteq> Some (tenant_id t))\<rparr>"

definition admin_empty_notice :: "admin_page \<Rightarrow> bool" where
  "admin_empty_notice s \<longleftrightarrow> \<not> admin_loading s \<and> str_or (admin_error s) '''' = '''' \<and> tenants_shown s = []"

section \<open>Replies that come too late\<close>

lemmas load_simps = bind.simps catch.simps finally_do.simps advance.simps wp.simps all_updates.simps

interpretation parsed: cancellable_load panel_run "loadParsedText i"
proof
  fix n s
  show "\<exists>qs k. snd (advance (loadParsedText i n) s) = Request qs k \<and>
    (\<forall>rs. all_updates (\<lambda>u. \<forall>s. panel_run s \<noteq> n \<longrightarrow> u s = s) (k rs))"
    by (auto simp: loadParsedText_def fetch_parsed_def if_current_def split: sum.split)
qed

interpretation audit: cancellable_load audit_run loadEvents
proof
  fix n s
  show "\<exists>qs k. snd (advance (loadEvents n) s) = Request qs k \<and>
    (\<forall>rs. all_updates (\<lambda>u. \<forall>s. audit_run s \<noteq> n \<longrightarrow> u s = s) (k rs))"
    by (auto simp: loadEvents_def readJson_def await_def if_mounted_def split: sum.split)
qed

text \<open>
  Neither the panel nor the audit page is changed by a reply that arrives after its effect was cleaned
  up: after the user moved to another document, or left the page.
\<close>

theorem late_page_loads_ignored:
  "(snd (advance (loadParsedText i n) s) = Request qs k \<longrightarrow> panel_run t \<noteq> n \<longrightarrow> fst (advance (k rs) t) = t)
   \<and> (snd (advance (loadEvents m) a) = Request qs' k' \<longrightarrow> audit_run b \<noteq> m \<longrightarrow> fst (advance (k' rs) b) = b)"
  using parsed.stale_reply_ignored audit.stale_reply_ignored by (metis prod.collapse)

lemma late_page_loads_ignored_witness:
  "\<exists>qs k. snd (advance (loadEvents 0) initial_audit) = Request qs k
     \<and> fst (advance (k [Rejected OtherThrown]) (initial_audit\<lparr>audit_run := 1\<rparr>)) = initial_audit\<lparr>audit_run := 1\<rparr>"
proof -
  obtain qs k where k: "snd (advance (loadEvents 0) initial_audit) = Request qs k"
    by (simp add: loadEvents_def readJson_def await_def)
  with late_page_loads_ignored [THEN conjunct2, rule_format, OF k, of "initial_audit\<lparr>audit_run := 1\<rparr>"] show ?thesis by auto
qed

section \<open>The panel shows the document or says why not\<close>

lemma parsed_reply_outcome:
  assumes "snd (advance (loadParsedText i n) s) = Request qs k" "panel_run t = n"
  shows "qs = [Http GET (parsed_text_path i) NoBody]"
    and "fst (advance (k rs) t) =
      (case parsed_reply (reply_at rs 0) of
         Inr p \<Rightarrow> t\<lparr>parsed_state := Some p, panel_loading := False\<rparr>
       | Inl e \<Rightarrow> t\<lparr>parsed_state := None, panel_error := Some (error_message e ''Could not load parsed document text.''),
                   panel_loading := False\<rparr>)"
proof -
  show "qs = [Http GET (parsed_text_path i) NoBody]"
    using assms by (simp add: loadParsedText_def fetch_parsed_def)
  have "k = (\<lambda>rs. finally_do
         (catch
           (bind (case parsed_reply (reply_at rs 0) of Inl e \<Rightarrow> Throw e | Inr p \<Rightarrow> Return p)
             (\<lambda>p. Update (if_current n (\<lambda>s. s\<lparr>parsed_state := Some p\<rparr>)) (Return ())))
           (\<lambda>e. Update (if_current n (\<lambda>s. s\<lparr>parsed_state := None,
                  panel_error := Some (error_message e ''Could not load parsed document text.'')\<rparr>)) (Return ())))
         (if_current n (\<lambda>s. s\<lparr>panel_loading := False\<rparr>)))"
    using assms by (simp add: loadParsedText_def fetch_parsed_def)
  then show "fst (advance (k rs) t) =
      (case parsed_reply (reply_at rs 0) of
         Inr p \<Rightarrow> t\<lparr>parsed_state := Some p, panel_loading := False\<rparr>
       | Inl e \<Rightarrow> t\<lparr>parsed_state := None, panel_error := Some (error_message e ''Could not load parsed document text.''),
                   panel_loading := False\<rparr>)"
    using assms(2) by (simp add: if_current_def split: sum.split)
qed

definition opens_document :: "parsed_panel \<Rightarrow> (parsed_panel, unit) proc \<Rightarrow> bool" where
  "opens_document s p \<longleftrightarrow> (\<exists>i. num_truthy i \<and> p = effect_parsed_text (Some i) s)"

definition run_of :: "nat \<Rightarrow> (parsed_panel, unit) task \<Rightarrow> bool" where
  "run_of n t \<longleftrightarrow> (\<exists>i s k. snd t = Request [Http GET (parsed_text_path i) NoBody] k \<and>
     snd (advance (loadParsedText i n) s) = Request [Http GET (parsed_text_path i) NoBody] k)"

lemma run_of_reply:
  assumes "run_of n (h, Request qs k)"
  shows "panel_run s \<noteq> n \<Longrightarrow> fst (advance (k rs) s) = s"
    and "panel_run s = n \<Longrightarrow> \<not> panel_loading (fst (advance (k rs) s)) \<and> panel_run (fst (advance (k rs) s)) = n"
    and "\<not> suspended (snd (advance (k rs) s))"
proof -
  from assms obtain i s' where q: "snd (advance (loadParsedText i n) s') = Request qs k" by (auto simp: run_of_def)
  show "panel_run s \<noteq> n \<Longrightarrow> fst (advance (k rs) s) = s"
    using parsed.stale_reply_ignored [OF q] by (metis prod.collapse)
  show "panel_run s = n \<Longrightarrow> \<not> panel_loading (fst (advance (k rs) s)) \<and> panel_run (fst (advance (k rs) s)) = n"
    using parsed_reply_outcome(2) [OF q] by (simp split: sum.split)
  show "\<not> suspended (snd (advance (k rs) s))"
    using q by (cases "parsed_reply (reply_at rs 0)") (auto simp: loadParsedText_def fetch_parsed_def)
qed

lemma advance_effect:
  assumes "num_truthy i" "advance (effect_parsed_text (Some i) s) s = (s', p')"
  shows "s' = s\<lparr>panel_run := Suc (panel_run s), panel_loading := True, panel_error := None\<rparr>"
    and "park [] p' = [([], p')]" "run_of (Suc (panel_run s)) ([], p')"
proof -
  let ?n = "Suc (panel_run s)" and ?t = "s\<lparr>panel_run := Suc (panel_run s)\<rparr>"
  have e: "effect_parsed_text (Some i) s = Update (\<lambda>t. t\<lparr>panel_run := ?n\<rparr>) (loadParsedText i ?n)"
    using assms(1) by (simp add: effect_parsed_text_def id_truthy_def)
  with assms(2) have adv: "advance (loadParsedText i ?n) ?t = (s', p')" by simp
  then show "s' = s\<lparr>panel_run := Suc (panel_run s), panel_loading := True, panel_error := None\<rparr>"
    by (simp add: loadParsedText_def fetch_parsed_def)
  from adv have "\<exists>k. p' = Request [Http GET (parsed_text_path i) NoBody] k"
    by (auto simp: loadParsedText_def fetch_parsed_def)
  then obtain k where k: "p' = Request [Http GET (parsed_text_path i) NoBody] k" by blast
  then show "park [] p' = [([], p')]" by (simp add: park_def)
  from adv k have "snd (advance (loadParsedText i ?n) ?t) = Request [Http GET (parsed_text_path i) NoBody] k" by simp
  with k show "run_of ?n ([], p')" unfolding run_of_def snd_conv by blast
qed

lemma panel_invariant:
  "reach (\<lambda>s. s = initial_panel) opens_document (=) c \<Longrightarrow>
   (\<forall>t \<in> set (snd c). \<exists>n \<le> panel_run (fst c). run_of n t) \<and>
   (panel_loading (fst c) \<longrightarrow> (\<exists>t \<in> set (snd c). run_of (panel_run (fst c)) t))"
proof (induction rule: reach.induct)
  case (init s)
  then show ?case by (simp add: initial_panel_def)
next
  case (event s ts p s' p')
  from event.hyps(2) obtain i where i: "num_truthy i" "p = effect_parsed_text (Some i) s" by (auto simp: opens_document_def)
  note a = advance_effect [OF i(1) event.hyps(3) [unfolded i(2)]]
  have "\<exists>n \<le> Suc (panel_run s). run_of n t" if "t \<in> set ts" for t
    using event.IH that by (metis fst_conv snd_conv le_SucI)
  moreover have "panel_run s' = Suc (panel_run s)" by (simp add: a(1))
  moreover note a(2, 3)
  ultimately show ?case unfolding fst_conv snd_conv by (auto intro: le_refl)
next
  case (reply s us h qs k vs rs s' p')
  let ?t = "(h, Request qs k)"
  from reply.IH obtain n where n: "n \<le> panel_run s" "run_of n ?t" by auto
  note r = run_of_reply [OF n(2)]
  have s': "s' = fst (advance (k rs) s)" and "\<not> suspended p'" using reply.hyps(2) r(3) by (metis fst_conv, metis snd_conv)
  then have park: "park (h @ [(qs, rs)]) p' = []" by (simp add: park_def)
  show ?case
  proof (cases "panel_run s = n")
    case True
    with r(2) [of s] s' park reply.IH show ?thesis by auto
  next
    case False
    with r(1) [of s] s' have "s' = s" by simp
    moreover have "\<exists>t \<in> set us \<union> set vs. run_of (panel_run s) t" if "panel_loading s"
    proof -
      have "\<not> run_of (panel_run s) ?t" using that run_of_reply(2) [of "panel_run s" h qs k s rs] s' \<open>s' = s\<close> by auto
      with that reply.IH show ?thesis by auto
    qed
    ultimately show ?thesis using reply.IH park by auto
  qed
qed auto

text \<open>
  The loading note of the parsed text always ends: in any interleaving of documents opened and replies,
  while it is shown a request is pending whose reply takes the note away and shows the text or the error;
  so it is never shown once nothing is pending.
\<close>

theorem parsed_text_loading_ends:
  assumes "reach (\<lambda>s. s = initial_panel) opens_document (=) (s, ts)" "panel_loading s"
  shows "\<exists>h i k. (h, Request [Http GET (parsed_text_path i) NoBody] k) \<in> set ts \<and>
    (\<forall>rs. fst (advance (k rs) s) =
      (case parsed_reply (reply_at rs 0) of
         Inr p \<Rightarrow> s\<lparr>parsed_state := Some p, panel_loading := False\<rparr>
       | Inl e \<Rightarrow> s\<lparr>parsed_state := None, panel_error := Some (error_message e ''Could not load parsed document text.''),
                   panel_loading := False\<rparr>))"
proof -
  from panel_invariant [OF assms(1)] assms(2) obtain h p where t: "(h, p) \<in> set ts" "run_of (panel_run s) (h, p)"
    by auto
  then obtain i s' k where k: "p = Request [Http GET (parsed_text_path i) NoBody] k"
    "snd (advance (loadParsedText i (panel_run s)) s') = Request [Http GET (parsed_text_path i) NoBody] k"
    by (auto simp: run_of_def)
  show ?thesis
  proof (intro exI conjI allI)
    show "(h, Request [Http GET (parsed_text_path i) NoBody] k) \<in> set ts" using t k by simp
  qed (rule parsed_reply_outcome(2) [OF k(2) refl])
qed

definition opened_panel :: parsed_panel where
  "opened_panel = initial_panel\<lparr>panel_run := 1, panel_loading := True\<rparr>"

lemma panel_opened:
  "\<exists>h k. reach (\<lambda>s. s = initial_panel) opens_document (=) (opened_panel, [(h, Request [Http GET (parsed_text_path (Num 5)) NoBody] k)])"
proof -
  have "reach (\<lambda>s. s = initial_panel) opens_document (=) (initial_panel, [])" by (rule reach.init) simp
  moreover have "opens_document initial_panel (effect_parsed_text (Some (Num 5)) initial_panel)"
    unfolding opens_document_def by (rule exI [of _ "Num 5"]) (simp add: num_truthy_def)
  ultimately have "reach (\<lambda>s. s = initial_panel) opens_document (=)
     (fst (advance (effect_parsed_text (Some (Num 5)) initial_panel) initial_panel),
      [] @ park [] (snd (advance (effect_parsed_text (Some (Num 5)) initial_panel) initial_panel)))"
    by (rule reach.event) simp
  then show ?thesis
    by (auto simp: effect_parsed_text_def id_truthy_def num_truthy_def loadParsedText_def fetch_parsed_def park_def
        opened_panel_def initial_panel_def)
qed

lemma parsed_text_loading_ends_witness:
  "\<exists>ts. reach (\<lambda>s. s = initial_panel) opens_document (=) (opened_panel, ts) \<and>
     (\<exists>h i k. (h, Request [Http GET (parsed_text_path i) NoBody] k) \<in> set ts \<and>
       \<not> panel_loading (fst (advance (k [Rejected OtherThrown]) opened_panel)))"
proof -
  obtain h k where r: "reach (\<lambda>s. s = initial_panel) opens_document (=)
      (opened_panel, [(h, Request [Http GET (parsed_text_path (Num 5)) NoBody] k)])"
    using panel_opened by blast
  from parsed_text_loading_ends [OF r] obtain h' i k' where
    "(h', Request [Http GET (parsed_text_path i) NoBody] k') \<in> set [(h, Request [Http GET (parsed_text_path (Num 5)) NoBody] k)]"
    "fst (advance (k' [Rejected OtherThrown]) opened_panel) = opened_panel\<lparr>parsed_state := None,
       panel_error := Some (error_message OtherThrown ''Could not load parsed document text.''), panel_loading := False\<rparr>"
    by (auto simp: opened_panel_def parsed_reply_def settle_def reply_at_def)
  then show ?thesis using r by (intro exI conjI) (assumption, assumption, simp)
qed

text \<open>
  What the panel shows while it loads: opening another document keeps the text of the one before (under
  the highlight of the new document's field), and deselecting the document while its text loads leaves the
  loading note for good, whatever the reply.
\<close>

theorem panel_while_loading:
  assumes "num_truthy i" "advance (effect_parsed_text (Some i) s) s = (s1, Request qs k)"
    and "advance (effect_parsed_text None s1) s1 = (s2, p)"
  shows "parsed_state s1 = parsed_state s \<and> panel_loading s1
    \<and> parsed_state s2 = None \<and> panel_loading s2 \<and> \<not> suspended p \<and> fst (advance (k rs) s2) = s2"
proof -
  note a = advance_effect [OF assms(1, 2)]
  have "s2 = s1\<lparr>panel_run := Suc (panel_run s1), parsed_state := None, panel_error := None\<rparr>" "\<not> suspended p"
    using assms(3) by (auto simp: effect_parsed_text_def id_truthy_def)
  moreover have "panel_run s2 \<noteq> Suc (panel_run s)" using calculation a(1) by simp
  ultimately show ?thesis using a(1) run_of_reply(1) [OF a(3)] by simp
qed

lemma panel_while_loading_witness:
  "\<exists>s1 k s2 p qs. advance (effect_parsed_text (Some (Num 5)) initial_panel) initial_panel = (s1, Request qs k)
     \<and> advance (effect_parsed_text None s1) s1 = (s2, p) \<and> panel_loading (fst (advance (k []) s2))"
proof -
  obtain s1 k qs where 1: "advance (effect_parsed_text (Some (Num 5)) initial_panel) initial_panel = (s1, Request qs k)"
    by (simp add: effect_parsed_text_def id_truthy_def num_truthy_def loadParsedText_def fetch_parsed_def)
  obtain s2 p where 2: "advance (effect_parsed_text None s1) s1 = (s2, p)" by fastforce
  from panel_while_loading [OF _ 1 2, of "[]"] 1 2 show ?thesis by (auto simp: num_truthy_def)
qed

section \<open>The admin page\<close>

inductive admin_event :: "admin_page \<Rightarrow> (admin_page, unit) proc \<Rightarrow> bool" where
  mount: "admin_event s loadUsage"
| suspend: "admin_event s (setTenantSuspended t hold)"

inductive_cases admin_eventE: "admin_event s p"

lemma loadUsage_keeps_busy:
  "all_updates (\<lambda>u. \<forall>s. (busyTenant (u s) = None) = (busyTenant s = None)) loadUsage"
  by (auto simp: loadUsage_def readJson_def await_def split: sum.split)

interpretation admin_busy: owned_flag "\<lambda>s. busyTenant s = None" "\<lambda>s. s = initial_admin" admin_event "(=)"
proof
  show "(\<forall>h s. wp any_state any_request (\<lambda>h s r. busyTenant s = None) p h s)
      \<or> all_updates (\<lambda>u. \<forall>s. (busyTenant (u s) = None) = (busyTenant s = None)) p" if "admin_event s p" for s p
    using that loadUsage_keeps_busy
    by (elim admin_eventE) (auto simp: setTenantSuspended_def intro!: wp_finally_all)
qed (auto simp: initial_admin_def)

text \<open>
  No button of the admin page stays disabled: once no request is pending, in any interleaving of loads
  and suspensions, every tenant can be suspended or resumed again.
\<close>

theorem tenant_buttons_come_back:
  assumes "reach (\<lambda>s. s = initial_admin) admin_event (=) (s, [])"
  shows "tenant_enabled (tenant_row_of locale_date s t)"
  using admin_busy.quiescent_idle [OF assms] by (simp add: tenant_row_of_def)

lemma tenant_buttons_come_back_witness:
  "\<forall>t. tenant_enabled (tenant_row_of id initial_admin t)"
  using tenant_buttons_come_back [OF reach.init [of "\<lambda>s. s = initial_admin" initial_admin]] by blast

definition suspend_request :: "string \<Rightarrow> bool \<Rightarrow> request" where
  "suspend_request t hold = Http PUT (tenant_status_path t) (tenant_status_body hold)"

definition usage_request :: request where
  "usage_request = Http GET ''/admin/tenants/usage'' NoBody"

text \<open>
  Suspending a tenant on every branch: the change is put, and only when it is accepted the usage is
  loaded again and shown; a refusal leaves the list as it was and shows why; the button is always freed.
\<close>

theorem suspension_effect:
  "run env (setTenantSuspended t hold) [] s =
    (let r1 = env [] [suspend_request t hold]; h = [([suspend_request t hold], r1)]; r2 = env h [usage_request] in
     case settle as_any (reply_at r1 0) of
       Inl e \<Rightarrow> (h, s\<lparr>admin_error := Some (error_message e ''Could not update tenant status.''), busyTenant := None\<rparr>, Inr ())
     | Inr _ \<Rightarrow> (h @ [([usage_request], r2)],
         (case settle as_tenants (reply_at r2 0) of
            Inl e \<Rightarrow> s\<lparr>admin_error := Some (error_message e ''Could not load tenant usage.''),
                       admin_loading := False, busyTenant := None\<rparr>
          | Inr ts \<Rightarrow> s\<lparr>tenants_shown := ts, admin_error := None, admin_loading := False, busyTenant := None\<rparr>), Inr ()))"
  unfolding setTenantSuspended_def loadUsage_def readJson_def await_def suspend_request_def [symmetric]
    usage_request_def [symmetric]
  by (simp add: Let_def split: sum.split)

definition sample_tenant :: tenant_usage where
  "sample_tenant = \<lparr>tenant_id = ''acme'', tenant_suspended = False, suspension_reason = None, tenant_documents = Num 1,
     tenant_jobs_completed = Num 1, tenant_results = Num 1, tenant_exports = Num 0, latest_activity_at = None\<rparr>"

text \<open>
  The list of tenants is not guarded against late replies: of two loads that overlap, the one answered
  last decides what is shown, even when it was asked first.
\<close>

theorem late_usage_overwrites:
  assumes "advance loadUsage s = (s1, Request qs k)" "advance loadUsage s1 = (s2, Request qs' k')"
    and "settle as_tenants (reply_at old 0) = Inr older" "settle as_tenants (reply_at new 0) = Inr newer"
  shows "tenants_shown (fst (advance (k old) (fst (advance (k' new) s2)))) = older"
  using assms by (auto simp: loadUsage_def readJson_def await_def)

lemma late_usage_overwrites_witness:
  "\<exists>s1 s2 k k' qs qs'. advance loadUsage initial_admin = (s1, Request qs k) \<and> advance loadUsage s1 = (s2, Request qs' k')
     \<and> tenants_shown (fst (advance (k [Response True [] (Some (VTenants []))])
         (fst (advance (k' [Response True [] (Some (VTenants [sample_tenant]))]) s2)))) = []"
proof -
  obtain s1 qs k where 1: "advance loadUsage initial_admin = (s1, Request qs k)"
    by (simp add: loadUsage_def readJson_def await_def)
  obtain s2 qs' k' where 2: "advance loadUsage s1 = (s2, Request qs' k')"
    by (simp add: loadUsage_def readJson_def await_def)
  have "tenants_shown (fst (advance (k [Response True [] (Some (VTenants []))])
         (fst (advance (k' [Response True [] (Some (VTenants [sample_tenant]))]) s2)))) = []"
    by (rule late_usage_overwrites [OF 1 2, of _ _ _ "[sample_tenant]"]) (simp_all add: settle_def reply_at_def)
  with 1 2 show ?thesis by blast
qed

end
