(* ===== verification/SchemaPage.thy ===== *)
theory SchemaPage
  imports PageLoads
begin

text \<open>
  \<open>SchemaPage\<close>: what it derives from the state \<open>c\<close> of \<open>App\<close>, its local state (the version diff and the
  dry run), the effect that asks for the diff, the dry run, the edits of the draft, and what it shows. The
  diff is unchecked JSON beyond the two properties \<open>isTemplateVersionDiff\<close> looks at, so rendering it may
  throw a TypeError; \<open>None\<close> is that.
\<close>

section \<open>Derived values\<close>

definition schema_definition :: "app_state \<Rightarrow> template_definition" where
  "schema_definition c = coalesce (currentTemplateDefinition c) starterTemplateDefinition"

definition showLangExtractEditor :: "app_state \<Rightarrow> bool" where
  "showLangExtractEditor c \<longleftrightarrow>
     api_style (effective_provider (provider c) (schema_definition c)) = Some LangextractStyle \<or>
     api_style (llm_provider_settings (schema_definition c)) = Some LangextractStyle"

definition selectedSchema :: "app_state \<Rightarrow> template_summary option" where
  "selectedSchema c = find (\<lambda>t. same_id (Some (template_id t)) (selectedTemplateId c)) (templates c)"

definition selectedVersions :: "app_state \<Rightarrow> template_version_record list" where
  "selectedVersions c = filter (\<lambda>v. same_id (Some (version_template_id v)) (selectedTemplateId c)) (templateVersions c)"

definition requiredFieldCount :: "app_state \<Rightarrow> nat" where
  "requiredFieldCount c = length (filter (\<lambda>f. required f = Some True) (extracted_fields (schema_definition c)))"

definition citationFieldCount :: "app_state \<Rightarrow> nat" where
  "citationFieldCount c = length (filter (\<lambda>f. citation_required f = Some True) (extracted_fields (schema_definition c)))"

definition optionalFieldCount :: "app_state \<Rightarrow> int" where
  "optionalFieldCount c = int (length (extracted_fields (schema_definition c))) - int (requiredFieldCount c)"

definition exportFormatsLabel :: "app_state \<Rightarrow> string" where
  "exportFormatsLabel c = js_join ('' '' @ middle_dot @ '' '') (export_formats (schema_definition c))"

definition searchParametersStepNumber :: "app_state \<Rightarrow> nat" where
  "searchParametersStepNumber c = (if showLangExtractEditor c then 4 else 3)"

definition outputRulesStepNumber :: "app_state \<Rightarrow> nat" where
  "outputRulesStepNumber c = (if showLangExtractEditor c then 5 else 4)"

definition dryRunStepNumber :: "app_state \<Rightarrow> nat" where
  "dryRunStepNumber c = outputRulesStepNumber c + 1"

definition selectedSavedVersion :: "app_state \<Rightarrow> template_version_record option" where
  "selectedSavedVersion c = find (\<lambda>v. same_id (Some (version_id v)) (selectedTemplateVersionId c)) (selectedVersions c)"

definition active_setup :: "app_state \<Rightarrow> string \<times> string \<times> string \<times> string" where
  "active_setup c =
     (case selectedSchema c of Some t \<Rightarrow> summary_name t | None \<Rightarrow> template_name (schema_definition c),
      str_or (map_option summary_description (selectedSchema c))
        (str_or (Some (description (schema_definition c)))
          ''Use this starter schema as the base contract for the extraction job below.''),
      if id_truthy (selectedTemplateVersionId c) then ''Version selected'' else ''Starter template'',
      if length (selectedVersions c) \<noteq> 0
      then num_to_string (num_of_nat (length (selectedVersions c))) @ '' saved versions'' else ''No saved versions yet'')"

section \<open>Editing the draft\<close>

datatype schema_edit =
    EditName string
  | EditFamily string
  | EditBrief string
  | EditVersion string
  | ToggleLocalOnly

primrec edit_schema :: "schema_edit \<Rightarrow> draft_template \<Rightarrow> draft_template" where
  "edit_schema (EditName v) d = d\<lparr>dt_template_name := v\<rparr>"
| "edit_schema (EditFamily v) d = d\<lparr>dt_document_type := v\<rparr>"
| "edit_schema (EditBrief v) d = d\<lparr>dt_description := v\<rparr>"
| "edit_schema (EditVersion v) d = d\<lparr>dt_template_version := v\<rparr>"
| "edit_schema ToggleLocalOnly d = d\<lparr>dt_local_only := \<not> dt_local_only d\<rparr>"

section \<open>Search parameters and output rules\<close>

record search_parameter =
  parameter_label :: string
  parameter_badges :: "string list"
  parameter_text :: string
  parameter_nulls :: string
  parameter_review :: string

definition search_parameter_of :: "template_field \<Rightarrow> search_parameter" where
  "search_parameter_of f =
     \<lparr>parameter_label = field_def_label f,
      parameter_badges = [field_def_type f, if required f = Some True then ''Required'' else ''Optional'']
        @ (if citation_required f = Some True then [''Evidence required''] else []),
      parameter_text = coalesce (or_else (instructions f) (field_def_description f)) ''Field instructions not defined.'',
      parameter_nulls = (if required f = Some True then ''Do not allow missing values'' else ''Allow null when absent''),
      parameter_review = (if citation_required f = Some True then ''Operator should confirm source evidence''
        else ''Evidence optional for this field'')\<rparr>"

definition provider_rule :: "app_state \<Rightarrow> string" where
  "provider_rule c =
     ''Chunk size '' @ num_to_string (coalesce (chunk_size (llm_provider_settings (schema_definition c))) (Num 16000))
     @ '' characters '' @ middle_dot @ '' ''
     @ (if dt_local_only (draftTemplate c) then ''local-first boundary'' else ''external processing allowed'')"

definition langextract_rule :: "app_state \<Rightarrow> string option" where
  "langextract_rule c =
     (case Option.bind (definition_langextract_config (schema_definition c)) config_examples of
        Some (e # es) \<Rightarrow> Some (''LangExtract examples '' @ num_to_string (num_of_nat (length (e # es))))
      | _ \<Rightarrow> None)"

definition calculated_rules :: "app_state \<Rightarrow> string list" where
  "calculated_rules c =
     map (\<lambda>f. calculated_label f @ '' = '' @ formula f) (calculated_fields (schema_definition c))"

section \<open>The local state, the diff and the dry run\<close>

record schema_page =
  dryRunSampleText :: string
  dryRunResult :: "dry_run_response option"
  dryRunBusy :: bool
  versionDiff :: "json option"
  diff_run :: nat

definition initial_schema_page :: schema_page where
  "initial_schema_page =
     \<lparr>dryRunSampleText = ''Vendor Name: Acme Corp'' @ [newline] @ ''Total Due: $1,200.00'',
      dryRunResult = None, dryRunBusy = False, versionDiff = None, diff_run = 0\<rparr>"

definition if_diff_current :: "nat \<Rightarrow> (schema_page \<Rightarrow> schema_page) \<Rightarrow> schema_page \<Rightarrow> schema_page" where
  "if_diff_current n u s = (if diff_run s = n then u s else s)"

definition load_version_diff :: "template_definition \<Rightarrow> template_definition \<Rightarrow> nat \<Rightarrow> (schema_page, unit) proc" where
  "load_version_diff saved draft n =
     catch
       (bind (readJson as_diff POST ''/templates/version-diff'' (DiffBody saved draft)) (\<lambda>d.
          Update (if_diff_current n (\<lambda>s. if isTemplateVersionDiff d then s\<lparr>versionDiff := Some d\<rparr> else s)) (Return ())))
       (\<lambda>_. Update (if_diff_current n (\<lambda>s. s\<lparr>versionDiff := None\<rparr>)) (Return ()))"

definition effect_version_diff :: "app_state \<Rightarrow> schema_page \<Rightarrow> (schema_page, unit) proc" where
  "effect_version_diff c s =
     Update (\<lambda>t. t\<lparr>diff_run := Suc (diff_run s)\<rparr>)
       (case selectedSavedVersion c of
          None \<Rightarrow> Update (\<lambda>t. t\<lparr>versionDiff := None\<rparr>) (Return ())
        | Some v \<Rightarrow> load_version_diff (definition_of v) (draftTemplateDefinition c) (Suc (diff_run s)))"

definition failed_dry_run :: "thrown \<Rightarrow> dry_run_response" where
  "failed_dry_run e =
     \<lparr>dry_ok = False, schema_errors = [error_message e ''Dry run request failed.''], dry_notes_of_document = [],
      dry_fields = [], dry_fields_requiring_review = []\<rparr>"

definition handleSchemaDryRun :: "app_state \<Rightarrow> schema_page \<Rightarrow> (schema_page, unit) proc" where
  "handleSchemaDryRun c p =
     Update (\<lambda>s. s\<lparr>dryRunBusy := True\<rparr>)
       (finally_do
         (catch
           (bind (readJson as_dry_run POST ''/templates/dry-run''
                    (DryRunBody (draftTemplateDefinition c) (dryRunSampleText p))) (\<lambda>r.
              Update (\<lambda>s. s\<lparr>dryRunResult := Some r\<rparr>) (Return ())))
           (\<lambda>e. Update (\<lambda>s. s\<lparr>dryRunResult := Some (failed_dry_run e)\<rparr>) (Return ())))
         (\<lambda>s. s\<lparr>dryRunBusy := False\<rparr>))"

section \<open>What the diff and the dry run show\<close>

text \<open>The text of a JSX child; React throws on an object.\<close>

fun react_text :: "json \<Rightarrow> string option" and react_texts :: "json list \<Rightarrow> string option" where
  "react_text JNull = Some ''''"
| "react_text (JBool b) = Some ''''"
| "react_text (JStr s) = Some s"
| "react_text (JNum n) = Some (num_to_string n)"
| "react_text (JArr vs) = react_texts vs"
| "react_text (JObj ps) = None"
| "react_texts [] = Some ''''"
| "react_texts (v # vs) = Option.bind (react_text v) (\<lambda>a. map_option (\<lambda>b. a @ b) (react_texts vs))"

definition child_text :: "json option \<Rightarrow> string option" where
  "child_text v = (case v of None \<Rightarrow> Some '''' | Some x \<Rightarrow> react_text x)"

text \<open>\<open>x.length ?\<close> and \<open>x.join(sep)\<close>.\<close>

definition length_truthy :: "json option \<Rightarrow> bool option" where
  "length_truthy v =
     (case v of
        None \<Rightarrow> None
      | Some JNull \<Rightarrow> None
      | Some (JArr vs) \<Rightarrow> Some (vs \<noteq> [])
      | Some (JStr s) \<Rightarrow> Some (s \<noteq> [])
      | Some x \<Rightarrow> Some (json_truthy (property x ''length'')))"

definition joined :: "string \<Rightarrow> json option \<Rightarrow> string option" where
  "joined sep v = (case v of Some (JArr vs) \<Rightarrow> Some (join_values sep vs) | _ \<Rightarrow> None)"

definition names_line :: "string \<Rightarrow> json option \<Rightarrow> string list option" where
  "names_line label v =
     Option.bind (length_truthy v) (\<lambda>nonempty.
       if nonempty then map_option (\<lambda>t. [label @ t]) (joined '', '' v) else Some [])"

definition change_line :: "string \<Rightarrow> json \<Rightarrow> string option" where
  "change_line label change =
     Option.bind (child_text (property change ''name'')) (\<lambda>name.
     Option.bind (joined ''; '' (property change ''details'')) (\<lambda>details.
       Some (label @ name @ '': '' @ details)))"

definition change_lines :: "string \<Rightarrow> json option \<Rightarrow> string list option" where
  "change_lines label v = (case v of Some (JArr cs) \<Rightarrow> those (map (change_line label) cs) | _ \<Rightarrow> None)"

definition diff_lines :: "json \<Rightarrow> string list option" where
  "diff_lines d =
     (if templateVersionDiffHasChanges d then
        map_option concat (those
          [names_line ''Added fields: '' (property d ''extracted_added''),
           names_line ''Removed fields: '' (property d ''extracted_removed''),
           change_lines ''Modified '' (property d ''extracted_changed''),
           names_line ''Added formulas: '' (property d ''calculated_added''),
           names_line ''Removed formulas: '' (property d ''calculated_removed''),
           change_lines ''Modified formula '' (property d ''calculated_changed''),
           Some (if json_truthy (property d ''langextract_changed'')
                 then [''LangExtract prompt or examples changed''] else [])])
      else Some [''Current draft matches the selected saved version.''])"

text \<open>Nothing is shown without a saved version or a diff; otherwise the lines, or the error.\<close>

definition version_diff_panel :: "app_state \<Rightarrow> schema_page \<Rightarrow> string list option option" where
  "version_diff_panel c s =
     (case (selectedSavedVersion c, versionDiff s) of
        (Some v, Some d) \<Rightarrow> Some (diff_lines d)
      | _ \<Rightarrow> None)"

definition dry_run_passed_notice :: "schema_page \<Rightarrow> bool" where
  "dry_run_passed_notice s \<longleftrightarrow> (case dryRunResult s of Some r \<Rightarrow> dry_ok r | None \<Rightarrow> False)"

definition dry_run_rows :: "schema_page \<Rightarrow> (string \<times> string \<times> string \<times> string) list" where
  "dry_run_rows s =
     (case dryRunResult s of
        None \<Rightarrow> []
      | Some r \<Rightarrow> map (\<lambda>f. (dry_label f,
            dry_validation_status f
              @ (if dry_validation_errors f \<noteq> [] then '' '' @ js_join '' '' (dry_validation_errors f) else ''''),
            coalesce (dry_extracted_value f) em_dash,
            str_or (Some (dry_notes f)) em_dash)) (dry_fields r))"

section \<open>The diff\<close>

interpretation diff: cancellable_load diff_run "load_version_diff saved draft"
proof
  fix n s
  show "\<exists>qs k. snd (advance (load_version_diff saved draft n) s) = Request qs k \<and>
    (\<forall>rs. all_updates (\<lambda>u. \<forall>s. diff_run s \<noteq> n \<longrightarrow> u s = s) (k rs))"
    by (auto simp: load_version_diff_def readJson_def await_def if_diff_current_def split: sum.split)
qed

text \<open>
  The diff shown: the draft is compared with the selected saved version; a late reply changes nothing, a
  failure clears the panel, a diff is shown; but while the reply is pending, and after one that is no
  diff, the panel keeps the diff of the version selected before.
\<close>

theorem version_diff_outcome:
  assumes "selectedSavedVersion c = Some v" "advance (effect_version_diff c s) s = (s1, Request qs k)"
  shows "qs = [Http POST ''/templates/version-diff'' (DiffBody (definition_of v) (draftTemplateDefinition c))]
    \<and> versionDiff s1 = versionDiff s
    \<and> fst (advance (k rs) t) =
       (if diff_run t \<noteq> Suc (diff_run s) then t
        else case settle as_diff (reply_at rs 0) of
            Inl e \<Rightarrow> t\<lparr>versionDiff := None\<rparr>
          | Inr d \<Rightarrow> if isTemplateVersionDiff d then t\<lparr>versionDiff := Some d\<rparr> else t)"
  using assms
  by (auto simp: effect_version_diff_def load_version_diff_def readJson_def await_def if_diff_current_def split: sum.split)

definition saved_app :: app_state where
  "saved_app = start_app\<lparr>selectedTemplateId := Some (Num 1), templateVersions := [demo_version],
     selectedTemplateVersionId := Some (Num 11)\<rparr>"

lemma saved_app_version: "selectedSavedVersion saved_app = Some demo_version"
  by (simp add: selectedSavedVersion_def selectedVersions_def saved_app_def demo_version_def same_id_def num_eq_def)

lemma version_diff_outcome_witness:
  "\<exists>s1 qs k. advance (effect_version_diff saved_app initial_schema_page) initial_schema_page = (s1, Request qs k)
     \<and> fst (advance (k [Response True '''' (Some (VDiff JNull))]) (s1\<lparr>versionDiff := Some (JStr ''old'')\<rparr>))
       = s1\<lparr>versionDiff := Some (JStr ''old'')\<rparr>"
proof -
  obtain s1 qs k where a: "advance (effect_version_diff saved_app initial_schema_page) initial_schema_page = (s1, Request qs k)"
    using saved_app_version
    by (simp add: effect_version_diff_def load_version_diff_def readJson_def await_def)
  note o = version_diff_outcome [OF saved_app_version a, THEN conjunct2, THEN conjunct2,
      of "[Response True '''' (Some (VDiff JNull))]" "s1\<lparr>versionDiff := Some (JStr ''old'')\<rparr>"]
  have "\<not> isTemplateVersionDiff JNull" by (simp add: isTemplateVersionDiff_def is_array_def property_def)
  with a o show ?thesis by (auto simp: settle_def reply_at_def)
qed

section \<open>Rendering the diff\<close>

text \<open>The body the endpoint documents.\<close>

definition strings_json :: "string list \<Rightarrow> json" where
  "strings_json ss = JArr (map JStr ss)"

definition change_json :: "field_change \<Rightarrow> json" where
  "change_json c = JObj [(''name'', JStr (changed_name c)), (''change'', JStr (change_kind c)),
     (''details'', strings_json (change_details c))]"

definition diff_json :: "version_diff \<Rightarrow> json" where
  "diff_json d = JObj
     [(''before_version'', JStr (before_version d)), (''after_version'', JStr (after_version d)),
      (''extracted_added'', strings_json (extracted_added d)), (''extracted_removed'', strings_json (extracted_removed d)),
      (''extracted_changed'', JArr (map change_json (extracted_changed d))),
      (''calculated_added'', strings_json (calculated_added d)), (''calculated_removed'', strings_json (calculated_removed d)),
      (''calculated_changed'', JArr (map change_json (calculated_changed d))),
      (''langextract_changed'', JBool (langextract_changed d))]"

definition names_shown :: "string \<Rightarrow> string list \<Rightarrow> string list" where
  "names_shown label ns = (if ns = [] then [] else [label @ js_join '', '' ns])"

definition changes_shown :: "string \<Rightarrow> field_change list \<Rightarrow> string list" where
  "changes_shown label cs = map (\<lambda>c. label @ changed_name c @ '': '' @ js_join ''; '' (change_details c)) cs"

definition diff_shown :: "version_diff \<Rightarrow> string list" where
  "diff_shown d =
     names_shown ''Added fields: '' (extracted_added d) @ names_shown ''Removed fields: '' (extracted_removed d)
     @ changes_shown ''Modified '' (extracted_changed d)
     @ names_shown ''Added formulas: '' (calculated_added d) @ names_shown ''Removed formulas: '' (calculated_removed d)
     @ changes_shown ''Modified formula '' (calculated_changed d)
     @ (if langextract_changed d then [''LangExtract prompt or examples changed''] else [])"

lemma join_strings: "join_values sep (map JStr ss) = js_join sep ss"
  by (simp add: join_values_def comp_def)

lemma names_line_strings: "names_line label (Some (strings_json ns)) = Some (names_shown label ns)"
  by (auto simp: names_line_def strings_json_def length_truthy_def joined_def join_strings names_shown_def)

lemma change_line_json: "change_line label (change_json c) = Some (label @ changed_name c @ '': '' @ js_join ''; '' (change_details c))"
  by (simp add: change_line_def change_json_def property_def obj_get_def child_text_def joined_def strings_json_def join_strings)

lemma those_Some: "those (map (\<lambda>x. Some (f x)) xs) = Some (map f xs)"
  by (induction xs) auto

lemma change_lines_json: "change_lines label (Some (JArr (map change_json cs))) = Some (changes_shown label cs)"
  using those_Some [of "\<lambda>c. label @ changed_name c @ '': '' @ js_join ''; '' (change_details c)" cs]
  by (simp add: change_lines_def comp_def change_line_json changes_shown_def)

lemma diff_json_property:
  "property (diff_json d) ''extracted_added'' = Some (strings_json (extracted_added d))"
  "property (diff_json d) ''extracted_removed'' = Some (strings_json (extracted_removed d))"
  "property (diff_json d) ''extracted_changed'' = Some (JArr (map change_json (extracted_changed d)))"
  "property (diff_json d) ''calculated_added'' = Some (strings_json (calculated_added d))"
  "property (diff_json d) ''calculated_removed'' = Some (strings_json (calculated_removed d))"
  "property (diff_json d) ''calculated_changed'' = Some (JArr (map change_json (calculated_changed d)))"
  "property (diff_json d) ''langextract_changed'' = Some (JBool (langextract_changed d))"
  by (simp_all add: property_def diff_json_def obj_get_def)

lemma diff_lines_shown:
  "diff_lines (diff_json d) =
     Some (if diff_shown d = [] then [''Current draft matches the selected saved version.''] else diff_shown d)"
proof -
  have "templateVersionDiffHasChanges (diff_json d) \<longleftrightarrow> diff_shown d \<noteq> []"
    by (auto simp: templateVersionDiffHasChanges_def diff_json_property has_items_def strings_json_def json_truthy_def
        diff_shown_def names_shown_def changes_shown_def)
  then show ?thesis
    by (simp add: diff_lines_def diff_json_property names_line_strings change_lines_json json_truthy_def diff_shown_def)
qed

text \<open>
  C28: A diff of the documented shape is recognised and rendered without error: every difference it holds is
  listed, and the page says the draft matches exactly when it holds none.
\<close>

theorem documented_diff_is_rendered:
  "isTemplateVersionDiff (diff_json d)
   \<and> diff_lines (diff_json d) =
      Some (if diff_shown d = [] then [''Current draft matches the selected saved version.''] else diff_shown d)"
  by (simp add: diff_lines_shown isTemplateVersionDiff_def diff_json_property is_array_def strings_json_def)

text \<open>
  The check \<open>isTemplateVersionDiff\<close> does not protect the rendering: a reply that passes it, reports a
  change and lacks one of the five lists it does not look at makes the page throw.
\<close>

theorem recognised_diff_can_crash:
  assumes "isTemplateVersionDiff d" "templateVersionDiffHasChanges d"
    and "\<exists>k \<in> {''extracted_changed'', ''calculated_added'', ''calculated_removed'', ''calculated_changed''}. property d k = None"
  shows "selectedSavedVersion c \<noteq> None \<longrightarrow> versionDiff s = Some d \<longrightarrow> version_diff_panel c s = Some None"
proof (intro impI)
  assume v: "selectedSavedVersion c \<noteq> None" "versionDiff s = Some d"
  from assms(3) have "diff_lines d = None"
    using assms(2) by (auto simp: diff_lines_def names_line_def change_lines_def length_truthy_def split: option.splits)
  with v show "version_diff_panel c s = Some None" by (auto simp: version_diff_panel_def)
qed

lemma recognised_diff_can_crash_witness:
  "version_diff_panel saved_app (initial_schema_page\<lparr>versionDiff :=
     Some (JObj [(''extracted_added'', JArr [JStr ''total'']), (''extracted_removed'', JArr [])])\<rparr>) = Some None"
  using recognised_diff_can_crash [of "JObj [(''extracted_added'', JArr [JStr ''total'']), (''extracted_removed'', JArr [])]" saved_app
      "initial_schema_page\<lparr>versionDiff :=
         Some (JObj [(''extracted_added'', JArr [JStr ''total'']), (''extracted_removed'', JArr [])])\<rparr>"]
  by (simp add: isTemplateVersionDiff_def templateVersionDiffHasChanges_def has_items_def is_array_def property_def
      obj_get_def saved_app_version)

section \<open>The dry run\<close>

inductive schema_event :: "schema_page \<Rightarrow> (schema_page, unit) proc \<Rightarrow> bool" where
  dry_run: "schema_event s (handleSchemaDryRun c p)"
| diff: "schema_event s (effect_version_diff c p)"

inductive schema_change :: "schema_page \<Rightarrow> schema_page \<Rightarrow> bool" where
  sample: "schema_change s (s\<lparr>dryRunSampleText := t\<rparr>)"

interpretation dry_run_busy: owned_flag "\<lambda>s. \<not> dryRunBusy s" "\<lambda>s. s = initial_schema_page" schema_event schema_change
proof
  show "(\<forall>h s. wp any_state any_request (\<lambda>h s r. \<not> dryRunBusy s) p h s)
      \<or> all_updates (\<lambda>u. \<forall>s. (\<not> dryRunBusy (u s)) = (\<not> dryRunBusy s)) p" if "schema_event s p" for s p
    using that
  proof (cases rule: schema_event.cases)
    case dry_run
    then show ?thesis by (auto simp: handleSchemaDryRun_def intro!: wp_finally_all)
  next
    case diff
    then have "all_updates (\<lambda>u. \<forall>s. (\<not> dryRunBusy (u s)) = (\<not> dryRunBusy s)) p"
      by (auto simp: effect_version_diff_def load_version_diff_def readJson_def await_def if_diff_current_def
          split: option.split sum.split)
    then show ?thesis ..
  qed
qed (auto simp: initial_schema_page_def elim: schema_change.cases)

text \<open>
  A dry run is answered on every branch: it posts the draft with the sample text of the page, its
  result is always shown, an error as a failed result, and it passes only if the server says so; and
  in any interleaving with the diffs and the edits the button is enabled again once nothing is pending.
\<close>

theorem dry_run_always_answers:
  "run env (handleSchemaDryRun c p) [] s =
     (let q = [Http POST ''/templates/dry-run'' (DryRunBody (draftTemplateDefinition c) (dryRunSampleText p))];
          result = (case settle as_dry_run (reply_at (env [] q) 0) of Inl e \<Rightarrow> failed_dry_run e | Inr r \<Rightarrow> r)
      in ([(q, env [] q)], s\<lparr>dryRunResult := Some result, dryRunBusy := False\<rparr>, Inr ()))
   \<and> (reach (\<lambda>s. s = initial_schema_page) schema_event schema_change (t, []) \<longrightarrow> \<not> dryRunBusy t)"
proof
  show "run env (handleSchemaDryRun c p) [] s =
     (let q = [Http POST ''/templates/dry-run'' (DryRunBody (draftTemplateDefinition c) (dryRunSampleText p))];
          result = (case settle as_dry_run (reply_at (env [] q) 0) of Inl e \<Rightarrow> failed_dry_run e | Inr r \<Rightarrow> r)
      in ([(q, env [] q)], s\<lparr>dryRunResult := Some result, dryRunBusy := False\<rparr>, Inr ()))"
    by (simp add: handleSchemaDryRun_def readJson_def await_def Let_def split: sum.split)
  show "reach (\<lambda>s. s = initial_schema_page) schema_event schema_change (t, []) \<longrightarrow> \<not> dryRunBusy t"
    using dry_run_busy.quiescent_idle by blast
qed

lemma dry_run_always_answers_witness:
  "\<not> dryRunBusy initial_schema_page"
  by (rule dry_run_always_answers [THEN conjunct2, rule_format, OF reach.init]) simp

section \<open>The local-only switch\<close>

text \<open>
  The switch ``Local-only processing'' changes what the page says about the boundary, and nothing else: the
  schema that is posted, its permission to process documents externally included, is the same.
\<close>

theorem local_only_switch_has_no_effect:
  "provider_rule (c\<lparr>draftTemplate := edit_schema ToggleLocalOnly (draftTemplate c)\<rparr>) \<noteq> provider_rule c
   \<and> buildTemplatePayload (edit_schema ToggleLocalOnly (draftTemplate c)) p base = buildTemplatePayload (draftTemplate c) p base
   \<and> draftTemplateDefinition (c\<lparr>draftTemplate := edit_schema ToggleLocalOnly (draftTemplate c)\<rparr>) = draftTemplateDefinition c"
proof -
  have same: "buildTemplatePayload (d\<lparr>dt_local_only := b\<rparr>) p base = buildTemplatePayload d p base" for d b p base
    by (simp add: buildTemplatePayload_def Let_def)
  have current: "currentTemplateDefinition (c\<lparr>draftTemplate := d\<rparr>) = currentTemplateDefinition c" for d
    by (simp add: currentTemplateDefinition_def find_version_def)
  show ?thesis
    by (simp add: same current provider_rule_def schema_definition_def draftTemplateDefinition_def
        buildDraftTemplateDefinitionSafe_def)
qed

end
