(* ===== verification/SettingsPage.thy ===== *)
theory SettingsPage
  imports AppHandlers
begin

text \<open>
  \<open>SettingsPage\<close>: the values it derives, its two pieces of local state, the summaries, the provider presets,
  the form of a custom provider and the saved profiles, each with the handlers its buttons call. The
  theorems relate what the page says of a provider to what the handlers do with it.
\<close>

section \<open>Derived values and local state\<close>

text \<open>The draft as \<open>JSON.stringify\<close> sees it: \<open>api_key_env_var\<close> follows the base URL.\<close>

definition form_json :: "custom_draft \<Rightarrow> json" where
  "form_json d = JObj
     [(''label'', JStr (cd_label d)), (''mode'', JStr (mode_name (cd_mode d))),
      (''api_style'', JStr (custom_style_name (cd_api_style d))),
      (''provider_type'', JStr (cd_provider_type d)), (''base_url'', JStr (cd_base_url d)),
      (''api_key_env_var'', JStr (cd_api_key_env_var d)),
      (''model'', JStr (cd_model d)), (''deployment'', JStr (cd_deployment d)),
      (''api_version'', JStr (cd_api_version d)),
      (''allow_external_processing'', JBool (cd_allow_external_processing d)),
      (''supports_json_mode'', JBool (cd_supports_json_mode d)),
      (''temperature'', JStr (cd_temperature d)), (''max_tokens'', JStr (cd_max_tokens d)),
      (''timeout_seconds'', JStr (cd_timeout_seconds d)), (''retry_count'', JStr (cd_retry_count d)),
      (''chunk_size'', JStr (cd_chunk_size d))]"

definition customDraftChanged :: "custom_draft \<Rightarrow> bool" where
  "customDraftChanged d \<longleftrightarrow> stringify (form_json d) \<noteq> stringify (form_json DEFAULT_CUSTOM_PROVIDER_DRAFT)"

definition customProviderIsActive :: "app_state \<Rightarrow> bool" where
  "customProviderIsActive c =
     (case provider c of
        None \<Rightarrow> False
      | Some p \<Rightarrow> \<not> list_ex (\<lambda>i. provider_type (entry_settings i) = provider_type p \<and>
            model (entry_settings i) = model p) (providerCatalog c))"

definition probe_of :: "app_state \<Rightarrow> string \<Rightarrow> provider_probe option" where
  "probe_of c key = obj_get (probeResults c) key"

definition details_wanted :: "app_state \<Rightarrow> bool" where
  "details_wanted c \<longleftrightarrow> customProviderIsActive c \<or> customDraftChanged (customProviderDraft c)
     \<or> str_or (selectedCustomProfileId c) '''' \<noteq> [] \<or> probe_of c CUSTOM_PROVIDER_KEY \<noteq> None"

record settings_page =
  showCustomProviderDetails :: bool
  expandedProviderKey :: "string option"

definition initial_settings_page :: "app_state \<Rightarrow> settings_page" where
  "initial_settings_page c = \<lparr>showCustomProviderDetails = details_wanted c, expandedProviderKey = None\<rparr>"

definition effect_show_details :: "app_state \<Rightarrow> settings_page \<Rightarrow> settings_page" where
  "effect_show_details c s = (if details_wanted c then s\<lparr>showCustomProviderDetails := True\<rparr> else s)"

definition toggle_details :: "settings_page \<Rightarrow> settings_page" where
  "toggle_details s = s\<lparr>showCustomProviderDetails := \<not> showCustomProviderDetails s\<rparr>"

definition toggle_provider :: "string \<Rightarrow> settings_page \<Rightarrow> settings_page" where
  "toggle_provider key s =
     s\<lparr>expandedProviderKey := (if expandedProviderKey s = Some key then None else Some key)\<rparr>"

section \<open>Summaries\<close>

definition current_defaults :: "app_state \<Rightarrow> (string \<times> string) list" where
  "current_defaults c =
     [(''Provider mode'', if map_option mode (provider c) = Some Cloud then ''Cloud-assisted'' else ''Local''),
      (''Default provider'', coalesce (or_else (Option.bind (provider c) provider_label) (map_option provider_type (provider c)))
         ''Not configured''),
      (''Default model'', coalesce (map_option model (provider c)) ''Not configured''),
      (''Profile reverify threshold'', num_to_string (probe_max_age c) @ '' hours''),
      (''Privacy mode'', if map_option allow_external_processing (provider c) = Some True then ''Cloud allowed''
         else ''Local-only by default'')]"

definition enabled_text :: "bool option \<Rightarrow> string" where
  "enabled_text b = (if b = Some True then ''Enabled'' else ''Disabled'')"

definition parser_summary :: "(string \<Rightarrow> jsnum) \<Rightarrow> (jsnum \<Rightarrow> string) \<Rightarrow> app_state \<Rightarrow> (string \<times> string) list" where
  "parser_summary parse_date show_date c =
     (let st = parserStatus c in
     [(''Parser runtime'', if map_option docling_enabled st = Some True then ''Docling enabled'' else ''Disabled''),
      (''Worker state'', coalesce (map_option parser_state st) ''Unknown''),
      (''PDF OCR retry'', enabled_text (map_option docling_pdf_ocr_retry st)),
      (''Image OCR'', enabled_text (map_option docling_image_ocr st)),
      (''Prewarm'', str_or (Option.bind st prewarm_status)
         (if map_option docling_prewarm st = Some True then ''Configured'' else ''Disabled'')),
      (''Last worker update'', formatTimestamp parse_date show_date (Option.bind st parser_timestamp)),
      (''Supported document classes'', str_or (map_option (\<lambda>p. js_join ('' '' @ bullet @ '' '') (supported_classes p)) st)
         (js_join ('' '' @ bullet @ '' '') [''PDF'', ''DOCX'', ''PPTX'', ''HTML'', ''Images'', ''CSV'', ''Excel'', ''Plain text'', ''Markdown''])),
      (''Docling-backed file extensions'', str_or (map_option (\<lambda>p. js_join '' '' (supported_extensions p)) st)
         ''.pdf .docx .pptx .html .htm .png .jpg .jpeg .tiff'')])"

section \<open>Provider presets\<close>

definition buildProviderPayload :: "catalog_entry \<Rightarrow> provider_settings" where
  "buildProviderPayload i = entry_settings i"

definition preset_selected :: "app_state \<Rightarrow> catalog_entry \<Rightarrow> bool" where
  "preset_selected c i \<longleftrightarrow>
     map_option provider_type (provider c) = Some (provider_type (entry_settings i)) \<and>
     map_option model (provider c) = Some (model (entry_settings i))"

definition health_of :: "app_state \<Rightarrow> catalog_entry \<Rightarrow> provider_health option" where
  "health_of c i = obj_get (providerHealth c) (entry_key i)"

definition preset_status :: "app_state \<Rightarrow> catalog_entry \<Rightarrow> string" where
  "preset_status c i =
     (if preset_selected c i then ''Default''
      else if map_option health_ready (health_of c i) = Some True then ''Ready''
      else if map_option health_status (health_of c i) = Some ''probe_required'' then ''Probe required''
      else if entry_recommended i then ''Recommended''
      else if entry_enabled i then ''Available'' else ''Disabled'')"

definition probe_text :: "provider_probe option \<Rightarrow> string" where
  "probe_text p =
     (case p of
        None \<Rightarrow> ''No live probe run''
      | Some r \<Rightarrow> (if reachable r then ''Reachable'' else ''Not reachable'')
          @ (case probe_status_code r of
               Some n \<Rightarrow> if num_truthy n then '' (HTTP '' @ num_to_string n @ '')'' else ''''
             | None \<Rightarrow> '''')
          @ '': '' @ probe_detail r)"

definition preset_details :: "app_state \<Rightarrow> catalog_entry \<Rightarrow> (string \<times> string) list" where
  "preset_details c i =
     [(''Base URL'', coalesce (entry_base_url i) ''No network endpoint'')]
     @ (if str_or (deployment (entry_settings i)) '''' \<noteq> [] then [(''Deployment'', str_or (deployment (entry_settings i)) '''')] else [])
     @ [(''API key'', if requires_api_key (entry_capabilities i) then ''Via '' @ coalesce (entry_api_key_env_var i) ''null'' else ''Not required''),
        (''Readiness'', case health_of c i of
           Some h \<Rightarrow> js_join ('' '' @ bullet @ '' '') (health_checks h) | None \<Rightarrow> ''No health data loaded''),
        (''Latest probe'', probe_text (probe_of c (entry_key i)))]"

text \<open>What a button of the page calls, and whether it is enabled.\<close>

datatype settings_action =
    SetDefault catalog_entry
  | ProbePreset catalog_entry
  | SaveProfile
  | SetCustomDefault
  | ProbeCustom
  | ReverifyProfile custom_profile
  | ActivateProfile custom_profile
  | DeleteProfile custom_profile

definition idle_for :: "app_state \<Rightarrow> string \<Rightarrow> bool" where
  "idle_for c busy \<longleftrightarrow> busyAction c \<noteq> Some busy"

definition preset_actions :: "app_state \<Rightarrow> catalog_entry \<Rightarrow> (settings_action \<times> bool) list" where
  "preset_actions c i =
     [(SetDefault i, idle_for c ''save-provider''), (ProbePreset i, idle_for c (''probe-'' @ entry_key i))]"

definition form_actions :: "app_state \<Rightarrow> (settings_action \<times> bool) list" where
  "form_actions c =
     [(SaveProfile, idle_for c ''save-custom-profile''), (SetCustomDefault, idle_for c ''save-provider''),
      (ProbeCustom, idle_for c (''probe-'' @ CUSTOM_PROVIDER_KEY))]"

definition profile_actions :: "app_state \<Rightarrow> custom_profile \<Rightarrow> (settings_action \<times> bool) list" where
  "profile_actions c p =
     [(ReverifyProfile p, idle_for c (''reverify-'' @ profile_id p)),
      (ActivateProfile p, idle_for c (''activate-'' @ profile_id p)),
      (DeleteProfile p, idle_for c (''delete-'' @ profile_id p))]"

definition settings_actions :: "app_state \<Rightarrow> settings_page \<Rightarrow> (settings_action \<times> bool) list" where
  "settings_actions c s =
     concat (map (preset_actions c) (providerCatalog c))
     @ (if showCustomProviderDetails s
        then form_actions c @ concat (map (profile_actions c) (customProfiles c)) else [])"

primrec settings_handler :: "host \<Rightarrow> app_state \<Rightarrow> settings_action \<Rightarrow> (app_state, unit) proc" where
  "settings_handler w c (SetDefault i) = handleSetProvider (buildProviderPayload i)"
| "settings_handler w c (ProbePreset i) = handleProbeProvider i"
| "settings_handler w c SaveProfile = handleSaveCustomProfile c"
| "settings_handler w c SetCustomDefault = handleSetCustomProvider c"
| "settings_handler w c ProbeCustom = handleProbeCustomProvider c"
| "settings_handler w c (ReverifyProfile p) = handleReverifyCustomProfile c p"
| "settings_handler w c (ActivateProfile p) = handleActivateCustomProfile w c p"
| "settings_handler w c (DeleteProfile p) = handleDeleteCustomProfile c p"

section \<open>The form and the saved profiles\<close>

datatype form_edit =
    EditLabel string | EditProviderType string | EditMode provider_mode | EditApiStyle custom_api_style
  | EditBaseUrl string | EditModel string | EditKeyVariable string | EditDeployment string | EditApiVersion string
  | EditTemperature string | EditMaxTokens string | EditTimeout string | EditRetries string | EditChunkSize string
  | ToggleExternal | ToggleJsonMode

primrec edit_form :: "form_edit \<Rightarrow> custom_draft \<Rightarrow> custom_draft" where
  "edit_form (EditLabel v) d = d\<lparr>cd_label := v\<rparr>"
| "edit_form (EditProviderType v) d = d\<lparr>cd_provider_type := v\<rparr>"
| "edit_form (EditMode v) d = d\<lparr>cd_mode := v, cd_allow_external_processing := (v = Cloud)\<rparr>"
| "edit_form (EditApiStyle v) d = d\<lparr>cd_api_style := v\<rparr>"
| "edit_form (EditBaseUrl v) d = d\<lparr>cd_base_url := v\<rparr>"
| "edit_form (EditModel v) d = d\<lparr>cd_model := v\<rparr>"
| "edit_form (EditKeyVariable v) d = d\<lparr>cd_api_key_env_var := v\<rparr>"
| "edit_form (EditDeployment v) d = d\<lparr>cd_deployment := v\<rparr>"
| "edit_form (EditApiVersion v) d = d\<lparr>cd_api_version := v\<rparr>"
| "edit_form (EditTemperature v) d = d\<lparr>cd_temperature := v\<rparr>"
| "edit_form (EditMaxTokens v) d = d\<lparr>cd_max_tokens := v\<rparr>"
| "edit_form (EditTimeout v) d = d\<lparr>cd_timeout_seconds := v\<rparr>"
| "edit_form (EditRetries v) d = d\<lparr>cd_retry_count := v\<rparr>"
| "edit_form (EditChunkSize v) d = d\<lparr>cd_chunk_size := v\<rparr>"
| "edit_form ToggleExternal d = d\<lparr>cd_allow_external_processing := \<not> cd_allow_external_processing d\<rparr>"
| "edit_form ToggleJsonMode d = d\<lparr>cd_supports_json_mode := \<not> cd_supports_json_mode d\<rparr>"

definition azure_fields_shown :: "custom_draft \<Rightarrow> bool" where
  "azure_fields_shown d \<longleftrightarrow> cd_api_style d = CustomAzureOpenai"

definition draft_probe_text :: "app_state \<Rightarrow> string" where
  "draft_probe_text c =
     (case probe_of c CUSTOM_PROVIDER_KEY of
        Some r \<Rightarrow> (if reachable r then ''Reachable'' else ''Not reachable'') @ '': '' @ probe_detail r
      | None \<Rightarrow> ''No live probe run'')"

definition save_profile_label :: "app_state \<Rightarrow> string" where
  "save_profile_label c =
     (if busyAction c = Some ''save-custom-profile'' then ''Saving profile...''
      else if str_or (selectedCustomProfileId c) '''' \<noteq> [] then ''Update saved profile'' else ''Save profile'')"

definition profile_badge :: "host \<Rightarrow> app_state \<Rightarrow> custom_profile \<Rightarrow> string" where
  "profile_badge w c p =
     (if selectedCustomProfileId c = Some (profile_id p) then ''Loaded''
      else if str_or (last_probe_at p) '''' \<noteq> [] \<and> \<not> profile_stale w c p then ''Verified''
      else if str_or (last_probe_at p) '''' \<noteq> [] then ''Stale'' else ''Saved'')"

definition profile_details :: "host \<Rightarrow> (jsnum \<Rightarrow> string) \<Rightarrow> app_state \<Rightarrow> custom_profile \<Rightarrow> (string \<times> string) list" where
  "profile_details w show_date c p =
     [(''Provider type'', provider_type (profile_settings p)), (''Model'', model (profile_settings p)),
      (''Updated'', show_date (date_parse w (profile_updated_at p))),
      (''Last verified'', if str_or (last_probe_at p) '''' \<noteq> []
         then formatTimestamp (date_parse w) show_date (last_probe_at p)
           @ (if profile_stale w c p then '' ('' @ num_to_string (probe_max_age c) @ ''h threshold exceeded)'' else '''')
         else ''No successful probe recorded''),
      (''Probe status'', if str_or (last_probe_status p) '''' \<noteq> [] \<and> str_or (last_probe_detail p) '''' \<noteq> []
         then str_or (last_probe_status p) '''' @ '': '' @ str_or (last_probe_detail p) ''''
         else ''No successful probe recorded'')]"

section \<open>The edited badge\<close>

lemma form_json_ok: "json_ok (form_json d)"
proof -
  have "obj_ok (case form_json d of JObj ps \<Rightarrow> ps | _ \<Rightarrow> [])"
    using draft_keys_plain by (intro obj_ok_plain) (simp_all add: form_json_def)
  then show ?thesis by (simp add: form_json_def)
qed

lemma mode_name_inject: "mode_name a = mode_name b \<longleftrightarrow> a = b"
  by (cases a; cases b) auto

lemma custom_style_name_inject: "custom_style_name a = custom_style_name b \<longleftrightarrow> a = b"
  by (cases a; cases b) (auto simp: custom_style_name_def)

text \<open>
  The badge ``Draft edited'' is exact: the comparison of the two serialisations is an equality of all
  sixteen fields of the form, the name of the key variable included.
\<close>

theorem draft_edited_iff_changed:
  "customDraftChanged d \<longleftrightarrow> d \<noteq> DEFAULT_CUSTOM_PROVIDER_DRAFT"
proof -
  have "form_json d = form_json e \<longleftrightarrow> d = e" for e :: custom_draft
    by (cases d; cases e) (auto simp: form_json_def mode_name_inject custom_style_name_inject)
  then show ?thesis
    unfolding customDraftChanged_def compact.encode_injective [OF form_json_ok form_json_ok] by simp
qed

section \<open>Badges and handlers agree\<close>

text \<open>
  The badge of a saved profile tells what activating it will do: a stale profile or one that was never
  verified is refused without a request, a verified one is probed again first, with its settings.
\<close>

theorem profile_badge_predicts_activation:
  "(profile_badge w c p \<in> {''Stale'', ''Saved''} \<longrightarrow>
      (\<exists>m. settings_handler w c (ActivateProfile p) = refuse m))
   \<and> (profile_badge w c p = ''Verified'' \<longrightarrow>
      (\<exists>k. snd (advance (settings_handler w c (ActivateProfile p)) s) = Request [probe_request (profile_settings p)] k))"
proof (intro conjI impI)
  assume "profile_badge w c p \<in> {''Stale'', ''Saved''}"
  moreover have "profile_stale w c p" if "str_or (last_probe_at p) '''' = []"
    using that by (auto simp: profile_stale_def customProviderProfileProbeIsStale_def str_or_def split: option.splits if_splits)
  ultimately have "profile_stale w c p" by (auto simp: profile_badge_def split: if_splits)
  then show "\<exists>m. settings_handler w c (ActivateProfile p) = refuse m" by (auto simp: handleActivateCustomProfile_def)
next
  assume "profile_badge w c p = ''Verified''"
  then have "\<not> profile_stale w c p" by (auto simp: profile_badge_def split: if_splits)
  then show "\<exists>k. snd (advance (settings_handler w c (ActivateProfile p)) s) = Request [probe_request (profile_settings p)] k"
    by (simp add: handleActivateCustomProfile_def ensureProviderProbeReachable_def runProviderProbe_def await_def)
qed

lemma profile_badge_predicts_activation_witness:
  "profile_badge demo_host start_app sample_profile = ''Verified'' \<and>
   (\<exists>k. snd (advance (settings_handler demo_host start_app (ActivateProfile sample_profile)) start_app)
        = Request [probe_request (profile_settings sample_profile)] k)"
proof -
  have v: "profile_badge demo_host start_app sample_profile = ''Verified''" by code_simp
  from profile_badge_predicts_activation [THEN conjunct2, rule_format, OF v] v show ?thesis by blast
qed

text \<open>
  A preset that the page marks as disabled can be made the default provider: its button is enabled, and
  the handler stores the preset without a probe, unlike the handlers of custom providers. Until the next
  refresh a run is queued without it, since the settings stored are not marked as the persisted default.
\<close>

theorem disabled_preset_becomes_default:
  assumes "i \<in> set (providerCatalog c)" "preset_status c i = ''Disabled''" "busyAction c = None"
    and "settle as_any (reply_at (env [] [Http PUT ''/settings/provider'' (SettingsBody (entry_settings i))]) 0) = Inr ()"
    and "is_persisted_default (entry_settings i) \<noteq> Some True"
  shows "\<not> entry_enabled i \<and> (SetDefault i, True) \<in> set (settings_actions c page)
    \<and> fst (run env (settings_handler w c (SetDefault i)) [] s) =
        [([Http PUT ''/settings/provider'' (SettingsBody (entry_settings i))],
          env [] [Http PUT ''/settings/provider'' (SettingsBody (entry_settings i))])]
    \<and> preset_status (final_state env (settings_handler w c (SetDefault i)) s) i = ''Default''
    \<and> default_provider (final_state env (settings_handler w c (SetDefault i)) s) = None"
proof -
  have "\<not> entry_enabled i" using assms(2) by (simp add: preset_status_def split: if_splits)
  moreover have "(SetDefault i, True) \<in> set (settings_actions c page)"
    using assms(1, 3) by (auto simp: settings_actions_def preset_actions_def idle_for_def)
  moreover have run: "run env (settings_handler w c (SetDefault i)) [] s =
      ([([Http PUT ''/settings/provider'' (SettingsBody (entry_settings i))],
          env [] [Http PUT ''/settings/provider'' (SettingsBody (entry_settings i))])],
       set_busy None (show_banner ToneSuccess (''Default provider set to '' @ provider_type (entry_settings i) @ '' ('' @
         model (entry_settings i) @ '').'') ((set_busy (Some ''save-provider'') s)\<lparr>provider := Some (entry_settings i)\<rparr>)), Inr ())"
    using assms(4) by (simp add: handleSetProvider_def buildProviderPayload_def handled_def readJson_def await_def succeed_def)
  ultimately show ?thesis
    using assms(5) by (simp add: final_state_def preset_status_def preset_selected_def default_provider_def set_busy_def
        show_banner_def)
qed

definition sample_preset :: catalog_entry where
  "sample_preset =
     \<lparr>entry_key = ''off'', entry_label = ''Off'', entry_description = '''', entry_mode = Local, entry_provider_type = ''mock'',
      entry_api_style = MockStyle, entry_base_url = None, entry_model = ''m'', entry_enabled = False,
      entry_recommended = False, entry_api_key_env_var = None, entry_deployment = None, entry_tags = [],
      entry_capabilities = \<lparr>supports_chat_completions = True, capable_json_mode = True, supports_streaming = False,
        supports_remote_processing = False, requires_api_key = False, supports_local_runtime = True\<rparr>,
      entry_settings = sample_provider\<rparr>"

lemma disabled_preset_becomes_default_witness:
  "preset_status (final_state (\<lambda>h qs. [Response True '''' (Some VUnit)])
     (settings_handler demo_host (start_app\<lparr>providerCatalog := [sample_preset]\<rparr>) (SetDefault sample_preset))
     (start_app\<lparr>providerCatalog := [sample_preset]\<rparr>)) sample_preset = ''Default''"
proof -
  let ?c = "start_app\<lparr>providerCatalog := [sample_preset]\<rparr>"
  have "preset_status ?c sample_preset = ''Disabled''" "busyAction ?c = None" "sample_preset \<in> set (providerCatalog ?c)"
    "is_persisted_default (entry_settings sample_preset) \<noteq> Some True"
    by (simp_all add: preset_status_def preset_selected_def health_of_def obj_get_def start_app_def initial_app_def
        sample_preset_def sample_provider_def)
  from disabled_preset_becomes_default [OF this(3, 1, 2) _ this(4), of "\<lambda>h qs. [Response True '''' (Some VUnit)]"]
  show ?thesis by (simp add: settle_def reply_at_def as_any_def)
qed

end
