(* ===== verification/Shell.thy ===== *)
theory Shell
  imports AppHandlers
begin

text \<open>
  What surrounds the pages: \<open>AppSidebar\<close>, \<open>TopBar\<close>, the two desktop panels and the notices that the JSX of \<open>App\<close>
  renders above the page, each as a function of the state \<open>c\<close> of \<open>App\<close>, with the actions it offers. The
  theorems show that what is announced agrees with the state, and that a dismissal lasts.
\<close>

section \<open>Sidebar and top bar\<close>

record nav_button =
  button_page :: page_id
  button_label :: string
  button_active :: bool
  button_count :: "nat option"

definition nav_button_of :: "app_state \<Rightarrow> bool \<Rightarrow> nav_item \<Rightarrow> nav_button" where
  "nav_button_of c counts i =
     \<lparr>button_page = nav_id i, button_label = nav_label i, button_active = (activePage c = nav_id i),
      button_count = (if counts \<and> nav_id i = PageExtractions \<and> reviewCount c > 0 then Some (reviewCount c) else None)\<rparr>"

definition sidebar_buttons :: "app_state \<Rightarrow> nav_button list" where
  "sidebar_buttons c =
     map (nav_button_of c True) primaryNavigation @ map (nav_button_of c False) secondaryNavigation"

definition sidebar_status :: "app_state \<Rightarrow> string \<times> string \<times> string" where
  "sidebar_status c =
     (if map_option mode (provider c) = Some Cloud then ''Cloud Mode'' else ''Local Mode'',
      coalesce (map_option provider_type (provider c)) ''mock'' @ '' ('' @
        coalesce (map_option model (provider c)) ''qwen3.5:27b'' @ '')'',
      if reviewCount c \<noteq> 0 then num_to_string (num_of_nat (reviewCount c)) @ '' fields waiting on review''
      else ''No review backlog right now'')"

primrec page_subtitle :: "page_id \<Rightarrow> string" where
  "page_subtitle PageExtractions =
     ''Upload a document, run extraction, review only exceptions, and export from one place.''"
| "page_subtitle PageTemplates = ''Schemas stay reusable, but they should not interrupt the extraction job.''"
| "page_subtitle PageSettings = ''Choose the provider and runtime defaults without polluting the extraction path.''"
| "page_subtitle PageAudit = ''Check history when you need it, not when you are trying to extract.''"
| "page_subtitle PageAdmin =
     ''Track per-tenant usage, suspend tenants when needed, and keep hosted operations contained.''"
| "page_subtitle PageHelp = ''Use setup and workflow guidance only when the next step is unclear.''"

definition top_bar :: "app_state \<Rightarrow> string \<times> string" where
  "top_bar c = (pageLabels (activePage c), page_subtitle (activePage c))"

section \<open>The desktop panels\<close>

record check_item =
  check_label :: string
  check_complete :: bool
  check_detail :: string

definition backend_target :: "desktop_status \<Rightarrow> string" where
  "backend_target d = backend_host d @ '':'' @ num_to_string (backend_port d)"

definition runtime_checklist :: "desktop_status \<Rightarrow> check_item list" where
  "runtime_checklist d =
     [\<lparr>check_label = ''Desktop shell has a project root'', check_complete = (str_or (project_root d) '''' \<noteq> []),
       check_detail = coalesce (project_root d) ''The shell does not know where the backend project lives.''\<rparr>,
      \<lparr>check_label = ''Docker daemon is available'', check_complete = docker_available d,
       check_detail = (if docker_available d then ''Docker can manage backend and worker services.''
         else ''Start Docker Desktop before managing the local stack.'')\<rparr>,
      \<lparr>check_label = ''Docker Compose is available'', check_complete = compose_available d,
       check_detail = (if compose_available d then ''Compose commands can start backend and worker services.''
         else ''Install or enable Docker Compose for this machine.'')\<rparr>,
      \<lparr>check_label = ''Backend API is reachable'', check_complete = backend_reachable d,
       check_detail = (if backend_reachable d then ''Frontend can reach the local API on '' @ backend_target d @ ''.''
         else ''The API is not reachable on '' @ backend_target d @ ''. Start or restart the local stack.'')\<rparr>]"

datatype desktop_action =
    StartStack | RestartStack | StopStack | RefreshStatus | LoadLogs | OpenProjectRoot | OpenAppData
  | OpenSettings | DismissNotice

definition not_busy :: "app_state \<Rightarrow> string \<Rightarrow> bool" where
  "not_busy c b \<longleftrightarrow> busyAction c \<noteq> Some b"

text \<open>\<open>None\<close>: nothing is rendered.\<close>

definition desktop_setup_panel :: "app_state \<Rightarrow> (check_item list \<times> (desktop_action \<times> bool) list) option" where
  "desktop_setup_panel c =
     (case desktopStatus c of
        None \<Rightarrow> None
      | Some d \<Rightarrow> if \<not> tauri_mode d then None
          else Some (runtime_checklist d,
            [(StartStack, not_busy c ''desktop-start''), (RestartStack, not_busy c ''desktop-restart''),
             (StopStack, not_busy c ''desktop-stop''), (RefreshStatus, not_busy c ''desktop-refresh''),
             (LoadLogs, not_busy c ''desktop-logs''), (OpenProjectRoot, not_busy c ''desktop-open-root''),
             (OpenAppData, not_busy c ''desktop-open-data'')]))"

definition needs_attention :: "app_state \<Rightarrow> bool" where
  "needs_attention c \<longleftrightarrow> apiUnavailable c \<or> provider c = None"

definition notice_checklist :: "app_state \<Rightarrow> desktop_status \<Rightarrow> check_item list" where
  "notice_checklist c d =
     [\<lparr>check_label = ''Desktop runtime bundle'',
       check_complete = (runtime_source d = ''bundled_resources'' \<or> runtime_source d = ''repo_checkout''),
       check_detail = (if runtime_source d = ''bundled_resources'' then ''Bundled runtime is available.''
         else ''Repo-backed desktop runtime is connected.'')\<rparr>,
      \<lparr>check_label = ''Docker Desktop'', check_complete = docker_available d,
       check_detail = (if docker_available d then ''Container runtime is ready.''
         else ''Start Docker Desktop before running the local stack.'')\<rparr>,
      \<lparr>check_label = ''Local backend'', check_complete = (backend_reachable d \<and> \<not> apiUnavailable c),
       check_detail = (if backend_reachable d \<and> \<not> apiUnavailable c
         then ''Frontend can reach '' @ backend_target d @ ''.''
         else ''Backend is not yet reachable on '' @ backend_target d @ ''.'')\<rparr>,
      \<lparr>check_label = ''Default provider'', check_complete = (provider c \<noteq> None),
       check_detail = (case provider c of
           Some p \<Rightarrow> provider_type p @ '' ('' @ model p @ '') is ready for extraction.''
         | None \<Rightarrow> ''Pick a default provider before you run a real extraction job.'')\<rparr>]"

definition desktop_notice :: "app_state \<Rightarrow> (check_item list \<times> (desktop_action \<times> bool) list) option" where
  "desktop_notice c =
     (case desktopStatus c of
        None \<Rightarrow> None
      | Some d \<Rightarrow>
          if \<not> tauri_mode d then None
          else if \<not> needs_attention c \<and> desktopOnboardingDismissed c then None
          else Some (notice_checklist c d,
            [(RefreshStatus, not_busy c ''desktop-refresh'')]
            @ (if apiUnavailable c \<or> \<not> backend_reachable d then [(StartStack, not_busy c ''desktop-start'')] else [])
            @ (if provider c = None then [(OpenSettings, True)] else [])
            @ (if \<not> needs_attention c then [(DismissNotice, True)] else [])))"

primrec desktop_handler :: "app_state \<Rightarrow> desktop_action \<Rightarrow> (app_state, unit) proc" where
  "desktop_handler c StartStack = handleDesktopStart c"
| "desktop_handler c RestartStack = handleDesktopRestart c"
| "desktop_handler c StopStack = handleDesktopStop c"
| "desktop_handler c RefreshStatus = refreshDesktopStatus c"
| "desktop_handler c LoadLogs = handleDesktopLoadLogs c"
| "desktop_handler c OpenProjectRoot = handleDesktopOpenProjectRoot c"
| "desktop_handler c OpenAppData = handleDesktopOpenAppDataDir c"
| "desktop_handler c OpenSettings = Update (\<lambda>s. s\<lparr>activePage := PageSettings\<rparr>) (Return ())"
| "desktop_handler c DismissNotice = Update dismissDesktopOnboarding (Return ())"

section \<open>The notices above the page\<close>

definition backend_notice :: "app_state \<Rightarrow> bool" where
  "backend_notice c \<longleftrightarrow> apiUnavailable c \<and> (case desktopStatus c of Some d \<Rightarrow> \<not> tauri_mode d | None \<Rightarrow> True)"

definition backend_notice_text :: "string \<Rightarrow> string" where
  "backend_notice_text base =
     ''Backend unavailable. The extraction workspace is open, but the local API is not reachable at '' @ base @
     ''. Start the backend stack or use npm run tauri:dev for the managed desktop flow.''"

definition banner_role :: "app_state \<Rightarrow> string option" where
  "banner_role c = map_option (\<lambda>b. if banner_tone b = ToneError then ''alert'' else ''status'') (banner c)"

definition live_state :: "app_state \<Rightarrow> string option" where
  "live_state c =
     (case devStatus c of
        Some d \<Rightarrow> if activePage c \<noteq> PageExtractions
          then Some (''Live state: '' @ num_to_string (status_documents d) @ '' documents, '' @ num_to_string (status_jobs d)
            @ '' jobs, '' @ num_to_string (status_results d) @ '' results.'')
          else None
      | None \<Rightarrow> None)"

section \<open>An unavailable API is announced once\<close>

text \<open>
  While the API is unavailable the page says so exactly once, with a way out: in the desktop shell by the
  setup notice, which then offers to start the stack, in a browser by the backend notice; the warning
  about the mock provider stays hidden meanwhile.
\<close>

theorem unavailable_api_is_announced:
  assumes "apiUnavailable c"
  shows "(backend_notice c \<longleftrightarrow> desktop_notice c = None) \<and> \<not> showMockProviderWarning c
    \<and> (\<forall>items actions. desktop_notice c = Some (items, actions) \<longrightarrow> (StartStack, not_busy c ''desktop-start'') \<in> set actions)"
  using assms by (auto simp: backend_notice_def desktop_notice_def needs_attention_def showMockProviderWarning_def
      split: option.splits)

lemma unavailable_api_is_announced_witness:
  "backend_notice (start_app\<lparr>apiUnavailable := True, desktopStatus := None\<rparr>)"
  using unavailable_api_is_announced [of "start_app\<lparr>apiUnavailable := True, desktopStatus := None\<rparr>"]
  by (simp add: desktop_notice_def)

section \<open>A dismissal lasts\<close>

text \<open>
  The setup notice can be dismissed only while nothing needs attention; it then disappears, in this
  session and, through the storage, in the next one, and comes back exactly when the API or the provider is lost.
\<close>

theorem dismissal_lasts:
  assumes "desktop_notice c = Some (items, actions)" "(DismissNotice, True) \<in> set actions" "localStorage c = Some st"
    and "localStorage next = localStorage (dismissDesktopOnboarding c)"
  shows "desktop_notice (dismissDesktopOnboarding c) = None
    \<and> (desktop_notice (effect_restore_flags next) \<noteq> None \<longleftrightarrow>
        needs_attention next \<and> (\<exists>d. desktopStatus next = Some d \<and> tauri_mode d))"
proof
  obtain d where d: "desktopStatus c = Some d" "tauri_mode d" "\<not> needs_attention c"
    using assms(1, 2) by (auto simp: desktop_notice_def split: option.splits if_splits)
  then show "desktop_notice (dismissDesktopOnboarding c) = None"
    by (simp add: desktop_notice_def dismissDesktopOnboarding_def needs_attention_def)
  have "desktopOnboardingDismissed (effect_restore_flags next)"
    using assms(3, 4) by (simp add: effect_restore_flags_def dismissDesktopOnboarding_def draft_slot.get_put)
  moreover have "needs_attention (effect_restore_flags next) = needs_attention next"
    "desktopStatus (effect_restore_flags next) = desktopStatus next"
    by (simp_all add: needs_attention_def effect_restore_flags_def)
  ultimately show "desktop_notice (effect_restore_flags next) \<noteq> None \<longleftrightarrow>
        needs_attention next \<and> (\<exists>d. desktopStatus next = Some d \<and> tauri_mode d)"
    by (auto simp: desktop_notice_def split: option.splits)
qed

definition sample_desktop :: desktop_status where
  "sample_desktop = \<lparr>tauri_mode = True, project_root = Some ''/app'', runtime_source = ''bundled_resources'', app_data_dir = None,
     docker_available = True, compose_available = True, backend_host = ''localhost'', backend_port = Num 8000,
     backend_reachable = True, desktop_message = ''''\<rparr>"

definition desktop_app :: app_state where
  "desktop_app = start_app\<lparr>desktopStatus := Some sample_desktop, provider := Some sample_provider, apiUnavailable := False,
     desktopOnboardingDismissed := False, localStorage := Some []\<rparr>"

lemma dismissal_lasts_witness:
  "desktop_notice (dismissDesktopOnboarding desktop_app) = None"
proof -
  have n: "desktop_notice desktop_app = Some (notice_checklist desktop_app sample_desktop,
      [(RefreshStatus, not_busy desktop_app ''desktop-refresh''), (DismissNotice, True)])"
    by (simp add: desktop_notice_def needs_attention_def desktop_app_def) (simp add: sample_desktop_def)
  have "localStorage desktop_app = Some []" by (simp add: desktop_app_def)
  from dismissal_lasts [OF n _ this refl] show ?thesis by simp
qed

section \<open>The review counter\<close>

lemma sum_map_filter_zero: "sum_list (map f (filter (\<lambda>x. f x > 0) xs)) = sum_list (map (f :: 'a \<Rightarrow> nat) xs)"
  by (induction xs) auto

lemma reviewCount_all: "reviewCount c = sum_list (map (\<lambda>e. length (fields_requiring_review (result_of (snd e)))) (resultsByJob c))"
  using sum_map_filter_zero [of "\<lambda>r. length (fields_requiring_review (result_of r))" "map snd (resultsByJob c)"]
  by (simp add: reviewCount_def reviewableResults_def comp_def)

definition backlog :: "app_state \<Rightarrow> job_record \<Rightarrow> nat" where
  "backlog c j = (case result_of_job c (job_id j) of None \<Rightarrow> 0 | Some r \<Rightarrow> length (fields_requiring_review (result_of r)))"

text \<open>
  The counter of the sidebar is the sum of the fields waiting in the listed jobs, when every loaded
  result is the result of a listed job; no result is counted twice.
\<close>

theorem review_count_sums_the_jobs:
  assumes "distinct (map job_id (jobs c))" "distinct (map fst (resultsByJob c))"
    and "fst ` set (resultsByJob c) \<subseteq> job_id ` set (jobs c)"
  shows "reviewCount c = sum_list (map (backlog c) (jobs c))"
proof -
  let ?w = "\<lambda>i. case map_of (resultsByJob c) i of None \<Rightarrow> 0 | Some r \<Rightarrow> length (fields_requiring_review (result_of r))"
  have "reviewCount c = sum_list (map (\<lambda>e. ?w (fst e)) (resultsByJob c))"
    unfolding reviewCount_all using assms(2) by (intro arg_cong [of _ _ sum_list] map_cong) auto
  also have "\<dots> = sum ?w (fst ` set (resultsByJob c))"
    using sum_list_distinct_conv_sum_set [OF assms(2), of ?w] by (simp add: comp_def)
  also have "\<dots> = sum ?w (job_id ` set (jobs c))"
    using assms(3) by (intro sum.mono_neutral_left) (force split: option.split dest: map_of_SomeD)+
  also have "\<dots> = sum_list (map (backlog c) (jobs c))"
    using sum_list_distinct_conv_sum_set [OF assms(1), of ?w]
    by (simp add: comp_def backlog_def [abs_def] result_of_job_def rec_get_def)
  finally show ?thesis .
qed

lemma review_count_sums_the_jobs_witness:
  "reviewCount (start_app\<lparr>jobs := [demo_job 1 ''completed''], resultsByJob := [(Num 1, demo_envelope [])]\<rparr>)
   = backlog (start_app\<lparr>jobs := [demo_job 1 ''completed''], resultsByJob := [(Num 1, demo_envelope [])]\<rparr>) (demo_job 1 ''completed'')"
  using review_count_sums_the_jobs [of "start_app\<lparr>jobs := [demo_job 1 ''completed''], resultsByJob := [(Num 1, demo_envelope [])]\<rparr>"]
  by (simp add: demo_job_def)

end
