(* ===== verification/ExamplesEditor.thy ===== *)
theory ExamplesEditor
  imports AppHandlers
begin

text \<open>
  \<open>LangExtractEditor.tsx\<close>: the edits of the examples of a schema draft, the enablement of the buttons, the focus
  that an edit asks for and the effect that moves it once the control is rendered, the suggestions from
  reviewed runs, and the panels beside the form. Indices of disabled buttons are never used, so the
  subtraction of an index is on natural numbers.
\<close>

section \<open>Updating in place\<close>

definition map_at :: "nat \<Rightarrow> ('a \<Rightarrow> 'a) \<Rightarrow> 'a list \<Rightarrow> 'a list" where
  "map_at i f xs = map (\<lambda>(j, x). if j = i then f x else x) (enumerate 0 xs)"

definition drop_at :: "nat \<Rightarrow> 'a list \<Rightarrow> 'a list" where
  "drop_at i xs = map snd (filter (\<lambda>(j, x). j \<noteq> i) (enumerate 0 xs))"

definition updateExample :: "nat \<Rightarrow> (draft_example \<Rightarrow> draft_example) \<Rightarrow> draft_template \<Rightarrow> draft_template" where
  "updateExample i u d = d\<lparr>dt_examples := map_at i u (dt_examples d)\<rparr>"

definition updateExtraction ::
    "nat \<Rightarrow> nat \<Rightarrow> (draft_extraction \<Rightarrow> draft_extraction) \<Rightarrow> draft_template \<Rightarrow> draft_template" where
  "updateExtraction i j u = updateExample i (\<lambda>e. e\<lparr>draft_extractions := map_at j u (draft_extractions e)\<rparr>)"

definition updateAttribute ::
    "nat \<Rightarrow> nat \<Rightarrow> nat \<Rightarrow> (draft_attribute \<Rightarrow> draft_attribute) \<Rightarrow> draft_template \<Rightarrow> draft_template" where
  "updateAttribute i j k u = updateExtraction i j (\<lambda>x. x\<lparr>draft_attributes := map_at k u (draft_attributes x)\<rparr>)"

section \<open>The actions of the form\<close>

datatype editor_action =
    SetPrompt string
  | AddExample
  | RemoveExample nat
  | SetSource nat string
  | AddExtraction nat
  | RemoveExtraction nat nat
  | SetField nat nat string
  | SetSpan nat nat string
  | AddAttribute nat nat
  | RemoveAttribute nat nat nat
  | SetAttributeName nat nat nat string
  | SetAttributeKind nat nat nat value_kind
  | SetAttributeValue nat nat nat string

primrec edit_draft :: "editor_action \<Rightarrow> draft_template \<Rightarrow> draft_template" where
  "edit_draft (SetPrompt v) d = d\<lparr>dt_prompt_description := v\<rparr>"
| "edit_draft AddExample d = d\<lparr>dt_examples := dt_examples d @ [createEmptyLangExtractExample]\<rparr>"
| "edit_draft (RemoveExample i) d = d\<lparr>dt_examples := drop_at i (dt_examples d)\<rparr>"
| "edit_draft (SetSource i v) d = updateExample i (\<lambda>e. e\<lparr>draft_text := v\<rparr>) d"
| "edit_draft (AddExtraction i) d =
     updateExample i (\<lambda>e. e\<lparr>draft_extractions := draft_extractions e @ [createEmptyLangExtractExtraction]\<rparr>) d"
| "edit_draft (RemoveExtraction i j) d =
     updateExample i (\<lambda>e. e\<lparr>draft_extractions := drop_at j (draft_extractions e)\<rparr>) d"
| "edit_draft (SetField i j v) d = updateExtraction i j (\<lambda>x. x\<lparr>draft_class := v\<rparr>) d"
| "edit_draft (SetSpan i j v) d = updateExtraction i j (\<lambda>x. x\<lparr>draft_span := v\<rparr>) d"
| "edit_draft (AddAttribute i j) d =
     updateExtraction i j (\<lambda>x. x\<lparr>draft_attributes := draft_attributes x @ [createEmptyLangExtractAttribute]\<rparr>) d"
| "edit_draft (RemoveAttribute i j k) d =
     updateExtraction i j (\<lambda>x. x\<lparr>draft_attributes := drop_at k (draft_attributes x)\<rparr>) d"
| "edit_draft (SetAttributeName i j k v) d = updateAttribute i j k (\<lambda>a. a\<lparr>attr_key := v\<rparr>) d"
| "edit_draft (SetAttributeKind i j k v) d = updateAttribute i j k (\<lambda>a. a\<lparr>attr_kind := v\<rparr>) d"
| "edit_draft (SetAttributeValue i j k v) d = updateAttribute i j k (\<lambda>a. a\<lparr>attr_value := v\<rparr>) d"

text \<open>What is rendered: a control exists for each element, and the last example or extraction cannot be removed.\<close>

definition has_example :: "draft_template \<Rightarrow> nat \<Rightarrow> bool" where
  "has_example d i \<longleftrightarrow> i < length (dt_examples d)"

definition extractions_at :: "draft_template \<Rightarrow> nat \<Rightarrow> draft_extraction list" where
  "extractions_at d i = (if has_example d i then draft_extractions (dt_examples d ! i) else [])"

definition attributes_at :: "draft_template \<Rightarrow> nat \<Rightarrow> nat \<Rightarrow> draft_attribute list" where
  "attributes_at d i j = (if j < length (extractions_at d i) then draft_attributes (extractions_at d i ! j) else [])"

primrec action_enabled :: "editor_action \<Rightarrow> draft_template \<Rightarrow> bool" where
  "action_enabled (SetPrompt v) d = True"
| "action_enabled AddExample d = True"
| "action_enabled (RemoveExample i) d = (has_example d i \<and> length (dt_examples d) \<noteq> 1)"
| "action_enabled (SetSource i v) d = has_example d i"
| "action_enabled (AddExtraction i) d = has_example d i"
| "action_enabled (RemoveExtraction i j) d = (j < length (extractions_at d i) \<and> length (extractions_at d i) \<noteq> 1)"
| "action_enabled (SetField i j v) d = (j < length (extractions_at d i))"
| "action_enabled (SetSpan i j v) d = (j < length (extractions_at d i))"
| "action_enabled (AddAttribute i j) d = (j < length (extractions_at d i))"
| "action_enabled (RemoveAttribute i j k) d = (k < length (attributes_at d i j))"
| "action_enabled (SetAttributeName i j k v) d = (k < length (attributes_at d i j))"
| "action_enabled (SetAttributeKind i j k v) d = (k < length (attributes_at d i j))"
| "action_enabled (SetAttributeValue i j k v) d = (k < length (attributes_at d i j))"

section \<open>Moving the focus\<close>

datatype focus_target =
    ExampleSource nat
  | ExtractionField nat nat
  | AttributeName nat nat nat
  | AddAttributeButton nat nat
  | FeedbackDismiss nat nat

primrec next_focus :: "editor_action \<Rightarrow> draft_template \<Rightarrow> focus_target option" where
  "next_focus (SetPrompt v) d = None"
| "next_focus AddExample d = Some (ExampleSource (length (dt_examples d)))"
| "next_focus (RemoveExample i) d =
     Some (ExampleSource (if i < length (dt_examples d) - 1 then i else i - 1))"
| "next_focus (SetSource i v) d = None"
| "next_focus (AddExtraction i) d = Some (ExtractionField i (length (extractions_at d i)))"
| "next_focus (RemoveExtraction i j) d =
     Some (ExtractionField i (if j < length (extractions_at d i) - 1 then j else j - 1))"
| "next_focus (SetField i j v) d = None"
| "next_focus (SetSpan i j v) d = None"
| "next_focus (AddAttribute i j) d = Some (AttributeName i j (length (attributes_at d i j)))"
| "next_focus (RemoveAttribute i j k) d =
     Some (if length (attributes_at d i j) > 1
           then AttributeName i j (if k < length (attributes_at d i j) - 1 then k else k - 1)
           else AddAttributeButton i j)"
| "next_focus (SetAttributeName i j k v) d = None"
| "next_focus (SetAttributeKind i j k v) d = None"
| "next_focus (SetAttributeValue i j k v) d = None"

text \<open>The \<open>data-focus-id\<close> attributes; numbers count from one.\<close>

definition example_id :: "nat \<Rightarrow> string" where
  "example_id i = ''langextract-example-'' @ nat_digits (Suc i)"

definition extraction_id :: "nat \<Rightarrow> nat \<Rightarrow> string" where
  "extraction_id i j = example_id i @ ''-extraction-'' @ nat_digits (Suc j)"

definition source_id :: "nat \<Rightarrow> string" where "source_id i = example_id i @ ''-source''"
definition field_id :: "nat \<Rightarrow> nat \<Rightarrow> string" where "field_id i j = extraction_id i j @ ''-field''"
definition name_id :: "nat \<Rightarrow> nat \<Rightarrow> nat \<Rightarrow> string" where
  "name_id i j k = extraction_id i j @ ''-attribute-'' @ nat_digits (Suc k) @ ''-name''"
definition add_attribute_id :: "nat \<Rightarrow> nat \<Rightarrow> string" where
  "add_attribute_id i j = extraction_id i j @ ''-add-attribute''"
definition dismiss_id :: "nat \<Rightarrow> string" where
  "dismiss_id n = ''langextract-feedback-dismiss-'' @ nat_digits n"

definition feedback_heading_id :: string where
  "feedback_heading_id = ''langextract-feedback-heading''"

definition visibleSuggestions :: "app_state \<Rightarrow> feedback_suggestion list" where
  "visibleSuggestions c = filter (\<lambda>g. suggestion_key g \<notin> set (dismissedKeys c)) (langextractFeedbackSuggestions c)"

definition actionableSuggestions :: "(string \<Rightarrow> string \<Rightarrow> int) \<Rightarrow> app_state \<Rightarrow> feedback_suggestion list" where
  "actionableSuggestions cmp c =
     filter (\<lambda>g. suggestion_key g \<notin> set (appliedLangExtractSuggestionKeys cmp c)) (visibleSuggestions c)"

definition form_ids :: "draft_template \<Rightarrow> string list" where
  "form_ids d = concat (map (\<lambda>i. source_id i # concat (map (\<lambda>j.
       field_id i j # map (name_id i j) [0..<length (attributes_at d i j)] @ [add_attribute_id i j])
     [0..<length (extractions_at d i)])) [0..<length (dt_examples d)])"

definition feedback_ids :: "feedback_status \<Rightarrow> feedback_suggestion list \<Rightarrow> string list" where
  "feedback_ids st visible =
     (if st \<noteq> FeedbackIdle \<or> visible \<noteq> [] then
        feedback_heading_id
        # (if st \<noteq> FeedbackError then map (\<lambda>i. dismiss_id (Suc i)) [0..<length visible] else [])
      else [])"

primrec focus_candidates :: "focus_target \<Rightarrow> string list" where
  "focus_candidates (ExampleSource i) = [source_id i]"
| "focus_candidates (ExtractionField i j) = [field_id i j]"
| "focus_candidates (AttributeName i j k) = [name_id i j k]"
| "focus_candidates (AddAttributeButton i j) = [add_attribute_id i j]"
| "focus_candidates (FeedbackDismiss p n) =
     [dismiss_id p, dismiss_id (p - 1), ''langextract-feedback-add-all'', feedback_heading_id]"

primrec waits :: "nat \<Rightarrow> focus_target \<Rightarrow> bool" where
  "waits visible (ExampleSource i) = False"
| "waits visible (ExtractionField i j) = False"
| "waits visible (AttributeName i j k) = False"
| "waits visible (AddAttributeButton i j) = False"
| "waits visible (FeedbackDismiss p n) = (visible > n)"

text \<open>The effect: the control that gets the focus, and the pending target afterwards.\<close>

definition focused_control :: "string list \<Rightarrow> nat \<Rightarrow> focus_target \<Rightarrow> string option" where
  "focused_control ids visible t =
     (if waits visible t then None else find (\<lambda>i. i \<in> set ids) (focus_candidates t))"

definition effect_focus :: "string list \<Rightarrow> nat \<Rightarrow> focus_target option \<Rightarrow> focus_target option" where
  "effect_focus ids visible pending =
     (case pending of
        None \<Rightarrow> None
      | Some t \<Rightarrow> if focused_control ids visible t \<noteq> None then None else Some t)"

definition dismiss_focus :: "app_state \<Rightarrow> nat \<Rightarrow> focus_target" where
  "dismiss_focus c index = FeedbackDismiss (index + 1) (length (visibleSuggestions c) - 1)"

definition promote_focus :: "draft_template \<Rightarrow> focus_target" where
  "promote_focus d = ExampleSource (length (dt_examples d))"

section \<open>Beside the form\<close>

definition completeExampleCount :: "draft_template \<Rightarrow> nat" where
  "completeExampleCount d = length (filter isDraftExampleComplete (dt_examples d))"

definition draft_preview :: "draft_template \<Rightarrow> string list \<Rightarrow> string list \<Rightarrow> string option result" where
  "draft_preview d valid needed =
     buildLangExtractPreview (dt_prompt_description d) (dt_examples d) valid needed"

definition blockingMessages :: "draft_template \<Rightarrow> string list \<Rightarrow> string list \<Rightarrow> string list" where
  "blockingMessages d valid needed =
     (case draft_preview d valid needed of Inl m \<Rightarrow> if m \<noteq> [] then [m] else [] | Inr _ \<Rightarrow> [])"

definition save_enabled :: "bool \<Rightarrow> draft_template \<Rightarrow> string list \<Rightarrow> string list \<Rightarrow> bool" where
  "save_enabled saveBusy d valid needed \<longleftrightarrow> \<not> (saveBusy \<or> length (blockingMessages d valid needed) > 0)"

definition example_notice :: "draft_example \<Rightarrow> string" where
  "example_notice e = (if isDraftExampleComplete e then ''Ready to save.''
     else ''Still needs source text, grounded spans, or attribute values.'')"

definition count_text :: "nat \<Rightarrow> string \<Rightarrow> string" where
  "count_text n what = num_to_string (num_of_nat n) @ '' '' @ what @ (if n = 1 then '''' else ''s'')"

definition coverage_notice :: "draft_template \<Rightarrow> string list \<Rightarrow> string list \<Rightarrow> (string \<times> string) option" where
  "coverage_notice d valid needed =
     (let coverage = getLangExtractFieldCoverage (draft_classes (dt_examples d)) valid needed;
          missing = missingRequiredFields coverage
      in if needed = [] then None
         else if dt_examples d \<noteq> [] then Some
           (num_to_string (num_of_nat (length (coveredRequiredFields coverage))) @ '' of ''
              @ num_to_string (num_of_nat (length needed)) @ '' required fields covered'',
            if missing \<noteq> [] then ''Missing required examples: '' @ js_join '', '' missing @ ''.''
            else ''Every required extracted field appears in at least one grounded example.'')
         else Some (''Add examples to cover '' @ count_text (length needed) ''required field'',
            ''Coverage updates as soon as grounded examples mention each required extracted field.''))"

definition feedbackIssues :: "feedback_diagnostics \<Rightarrow> (jsnum \<times> string) list" where
  "feedbackIssues f = filter (\<lambda>(n, l). num_less (Num 0) n)
     [(skipped_missing_document_text f, ''reviewed edits skipped because parsed text was unavailable''),
      (skipped_span_mismatch f, ''reviewed edits skipped because stored spans no longer matched the document text''),
      (skipped_span_override f, ''reviewed edits skipped because the reviewer changed the grounded span itself''),
      (skipped_missing_grounding f, ''reviewed edits skipped because the original result was not safely grounded''),
      (skipped_missing_target_field f, ''reviewed edits skipped because the target field was missing from the saved result''),
      (skipped_empty_context f, ''reviewed edits skipped because no reusable context window could be built''),
      (skipped_no_contextual_extractions f,
        ''reviewed edits skipped because the context window did not contain reusable grounded extractions'')]"

definition empty_feedback_text :: "feedback_diagnostics \<Rightarrow> string \<times> string" where
  "empty_feedback_text f =
     (if num_truthy (reviewed_edit_count f) then ''No reusable reviewed examples right now.'' else ''No reviewed examples yet.'',
      if num_truthy (dismissed_suggestion_count f)
      then ''Every reusable suggestion for this schema version is currently dismissed.''
      else if num_truthy (reviewed_edit_count f)
      then ''Reviewed runs exist, but none produced a reusable grounded example for this schema version.''
      else ''Approve grounded review edits first. Safe suggestions appear here automatically.'')"

section \<open>Lemmas on updates in place\<close>

lemma length_map_at [simp]: "length (map_at i f xs) = length xs"
  by (simp add: map_at_def)

lemma nth_map_at: "j < length xs \<Longrightarrow> map_at i f xs ! j = (if j = i then f (xs ! j) else xs ! j)"
  by (simp add: map_at_def nth_enumerate_eq)

lemma map_at_list_update: "map_at i f xs = (if i < length xs then xs[i := f (xs ! i)] else xs)"
  by (auto intro!: nth_equalityI simp: nth_map_at nth_list_update)

lemma drop_at_take_drop: "drop_at i xs = take i xs @ drop (Suc i) xs"
proof -
  have "map snd (filter (\<lambda>(j, x). j \<noteq> n + i) (enumerate n xs)) = take i xs @ drop (Suc i) xs" for n
  proof (induction xs arbitrary: n i)
    case (Cons x xs)
    have all: "map snd (filter (\<lambda>(j, x). j \<noteq> n) (enumerate (Suc n) ys)) = ys" for ys :: "'a list"
    proof -
      have "filter (\<lambda>(j, x). j \<noteq> n) (enumerate (Suc n) ys) = enumerate (Suc n) ys"
        by (rule filter_True) (auto simp: in_set_enumerate_eq)
      then show ?thesis by simp
    qed
    show ?case
    proof (cases i)
      case 0
      then show ?thesis using all [of xs] by simp
    next
      case (Suc m)
      with Cons.IH [of "Suc n" m] show ?thesis by simp
    qed
  qed simp
  from this [of 0] show ?thesis by (simp add: drop_at_def)
qed

lemma length_drop_at: "i < length xs \<Longrightarrow> length (drop_at i xs) = length xs - 1"
  by (simp add: drop_at_take_drop)

lemma set_drop_at: "set (drop_at i xs) \<subseteq> set xs"
  by (auto simp: drop_at_take_drop dest: in_set_takeD in_set_dropD)

lemma set_map_at: "x \<in> set (map_at i f xs) \<Longrightarrow> x \<in> set xs \<or> (\<exists>y \<in> set xs. x = f y)"
  by (auto simp: map_at_def in_set_enumerate_eq) (metis nth_mem)+

text \<open>The lists an action sees after an update.\<close>

lemma extractions_at_update:
  "extractions_at (updateExample i u d) i' =
     (if i' = i \<and> has_example d i then draft_extractions (u (dt_examples d ! i)) else extractions_at d i')"
  by (auto simp: extractions_at_def updateExample_def has_example_def nth_map_at)

lemma has_example_update [simp]: "has_example (updateExample i u d) j = has_example d j"
  by (simp add: has_example_def updateExample_def)

lemma extractions_at_Some: "j < length (extractions_at d i) \<Longrightarrow> has_example d i"
  by (auto simp: extractions_at_def split: if_splits)

lemma extractions_at_eq: "has_example d i \<Longrightarrow> extractions_at d i = draft_extractions (dt_examples d ! i)"
  by (simp add: extractions_at_def)

lemma attributes_at_update:
  assumes "j < length (extractions_at d i)"
  shows "length (extractions_at (updateExtraction i j u d) i) = length (extractions_at d i)"
    and "attributes_at (updateExtraction i j u d) i j = draft_attributes (u (extractions_at d i ! j))"
  using assms extractions_at_Some [OF assms]
  by (simp_all add: updateExtraction_def attributes_at_def extractions_at_update extractions_at_eq nth_map_at)

section \<open>The focus follows an edit\<close>

lemma set_form_ids:
  "x \<in> set (form_ids d) \<longleftrightarrow> (\<exists>i < length (dt_examples d). x = source_id i \<or>
     (\<exists>j < length (extractions_at d i). x = field_id i j \<or> x = add_attribute_id i j \<or>
        (\<exists>k < length (attributes_at d i j). x = name_id i j k)))"
  by (fastforce simp: form_ids_def)

lemma form_ids_example: "has_example d i \<Longrightarrow> source_id i \<in> set (form_ids d)"
  unfolding set_form_ids has_example_def by blast

lemma form_ids_extraction:
  assumes "j < length (extractions_at d i)"
  shows "field_id i j \<in> set (form_ids d)" "add_attribute_id i j \<in> set (form_ids d)"
  using assms extractions_at_Some [OF assms] unfolding set_form_ids has_example_def by blast+

lemma form_ids_attribute:
  assumes "k < length (attributes_at d i j)"
  shows "name_id i j k \<in> set (form_ids d)"
proof -
  from assms have "j < length (extractions_at d i)" by (auto simp: attributes_at_def split: if_splits)
  then show ?thesis using assms extractions_at_Some [of j d i] unfolding set_form_ids has_example_def by blast
qed

text \<open>
  Adding or removing an example, an extraction or an attribute never loses the keyboard: the control
  that the action wants to focus is rendered by the edited draft, so the effect focuses it at once and
  forgets the request.
\<close>

theorem focus_follows_edit:
  assumes "action_enabled a d" "next_focus a d = Some t"
  shows "\<exists>control \<in> set (form_ids (edit_draft a d)).
     focused_control (form_ids (edit_draft a d) @ ids) visible t = Some control
     \<and> effect_focus (form_ids (edit_draft a d) @ ids) visible (Some t) = None"
proof -
  let ?d = "edit_draft a d"
  have found: "\<exists>control \<in> set (form_ids ?d). focused_control (form_ids ?d @ ids) visible t = Some control
     \<and> effect_focus (form_ids ?d @ ids) visible (Some t) = None"
    if "\<not> waits visible t" "focus_candidates t = [i]" "i \<in> set (form_ids ?d)" for i
    using that by (simp add: effect_focus_def focused_control_def)
  show ?thesis
  proof (cases a)
    case AddExample
    then have "has_example ?d (length (dt_examples d))" by (simp add: has_example_def)
    from form_ids_example [OF this] AddExample assms(2) show ?thesis by (intro found) auto
  next
    case (RemoveExample i)
    let ?n = "if i < length (dt_examples d) - 1 then i else i - 1"
    have "has_example ?d ?n" using RemoveExample assms(1) length_drop_at [of i "dt_examples d"]
      by (auto simp: has_example_def)
    from form_ids_example [OF this] RemoveExample assms(2) show ?thesis by (intro found) auto
  next
    case (AddExtraction i)
    then have "length (extractions_at d i) < length (extractions_at ?d i)"
      using assms(1) by (simp add: extractions_at_update extractions_at_eq)
    from form_ids_extraction(1) [OF this] AddExtraction assms(2) show ?thesis by (intro found) auto
  next
    case (RemoveExtraction i j)
    let ?n = "if j < length (extractions_at d i) - 1 then j else j - 1"
    have h: "has_example d i" using RemoveExtraction assms(1) by (auto intro: extractions_at_Some)
    then have "length (extractions_at ?d i) = length (extractions_at d i) - 1"
      using RemoveExtraction assms(1) by (simp add: extractions_at_update extractions_at_eq length_drop_at)
    then have "?n < length (extractions_at ?d i)" using RemoveExtraction assms(1) by auto
    from form_ids_extraction(1) [OF this] RemoveExtraction assms(2) show ?thesis by (intro found) auto
  next
    case (AddAttribute i j)
    then have "length (attributes_at d i j) < length (attributes_at ?d i j)"
      using assms(1) by (simp add: attributes_at_update) (simp add: attributes_at_def)
    from form_ids_attribute [OF this] AddAttribute assms(2) show ?thesis by (intro found) auto
  next
    case (RemoveAttribute i j k)
    have j: "j < length (extractions_at d i)" using RemoveAttribute assms(1) by (auto simp: attributes_at_def split: if_splits)
    then have "attributes_at ?d i j = drop_at k (attributes_at d i j)" "length (extractions_at ?d i) = length (extractions_at d i)"
      using RemoveAttribute by (simp_all add: attributes_at_update) (simp add: attributes_at_def)
    then have len: "length (attributes_at ?d i j) = length (attributes_at d i j) - 1" "j < length (extractions_at ?d i)"
      using RemoveAttribute assms(1) j by (simp_all add: length_drop_at)
    show ?thesis
    proof (cases "length (attributes_at d i j) > 1")
      case True
      let ?n = "if k < length (attributes_at d i j) - 1 then k else k - 1"
      have "?n < length (attributes_at ?d i j)" using RemoveAttribute assms(1) True len by auto
      from form_ids_attribute [OF this] RemoveAttribute assms(2) True show ?thesis by (intro found) auto
    next
      case False
      from form_ids_extraction(2) [OF len(2)] RemoveAttribute assms(2) False show ?thesis by (intro found) auto
    qed
  qed (use assms(2) in auto)
qed

lemma focus_follows_edit_witness:
  "effect_focus (form_ids (edit_draft AddExample starter_draft)) 0 (Some (ExampleSource (length (dt_examples starter_draft)))) = None"
  using focus_follows_edit [of AddExample starter_draft "ExampleSource (length (dt_examples starter_draft))" "[]" 0] by simp

section \<open>The form never gets empty\<close>

definition editable :: "draft_template \<Rightarrow> bool" where
  "editable d \<longleftrightarrow> dt_examples d \<noteq> [] \<and> list_all (\<lambda>e. draft_extractions e \<noteq> []) (dt_examples d)"

lemma map_at_eq_Nil [simp]: "map_at i f xs = [] \<longleftrightarrow> xs = []"
  using length_map_at [of i f xs] by (metis length_0_conv)

lemma editable_update:
  assumes "editable d" "has_example d i \<Longrightarrow> draft_extractions (u (dt_examples d ! i)) \<noteq> []"
  shows "editable (updateExample i u d)"
  using assms unfolding editable_def updateExample_def list_all_length has_example_def by (simp add: nth_map_at)

lemma editable_nth: "editable d \<Longrightarrow> has_example d i \<Longrightarrow> draft_extractions (dt_examples d ! i) \<noteq> []"
  by (simp add: editable_def list_all_length has_example_def)

lemma editable_extraction: "editable d \<Longrightarrow> editable (updateExtraction i j u d)"
  unfolding updateExtraction_def by (rule editable_update) (simp_all add: editable_def list_all_length has_example_def)

lemma drop_at_not_Nil: "i < length xs \<Longrightarrow> length xs \<noteq> 1 \<Longrightarrow> drop_at i xs \<noteq> []"
  using length_drop_at [of i xs] by (cases xs) auto

text \<open>
  Whatever is edited, added or removed, the draft keeps an example, and every example an extraction:
  the buttons that would take the last one away are disabled.
\<close>

theorem edits_keep_the_form_filled:
  assumes "editable d" "action_enabled a d"
  shows "editable (edit_draft a d)"
proof (cases a)
  case AddExample
  then show ?thesis using assms(1)
    by (simp add: editable_def createEmptyLangExtractExample_def)
next
  case (RemoveExample i)
  then show ?thesis using assms drop_at_not_Nil [of i "dt_examples d"] set_drop_at [of i "dt_examples d"]
    by (auto simp: editable_def has_example_def list_all_iff)
next
  case (RemoveExtraction i j)
  then have h: "has_example d i" using assms(2) by (auto intro: extractions_at_Some)
  with RemoveExtraction assms(2) have "drop_at j (draft_extractions (dt_examples d ! i)) \<noteq> []"
    by (intro drop_at_not_Nil) (simp_all add: extractions_at_eq)
  with RemoveExtraction assms(1) show ?thesis by (simp add: editable_update)
next
  case (SetSource i v)
  with assms(1) show ?thesis by (simp add: editable_update editable_nth)
next
  case (AddExtraction i)
  with assms(1) show ?thesis by (simp add: editable_update)
qed (use assms(1) in \<open>simp_all add: updateAttribute_def editable_extraction\<close>, simp add: editable_def)

lemma edits_keep_the_form_filled_witness:
  "editable (edit_draft (RemoveExample 0) (edit_draft AddExample starter_draft))"
proof -
  have "editable starter_draft" "action_enabled AddExample starter_draft"
    "action_enabled (RemoveExample 0) (edit_draft AddExample starter_draft)"
    by code_simp+
  then show ?thesis by (blast intro: edits_keep_the_form_filled)
qed

section \<open>The save button\<close>

lemma attribute_error_not_empty: "build_attribute i j k x = Inl m \<Longrightarrow> m \<noteq> []"
  by (auto simp: build_attribute_def Let_def nth_extraction_def split: if_splits value_kind.splits)

lemma validate_error_not_empty: "validateLangExtractAttributes v i j = Inl m \<Longrightarrow> m \<noteq> []"
  by (auto simp: validateLangExtractAttributes_def nth_extraction_def Let_def split: if_splits option.splits json.splits)

lemma extraction_error_not_empty: "build_extraction known i j x = Inl m \<Longrightarrow> m \<noteq> []"
  by (auto simp: build_extraction_def Let_def js_error split: if_splits dest!: map_res_Inl
      dest: attribute_error_not_empty validate_error_not_empty)

lemma example_error_not_empty: "build_example known i e = Inl m \<Longrightarrow> m \<noteq> []"
  by (auto simp: build_example_def Let_def js_error split: if_splits dest!: map_res_Inl dest: extraction_error_not_empty)

lemma examples_error_not_empty: "buildLangExtractExamples es valid needed = Inl m \<Longrightarrow> m \<noteq> []"
  by (auto simp: buildLangExtractExamples_def Let_def js_error split: if_splits dest!: map_res_Inl dest: example_error_not_empty)

lemma preview_error:
  "buildLangExtractPreview prompt es valid needed = Inl m \<longleftrightarrow> buildLangExtractExamples es valid needed = Inl m"
  by (cases "buildLangExtractExamples es valid needed") (auto simp: buildLangExtractPreview_def Let_def)

lemma payload_error:
  "uses_langextract_config p base \<Longrightarrow> buildTemplatePayload d p (Some base) = Inl m \<longleftrightarrow>
     buildLangExtractExamples (dt_examples d) (field_names base) (required_names base) = Inl m"
  by (cases "buildLangExtractExamples (dt_examples d) (field_names base) (required_names base)")
    (auto simp: buildTemplatePayload_def Let_def)

text \<open>
  C27: The save button of the editor is exact: where the examples are part of the schema, it is enabled just
  when the schema can be built, so that saving posts it; and when it is blocked, the one message shown is
  the error that saving would report.
\<close>

theorem save_button_is_exact:
  assumes "uses_langextract_config p base"
  shows "(save_enabled False d (field_names base) (required_names base) \<longleftrightarrow>
      (\<exists>payload. buildTemplatePayload d p (Some base) = Inr payload))
   \<and> (buildTemplatePayload d p (Some base) = Inl m \<longleftrightarrow> blockingMessages d (field_names base) (required_names base) = [m])"
proof (cases "buildLangExtractExamples (dt_examples d) (field_names base) (required_names base)")
  case (Inl e)
  then have "draft_preview d (field_names base) (required_names base) = Inl e" by (simp add: draft_preview_def preview_error)
  moreover from payload_error [OF assms] Inl have "buildTemplatePayload d p (Some base) = Inl e" by simp
  ultimately show ?thesis using examples_error_not_empty [OF Inl] by (simp add: save_enabled_def blockingMessages_def)
next
  case (Inr es)
  have "\<exists>x. draft_preview d (field_names base) (required_names base) = Inr x"
    using preview_error Inr by (cases "draft_preview d (field_names base) (required_names base)") (auto simp: draft_preview_def)
  moreover have "\<exists>x. buildTemplatePayload d p (Some base) = Inr x"
    using payload_error [OF assms] Inr by (cases "buildTemplatePayload d p (Some base)") auto
  ultimately show ?thesis by (auto simp: save_enabled_def blockingMessages_def)
qed

lemma save_button_is_exact_witness:
  "save_enabled False starter_draft (field_names starterTemplateDefinition) (required_names starterTemplateDefinition)"
proof -
  have "uses_langextract_config (Some langextract_provider) starterTemplateDefinition" by code_simp
  from save_button_is_exact [OF this] starter_payload show ?thesis by blast
qed

section \<open>Dismissing a suggestion\<close>

definition without_key :: "string \<Rightarrow> feedback_suggestion list \<Rightarrow> feedback_suggestion list" where
  "without_key k gs = filter (\<lambda>g. suggestion_key g \<noteq> k) gs"

lemma length_without_key:
  assumes "distinct (map suggestion_key gs)" "i < length gs"
  shows "length (without_key (suggestion_key (gs ! i)) gs) = length gs - 1"
proof -
  let ?k = "suggestion_key (gs ! i)"
  have "length (removeAll ?k (map suggestion_key gs)) = length gs - 1"
    using assms length_remove1 [of ?k "map suggestion_key gs"] by (simp add: distinct_remove1_removeAll)
  moreover have "removeAll ?k (map suggestion_key gs) = map suggestion_key (without_key ?k gs)"
    unfolding removeAll_filter_not_eq without_key_def filter_map comp_def
    by (intro arg_cong [of _ _ "map suggestion_key"] filter_cong) auto
  ultimately show ?thesis by simp
qed

lemma dismissed_once:
  "visibleSuggestions (c\<lparr>dismissedKeys := add_once k (dismissedKeys c)\<rparr>) = without_key k (visibleSuggestions c)"
  by (auto simp: visibleSuggestions_def without_key_def add_once_def intro: filter_cong)

text \<open>
  Dismissing a suggestion: until the dismissal is stored the focus waits, also when it fails; once it
  is, the list is one shorter and the focus moves to the suggestion in its place, the one before it, or
  the heading, and the request is over.
\<close>

theorem focus_after_dismissal:
  assumes "index < length (visibleSuggestions c)" "distinct (map suggestion_key (visibleSuggestions c))" "st \<noteq> FeedbackIdle"
    and "c' = c\<lparr>dismissedKeys := add_once (suggestion_key (visibleSuggestions c ! index)) (dismissedKeys c)\<rparr>"
  shows "effect_focus ids (length (visibleSuggestions c)) (Some (dismiss_focus c index)) = Some (dismiss_focus c index)
    \<and> length (visibleSuggestions c') = length (visibleSuggestions c) - 1
    \<and> effect_focus (ids @ feedback_ids st (visibleSuggestions c')) (length (visibleSuggestions c')) (Some (dismiss_focus c index)) = None"
proof -
  have len: "length (visibleSuggestions c') = length (visibleSuggestions c) - 1"
    using length_without_key [OF assms(2, 1)] by (simp add: assms(4) dismissed_once)
  moreover have "feedback_heading_id \<in> set (feedback_ids st (visibleSuggestions c'))" using assms(3) by (simp add: feedback_ids_def)
  ultimately show ?thesis using assms(1)
    by (auto simp: effect_focus_def focused_control_def dismiss_focus_def)
qed

definition suggested :: "string \<Rightarrow> feedback_suggestion" where
  "suggested k = \<lparr>suggestion_key = k, suggestion_version_id = Num 1, suggestion_text = ''t'', suggestion_extractions = [],
     occurrence_count = Num 1, source_result_ids = [], source_field_names = [], last_reviewed_at = None\<rparr>"

definition suggesting_app :: app_state where
  "suggesting_app = start_app\<lparr>langextractFeedbackSuggestions := [suggested ''a'', suggested ''b'']\<rparr>"

lemma focus_after_dismissal_witness:
  "length (visibleSuggestions (suggesting_app\<lparr>dismissedKeys := add_once ''b'' (dismissedKeys suggesting_app)\<rparr>)) = 1"
proof -
  have v: "visibleSuggestions suggesting_app = [suggested ''a'', suggested ''b'']"
    by (simp add: visibleSuggestions_def suggesting_app_def start_app_def initial_app_def)
  from focus_after_dismissal [of 1 suggesting_app FeedbackReady _ "[]", OF _ _ _ refl] show ?thesis
    by (simp add: v suggested_def)
qed

end
