(* ===== verification/BundleSize.thy ===== *)
theory BundleSize
  imports Json
begin

text \<open>
  The bundle size gate of the build, \<open>scripts/check-frontend-bundle-size.mjs\<close>: the budgets from the
  environment, the sizes of the built assets added up by extension, the failures, the summary file, the
  lines printed and the exit code. The asset directory is the list that \<open>readdir\<close> gives, each name with
  what \<open>stat\<close> answers for it; a call that rejects ends the script with exit code 1.
\<close>

section \<open>Library functions\<close>

text \<open>\<open>path.extname\<close> of a file name, and \<open>toFixed(2)\<close> of a finite number, halves going up.\<close>

definition extname :: "string \<Rightarrow> string" where
  "extname s =
     (let ext = takeWhile (\<lambda>c. c \<noteq> CHR ''.'') (rev s); before = drop (length ext + 1) (rev s)
      in if before = [] \<or> s = ''..'' then [] else CHR ''.'' # rev ext)"

definition two_digits :: "nat \<Rightarrow> string" where
  "two_digits n = [digit_char (n div 10), digit_char (n mod 10)]"

definition to_fixed_2 :: "jsnum \<Rightarrow> string" where
  "to_fixed_2 v =
     (case v of
        Num x \<Rightarrow>
          if \<bar>x\<bar> \<ge> 10 ^ 21 then num_to_string v
          else let n = nat \<lfloor>\<bar>x\<bar> * 100 + 1 / 2\<rfloor>
               in (if x < 0 then ''-'' else []) @ nat_digits (n div 100) @ ''.'' @ two_digits (n mod 100)
      | _ \<Rightarrow> num_to_string v)"

section \<open>Budgets and sizes\<close>

datatype asset_type = Js | Css

record asset_sizes =
  js_bytes :: jsnum
  css_bytes :: jsnum

record bundle_env =
  max_js_env :: "string option"
  max_css_env :: "string option"

definition defaultBudgets :: asset_sizes where
  "defaultBudgets = \<lparr>js_bytes = Num (384 * 1024), css_bytes = Num (40 * 1024)\<rparr>"

definition budgets :: "bundle_env \<Rightarrow> asset_sizes" where
  "budgets env =
     \<lparr>js_bytes = (case max_js_env env of Some s \<Rightarrow> string_to_number s | None \<Rightarrow> js_bytes defaultBudgets),
      css_bytes = (case max_css_env env of Some s \<Rightarrow> string_to_number s | None \<Rightarrow> css_bytes defaultBudgets)\<rparr>"

definition formatBytes :: "jsnum \<Rightarrow> string" where
  "formatBytes bytes = to_fixed_2 (case bytes of Num x \<Rightarrow> to_double (x / 1024) | v \<Rightarrow> v) @ '' KiB''"

type_synonym directory = "(string \<times> jsnum option) list"

fun sizeByType :: "asset_sizes \<Rightarrow> directory \<Rightarrow> asset_sizes option" where
  "sizeByType sizes [] = Some sizes"
| "sizeByType sizes ((name, stat) # files) =
     (if extname name \<noteq> ''.js'' \<and> extname name \<noteq> ''.css'' then sizeByType sizes files
      else case stat of
        None \<Rightarrow> None
      | Some n \<Rightarrow>
          if extname name = ''.js'' then sizeByType (sizes\<lparr>js_bytes := num_add (js_bytes sizes) n\<rparr>) files
          else sizeByType (sizes\<lparr>css_bytes := num_add (css_bytes sizes) n\<rparr>) files)"

section \<open>Failures, summary and exit code\<close>

fun asset_name :: "asset_type \<Rightarrow> string" where
  "asset_name Js = ''JS''"
| "asset_name Css = ''CSS''"

fun size_of_asset :: "asset_sizes \<Rightarrow> asset_type \<Rightarrow> jsnum" where
  "size_of_asset s Js = js_bytes s"
| "size_of_asset s Css = css_bytes s"

definition within_budget :: "asset_sizes \<Rightarrow> asset_sizes \<Rightarrow> asset_type \<Rightarrow> bool" where
  "within_budget b actual a \<longleftrightarrow> num_ge (size_of_asset b a) (size_of_asset actual a)"

definition bundle_failures :: "asset_sizes \<Rightarrow> asset_sizes \<Rightarrow> string list" where
  "bundle_failures b actual =
     concat (map (\<lambda>a. if within_budget b actual a then []
        else [asset_name a @ '' bundle '' @ formatBytes (size_of_asset actual a) @ '' exceeds budget ''
              @ formatBytes (size_of_asset b a)]) [Js, Css])"

definition sizes_json :: "asset_sizes \<Rightarrow> json" where
  "sizes_json s = JObj [(''js'', JNum (js_bytes s)), (''css'', JNum (css_bytes s))]"

definition bundle_summary :: "asset_sizes \<Rightarrow> asset_sizes \<Rightarrow> json" where
  "bundle_summary b actual =
     JObj [(''budgets'', sizes_json b), (''actual'', sizes_json actual),
           (''failures'', JArr (map JStr (bundle_failures b actual)))]"

definition bundle_log :: "asset_sizes \<Rightarrow> asset_sizes \<Rightarrow> string list" where
  "bundle_log b actual =
     [''Frontend bundle budgets'',
      ''- JS total:  '' @ formatBytes (js_bytes actual) @ '' / '' @ formatBytes (js_bytes b),
      ''- CSS total: '' @ formatBytes (css_bytes actual) @ '' / '' @ formatBytes (css_bytes b)]"

record bundle_run =
  summary_file :: "string option"
  logged :: "string list"
  logged_errors :: "string list"
  exit_code :: nat

definition crashed_run :: bundle_run where
  "crashed_run = \<lparr>summary_file = None, logged = [], logged_errors = [], exit_code = 1\<rparr>"

definition check_bundle_size :: "bundle_env \<Rightarrow> directory option \<Rightarrow> bool \<Rightarrow> bundle_run" where
  "check_bundle_size env assets writable =
     (case Option.bind assets (sizeByType \<lparr>js_bytes = Num 0, css_bytes = Num 0\<rparr>) of
        None \<Rightarrow> crashed_run
      | Some actual \<Rightarrow>
          if \<not> writable then crashed_run
          else let b = budgets env; failures = bundle_failures b actual in
            \<lparr>summary_file = Some (stringify_indented (bundle_summary b actual) @ [newline]),
             logged = bundle_log b actual,
             logged_errors = (if failures = [] then [] else [] # map (\<lambda>f. ''ERROR: '' @ f) failures),
             exit_code = (if failures = [] then 0 else 1)\<rparr>)"

section \<open>Totals\<close>

definition bytes_of :: "asset_type \<Rightarrow> (string \<times> nat) list \<Rightarrow> nat" where
  "bytes_of a files = sum_list (map snd (filter (\<lambda>f. extname (fst f) = (if a = Js then ''.js'' else ''.css'')) files))"

definition listing :: "(string \<times> nat) list \<Rightarrow> directory" where
  "listing files = map (\<lambda>(name, n). (name, Some (num_of_nat n))) files"

lemma num_add_nat:
  assumes "m + n \<le> 2 ^ 53"
  shows "num_add (num_of_nat m) (num_of_nat n) = num_of_nat (m + n)"
proof -
  have "to_double (of_int (int (m + n))) = Num (of_int (int (m + n)))"
    by (rule to_double_of_int) (use assms in simp)
  then show ?thesis by (simp add: num_add_def)
qed

lemma bytes_of_Cons:
  "bytes_of a ((name, n) # files) = (if extname name = (if a = Js then ''.js'' else ''.css'') then n else 0) + bytes_of a files"
  by (simp add: bytes_of_def)

lemma sizeByType_totals:
  assumes "j + bytes_of Js files \<le> 2 ^ 53" "c + bytes_of Css files \<le> 2 ^ 53"
  shows "sizeByType \<lparr>js_bytes = num_of_nat j, css_bytes = num_of_nat c\<rparr> (listing files)
    = Some \<lparr>js_bytes = num_of_nat (j + bytes_of Js files), css_bytes = num_of_nat (c + bytes_of Css files)\<rparr>"
  using assms
proof (induction files arbitrary: j c)
  case (Cons f files)
  obtain name n where f: "f = (name, n)" by (cases f)
  consider "extname name = ''.js''" | "extname name = ''.css''" | "extname name \<noteq> ''.js''" "extname name \<noteq> ''.css''" by blast
  then show ?case
  proof cases
    case 1
    then show ?thesis
      using Cons.prems Cons.IH [of "j + n" c] num_add_nat [of j n] by (simp add: f listing_def bytes_of_Cons add.assoc)
  next
    case 2
    then show ?thesis
      using Cons.prems Cons.IH [of j "c + n"] num_add_nat [of c n] by (simp add: f listing_def bytes_of_Cons add.assoc)
  next
    case 3
    then show ?thesis using Cons.prems Cons.IH [of j c] by (simp add: f listing_def bytes_of_Cons)
  qed
qed (simp add: listing_def bytes_of_def)

lemma bundle_failures_Nil: "bundle_failures b actual = [] \<longleftrightarrow> (\<forall>a. within_budget b actual a)"
proof -
  have "(\<forall>a. within_budget b actual a) \<longleftrightarrow> within_budget b actual Js \<and> within_budget b actual Css"
    by (metis asset_type.exhaust)
  then show ?thesis by (simp add: bundle_failures_def)
qed

section \<open>The gate\<close>

text \<open>
  C37: The build passes the gate exactly when the sizes of the files of each type, added up exactly, are within
  its budget, whatever order the directory lists them in; a budget that is not a number fails every build.
  The totals are below 2^53 bytes, where doubles count exactly.
\<close>

theorem bundle_gate_adds_exactly:
  assumes "bytes_of Js files \<le> 2 ^ 53" "bytes_of Css files \<le> 2 ^ 53"
  shows "exit_code (check_bundle_size env (Some (listing files)) True) = 0 \<longleftrightarrow>
    num_ge (js_bytes (budgets env)) (num_of_nat (bytes_of Js files))
    \<and> num_ge (css_bytes (budgets env)) (num_of_nat (bytes_of Css files))"
proof -
  have all: "(\<forall>a. P a) \<longleftrightarrow> P Js \<and> P Css" for P by (metis asset_type.exhaust)
  show ?thesis
    using sizeByType_totals [of 0 files 0] assms
    by (simp add: check_bundle_size_def Let_def bundle_failures_Nil all within_budget_def)
qed

definition demo_assets :: "(string \<times> nat) list" where
  "demo_assets = [(''index.js'', 300000), (''vendor.js'', 100000), (''index.css'', 9000), (''logo.svg'', 70000), (''.js'', 5)]"

lemma bundle_gate_adds_exactly_witness:
  "exit_code (check_bundle_size \<lparr>max_js_env = None, max_css_env = None\<rparr> (Some (listing demo_assets)) True) \<noteq> 0"
proof -
  have b: "bytes_of Js demo_assets = 400000" "bytes_of Css demo_assets = 9000"
    by (simp_all add: bytes_of_def demo_assets_def extname_def)
  show ?thesis
    by (simp add: b bundle_gate_adds_exactly budgets_def defaultBudgets_def num_ge_def)
qed

lemma obj_ok_names:
  assumes "distinct (map fst ps)" "list_all (\<lambda>k. index_key k = None) (map fst ps)"
  shows "obj_ok ps"
proof -
  have "sorted_wrt (\<lambda>k l. \<not> key_precedes l k) ks" if "list_all (\<lambda>k. index_key k = None) ks" for ks
    using that by (induction ks) (auto simp: key_precedes_def list_all_iff)
  with assms show ?thesis by (simp add: obj_ok_def obj_keys_def)
qed

lemma not_index_keys [simp]:
  "index_key ''js'' = None" "index_key ''css'' = None" "index_key ''budgets'' = None"
  "index_key ''actual'' = None" "index_key ''failures'' = None"
  by (simp_all add: index_key_def is_digit_def)

lemma jsons_ok_strings: "jsons_ok (map JStr ss)"
  by (induction ss) simp_all

lemma num_ok_nat: "n \<le> 2 ^ 53 \<Longrightarrow> num_ok (num_of_nat n)"
  using is_double_of_int [of "int n"] by simp

lemma budget_ok: "num_ok (js_bytes (budgets env))" "num_ok (css_bytes (budgets env))"
  by (simp_all add: budgets_def defaultBudgets_def split: option.split)

lemma sizes_json_ok:
  assumes "is_finite (js_bytes s)" "is_finite (css_bytes s)" "num_ok (js_bytes s)" "num_ok (css_bytes s)"
  shows "json_ok (sizes_json s)"
  using assms by (simp add: sizes_json_def obj_ok_names)

text \<open>
  The summary file the script leaves for later steps is JSON that parses back to what was measured, and its
  list of failures is empty exactly when the script exits with 0. The budgets are finite and the totals below
  2^53 bytes.
\<close>

lemma bundle_summary_tells_the_verdict:
  assumes "bytes_of Js files \<le> 2 ^ 53" "bytes_of Css files \<le> 2 ^ 53"
    and "is_finite (js_bytes (budgets env))" "is_finite (css_bytes (budgets env))"
  defines "run \<equiv> check_bundle_size env (Some (listing files)) True"
    and "actual \<equiv> \<lparr>js_bytes = num_of_nat (bytes_of Js files), css_bytes = num_of_nat (bytes_of Css files)\<rparr>"
  shows "map_option (\<lambda>text. json_parse (butlast text)) (summary_file run) = Some (Some (bundle_summary (budgets env) actual))
    \<and> (exit_code run = 0 \<longleftrightarrow> bundle_failures (budgets env) actual = [])"
proof -
  have run: "run = \<lparr>summary_file = Some (stringify_indented (bundle_summary (budgets env) actual) @ [newline]),
      logged = bundle_log (budgets env) actual,
      logged_errors = (if bundle_failures (budgets env) actual = [] then []
         else [] # map (\<lambda>f. ''ERROR: '' @ f) (bundle_failures (budgets env) actual)),
      exit_code = (if bundle_failures (budgets env) actual = [] then 0 else 1)\<rparr>"
    using sizeByType_totals [of 0 files 0] assms(1,2) by (simp add: run_def actual_def check_bundle_size_def Let_def)
  have "json_ok (sizes_json (budgets env))" "json_ok (sizes_json actual)"
    using assms(1-4) budget_ok [of env] num_ok_nat by (simp_all add: sizes_json_ok actual_def)
  then have "json_ok (bundle_summary (budgets env) actual)"
    by (simp add: bundle_summary_def obj_ok_names jsons_ok_strings)
  then show ?thesis by (simp add: run indented.decode_encode)
qed

end
