(* ===== verification/Calculations.thy ===== *)
theory Calculations
  imports ReviewDraft "HOL-Library.Multiset"
begin

text \<open>
  The calculated fields of a result as the server computes them, \<open>shared/extraction_core/calculations.py\<close>,
  and the order it computes them in, \<open>formulas.py\<close>: the check for cycles, the depth-first sort, the
  evaluation with its error policies, the output format and the validation of the value.

  A formula is text. Reading it is Python's own parser, so the two things the code takes from it are
  parameters, the record \<open>formula_engine\<close>: the identifiers of the parsed formula in the order of
  \<open>ast.walk\<close>, and the outcome of evaluating it in a context. The third parameter is the order in which
  Python walks through a set of names, which the language leaves open. A number of a formula is a double.
  \<open>None\<close> is an exception that nobody catches; the depth that Python allows a recursion is an argument.
  The result has the entries the app reads; the formula, its references and the printed value, which the server stores beside
  them for its exports, are left out.
\<close>

section \<open>Definitions and formulas\<close>

datatype flag_policy = FlagReview | ReturnNull

record calculated_def =
  calc_name :: string
  calc_label :: string
  calc_output_type :: string
  calc_formula :: string
  calc_depends_on :: "string list"
  calc_currency :: "string option"
  calc_allow_null :: bool
  calc_min :: "jsnum option"
  calc_max :: "jsnum option"
  on_divide_by_zero :: flag_policy
  on_missing_input :: flag_policy
  calc_requires_review :: bool

datatype evaluation = Evaluated json | DividedByZero | TypeFailure | FormulaFailure string | Uncaught

record formula_engine =
  identifiers :: "string \<Rightarrow> string list result"
  evaluation :: "string \<Rightarrow> json obj \<Rightarrow> evaluation"
  set_order :: "string list \<Rightarrow> string list"

definition ALLOWED_FUNCTIONS :: "string list" where
  "ALLOWED_FUNCTIONS =
     [''sum'', ''avg'', ''min'', ''max'', ''count'', ''round'', ''floor'', ''ceil'', ''coalesce'', ''months_between'',
      ''days_between'', ''years_between'', ''contains'', ''lookup'', ''convert_unit'', ''format_currency'',
      ''format_percent'', ''iff'']"

definition validate_formula :: "formula_engine \<Rightarrow> string \<Rightarrow> string set \<Rightarrow> unit result" where
  "validate_formula E f available =
     res_bind (identifiers E f) (\<lambda>ids.
       case find (\<lambda>n. n \<notin> set ALLOWED_FUNCTIONS \<and> n \<notin> available) ids of
         Some n \<Rightarrow> Inl (''Unknown field reference: '' @ n)
       | None \<Rightarrow> Inr ())"

definition collect_formula_references :: "formula_engine \<Rightarrow> string \<Rightarrow> string set \<Rightarrow> string list result" where
  "collect_formula_references E f available =
     res_bind (identifiers E f) (\<lambda>ids. Inr (remdups (filter (\<lambda>n. n \<in> available) ids)))"

section \<open>Cycles\<close>

text \<open>The graph is a dictionary: the entry of a name is the last definition of that name.\<close>

definition def_names :: "calculated_def list \<Rightarrow> string list" where
  "def_names defs = map calc_name defs"

definition def_of :: "calculated_def list \<Rightarrow> string \<Rightarrow> calculated_def option" where
  "def_of defs n = find (\<lambda>d. calc_name d = n) (rev defs)"

definition graph_deps :: "calculated_def list \<Rightarrow> string \<Rightarrow> string list" where
  "graph_deps defs n = (case def_of defs n of None \<Rightarrow> [] | Some d \<Rightarrow> calc_depends_on d)"

lemma def_of_None: "def_of defs n = None \<longleftrightarrow> n \<notin> set (def_names defs)"
  by (auto simp: def_of_def def_names_def find_None_iff)

lemma graph_deps_outside: "n \<notin> set (def_names defs) \<Longrightarrow> graph_deps defs n = []"
  using def_of_None [of defs n] by (simp add: graph_deps_def)

function cycle_visit :: "calculated_def list \<Rightarrow> string list \<Rightarrow> string list \<Rightarrow> string \<Rightarrow> string list result"
  and cycle_visits :: "calculated_def list \<Rightarrow> string list \<Rightarrow> string list \<Rightarrow> string list \<Rightarrow> string list result" where
  "cycle_visit defs active visited n =
     (if n \<in> set active then Inl (''Circular dependency detected at '' @ n)
      else if n \<in> set visited then Inr visited
      else res_bind (cycle_visits defs (n # active) visited (graph_deps defs n)) (\<lambda>v. Inr (n # v)))"
| "cycle_visits defs active visited [] = Inr visited"
| "cycle_visits defs active visited (d # ds) =
     (if d \<in> set (def_names defs)
      then res_bind (cycle_visit defs active visited d) (\<lambda>v. cycle_visits defs active v ds)
      else cycle_visits defs active visited ds)"
  by pat_completeness auto

termination
proof (relation "(\<lambda>x. case x of
      Inl (defs, active, visited, n) \<Rightarrow> card (set (def_names defs) - set active)
    | Inr (defs, active, visited, ds) \<Rightarrow> card (set (def_names defs) - set active))
  <*mlex*> measure (\<lambda>x. case x of Inl _ \<Rightarrow> 1 | Inr (defs, active, visited, ds) \<Rightarrow> 2 * length ds)", goal_cases)
  case 1
  then show ?case by (intro wf_mlex wf_measure)
next
  case (2 defs active visited n)
  show ?case
  proof (cases "n \<in> set (def_names defs)")
    case True
    with 2 have "set (def_names defs) - set (n # active) \<subset> set (def_names defs) - set active" by auto
    then have "card (set (def_names defs) - set (n # active)) < card (set (def_names defs) - set active)"
      by (rule psubset_card_mono [rotated]) simp
    then show ?thesis by (simp add: mlex_less)
  next
    case False
    then have "set (def_names defs) - set (n # active) = set (def_names defs) - set active" by auto
    with False show ?thesis by (simp add: mlex_leq graph_deps_outside)
  qed
qed (auto intro: mlex_leq)

definition detect_formula_cycles :: "calculated_def list \<Rightarrow> string list result" where
  "detect_formula_cycles defs = cycle_visits defs [] [] (def_names defs)"

section \<open>The depth-first sort\<close>

text \<open>One step per stack frame; \<open>items\<close> is the graph's dictionary again.\<close>

primrec fold_option :: "('a \<Rightarrow> 's \<Rightarrow> 's option) \<Rightarrow> 'a list \<Rightarrow> 's \<Rightarrow> 's option" where
  "fold_option f [] s = Some s"
| "fold_option f (x # xs) s = Option.bind (f x s) (fold_option f xs)"

definition dependencies :: "formula_engine \<Rightarrow> calculated_def list \<Rightarrow> calculated_def \<Rightarrow> string list" where
  "dependencies E defs d =
     set_order E
       (case collect_formula_references E (calc_formula d) (set (def_names defs)) of
          Inr refs \<Rightarrow> refs
        | Inl _ \<Rightarrow> remdups (filter (\<lambda>n. n \<in> set (def_names defs)) (calc_depends_on d)))"

primrec sort_visit :: "nat \<Rightarrow> formula_engine \<Rightarrow> calculated_def list \<Rightarrow> string \<Rightarrow> calculated_def list \<Rightarrow> calculated_def list option" where
  "sort_visit 0 E defs n ordered = None"
| "sort_visit (Suc frames) E defs n ordered =
     (if n \<in> set (def_names ordered) then Some ordered
      else case def_of defs n of
        None \<Rightarrow> Some ordered
      | Some d \<Rightarrow>
          map_option (\<lambda>before. before @ [d])
            (fold_option (\<lambda>m acc. if m \<in> set (def_names defs) then sort_visit frames E defs m acc else Some acc)
               (dependencies E defs d) ordered))"

datatype sort_outcome = Sorted "calculated_def list" | Cyclic string | TooDeep

definition topologically_sort_calculated_fields :: "formula_engine \<Rightarrow> nat \<Rightarrow> calculated_def list \<Rightarrow> sort_outcome" where
  "topologically_sort_calculated_fields E frames defs =
     (case detect_formula_cycles defs of
        Inl m \<Rightarrow> Cyclic m
      | Inr _ \<Rightarrow>
          (case fold_option (sort_visit frames E defs) (def_names defs) [] of
             None \<Rightarrow> TooDeep
           | Some ordered \<Rightarrow> Sorted ordered))"

section \<open>What the check for cycles establishes\<close>

text \<open>In the list of finished names, latest first, every name comes before the names it depends on.\<close>

fun ranked :: "calculated_def list \<Rightarrow> string list \<Rightarrow> bool" where
  "ranked defs [] = True"
| "ranked defs (n # ns) \<longleftrightarrow>
     n \<notin> set ns \<and> set (graph_deps defs n) \<inter> set (def_names defs) \<subseteq> set ns \<and> ranked defs ns"

lemma cycle_visit_ranked:
  "cycle_visit defs active visited n = Inr v \<Longrightarrow> ranked defs visited \<Longrightarrow> set visited \<inter> set active = {} \<Longrightarrow>
     ranked defs v \<and> set v \<inter> set active = {} \<and> set visited \<subseteq> set v \<and> n \<in> set v"
  "cycle_visits defs active visited ns = Inr v \<Longrightarrow> ranked defs visited \<Longrightarrow> set visited \<inter> set active = {} \<Longrightarrow>
     ranked defs v \<and> set v \<inter> set active = {} \<and> set visited \<subseteq> set v \<and> set ns \<inter> set (def_names defs) \<subseteq> set v"
proof (induction defs active visited n and defs active visited ns arbitrary: v and v rule: cycle_visit_cycle_visits.induct)
  case (1 defs active visited n)
  show ?case
  proof (cases "n \<in> set visited")
    case True
    with "1.prems" show ?thesis by (auto split: if_splits)
  next
    case False
    with "1.prems"(1) obtain u where n: "n \<notin> set active"
      and u: "cycle_visits defs (n # active) visited (graph_deps defs n) = Inr u" and v: "v = n # u"
      by (auto simp: res_bind_eq_Inr_iff split: if_splits)
    have "set visited \<inter> set (n # active) = {}" using False "1.prems"(3) by auto
    from "1.IH" [OF n False u "1.prems"(2) this] n v show ?thesis by auto
  qed
next
  case (3 defs active visited d ds)
  show ?case
  proof (cases "d \<in> set (def_names defs)")
    case True
    with "3.prems"(1) obtain u where u: "cycle_visit defs active visited d = Inr u" "cycle_visits defs active u ds = Inr v"
      by (auto simp: res_bind_eq_Inr_iff)
    note a = "3.IH"(1) [OF True u(1) "3.prems"(2,3)]
    from "3.IH"(2) [OF True u(2)] a show ?thesis by auto
  next
    case False
    with "3.IH"(3) [OF False] "3.prems" show ?thesis by auto
  qed
qed auto

lemma detected_ranked:
  assumes "detect_formula_cycles defs = Inr v"
  shows "ranked defs v" "set (def_names defs) \<subseteq> set v"
  using cycle_visit_ranked(2) [of defs "[]" "[]" "def_names defs" v] assms by (auto simp: detect_formula_cycles_def)

definition depends :: "calculated_def list \<Rightarrow> string \<Rightarrow> string \<Rightarrow> bool" where
  "depends defs n m \<longleftrightarrow> m \<in> set (graph_deps defs n) \<inter> set (def_names defs)"

lemma ranked_depth:
  assumes "ranked defs v" "n \<in> set v" "depends defs n m"
  shows "m \<in> set v \<and> length (dropWhile (\<lambda>x. x \<noteq> m) v) < length (dropWhile (\<lambda>x. x \<noteq> n) v)"
  using assms
proof (induction v)
  case (Cons a v)
  have le: "length (dropWhile (\<lambda>x. x \<noteq> m) v) \<le> length v" by (simp add: length_dropWhile_le)
  show ?case
  proof (cases "a = n")
    case True
    then have "m \<in> set v" "m \<noteq> a" using Cons.prems by (auto simp: depends_def)
    with True le show ?thesis by simp
  next
    case False
    then have "m \<in> set v" "m \<noteq> a" using Cons by auto
    with Cons False show ?thesis by auto
  qed
qed simp

lemma cycle_visit_accepts:
  fixes r :: "string \<Rightarrow> nat"
  shows "\<forall>n m. depends defs n m \<longrightarrow> r m < r n \<Longrightarrow> \<forall>a \<in> set active. r n < r a \<Longrightarrow>
      \<exists>v. cycle_visit defs active visited n = Inr v"
    "\<forall>n m. depends defs n m \<longrightarrow> r m < r n \<Longrightarrow>
      \<forall>a \<in> set active. \<forall>m \<in> set ns \<inter> set (def_names defs). r m < r a \<Longrightarrow>
      \<exists>v. cycle_visits defs active visited ns = Inr v"
proof (induction defs active visited n and defs active visited ns rule: cycle_visit_cycle_visits.induct)
  case (1 defs active visited n)
  have out: "n \<notin> set active" using 1(3) by auto
  show ?case
  proof (cases "n \<in> set visited")
    case False
    have "r m < r a" if "a \<in> set (n # active)" "m \<in> set (graph_deps defs n) \<inter> set (def_names defs)" for a m
    proof -
      have "r m < r n" using 1(2) that(2) by (simp add: depends_def)
      with 1(3) that(1) show ?thesis by (auto dest: less_trans)
    qed
    then have "\<forall>a \<in> set (n # active). \<forall>m \<in> set (graph_deps defs n) \<inter> set (def_names defs). r m < r a" by blast
    from "1.IH" [OF out False 1(2) this] out False show ?thesis by auto
  qed (simp add: out)
next
  case (3 defs active visited d ds)
  show ?case
  proof (cases "d \<in> set (def_names defs)")
    case True
    from "3.IH"(1) [OF True 3(4)] 3(5) True obtain u where u: "cycle_visit defs active visited d = Inr u" by auto
    from "3.IH"(2) [OF True, of u] 3(4,5) u True show ?thesis by auto
  next
    case False
    with "3.IH"(3) [OF False 3(4)] 3(5) show ?thesis by auto
  qed
qed simp

lemma detect_iff_ranked:
  "(\<exists>v. detect_formula_cycles defs = Inr v) \<longleftrightarrow> (\<exists>r :: string \<Rightarrow> nat. \<forall>n m. depends defs n m \<longrightarrow> r m < r n)"
proof
  assume "\<exists>v. detect_formula_cycles defs = Inr v"
  then obtain v where v: "detect_formula_cycles defs = Inr v" by blast
  show "\<exists>r :: string \<Rightarrow> nat. \<forall>n m. depends defs n m \<longrightarrow> r m < r n"
  proof (intro exI allI impI)
    fix n m assume d: "depends defs n m"
    then have "n \<in> set (def_names defs)" by (metis IntD1 depends_def empty_iff empty_set graph_deps_outside)
    with ranked_depth [OF detected_ranked(1) [OF v] _ d] detected_ranked(2) [OF v]
    show "length (dropWhile (\<lambda>x. x \<noteq> m) v) < length (dropWhile (\<lambda>x. x \<noteq> n) v)" by blast
  qed
next
  assume "\<exists>r :: string \<Rightarrow> nat. \<forall>n m. depends defs n m \<longrightarrow> r m < r n"
  then obtain r :: "string \<Rightarrow> nat" where r: "\<And>n m. depends defs n m \<Longrightarrow> r m < r n" by blast
  show "\<exists>v. detect_formula_cycles defs = Inr v"
    unfolding detect_formula_cycles_def using r by (intro cycle_visit_accepts(2)) auto
qed

section \<open>What the sort returns\<close>

text \<open>Every field follows the fields its formula needs, and no field comes twice.\<close>

definition well_ordered :: "formula_engine \<Rightarrow> calculated_def list \<Rightarrow> calculated_def list \<Rightarrow> bool" where
  "well_ordered E defs os \<longleftrightarrow>
     distinct (def_names os) \<and> (\<forall>d \<in> set os. def_of defs (calc_name d) = Some d) \<and>
     (\<forall>i < length os. set (dependencies E defs (os ! i)) \<inter> set (def_names defs) \<subseteq> set (def_names (take i os)))"

lemma well_ordered_snoc:
  assumes "well_ordered E defs os" "calc_name d \<notin> set (def_names os)" "def_of defs (calc_name d) = Some d"
    and "set (dependencies E defs d) \<inter> set (def_names defs) \<subseteq> set (def_names os)"
  shows "well_ordered E defs (os @ [d])"
  using assms by (auto simp: well_ordered_def def_names_def nth_append less_Suc_eq)

lemma fold_option_grows:
  assumes "\<And>x s. x \<in> set xs \<Longrightarrow> P s \<Longrightarrow> \<exists>new. f x s = Some (s @ new) \<and> P (s @ new) \<and> Q x (s @ new) \<and> list_all R new"
    and "\<And>x s new. Q x s \<Longrightarrow> Q x (s @ new)" and "P s"
  shows "\<exists>new. fold_option f xs s = Some (s @ new) \<and> P (s @ new) \<and> (\<forall>x \<in> set xs. Q x (s @ new)) \<and> list_all R new"
  using assms(1,3)
proof (induction xs arbitrary: s)
  case Nil
  then show ?case by (intro exI [of _ "[]"]) simp
next
  case (Cons x xs)
  from Cons.prems(1) [of x s] Cons.prems(2) obtain a where
    a: "f x s = Some (s @ a)" "P (s @ a)" "Q x (s @ a)" "list_all R a" by auto
  from Cons.IH [OF _ a(2)] Cons.prems(1) obtain b where
    b: "fold_option f xs (s @ a) = Some ((s @ a) @ b)" "P ((s @ a) @ b)" "\<forall>y \<in> set xs. Q y ((s @ a) @ b)" "list_all R b"
    by (metis list.set_intros(2))
  from assms(2) [OF a(3), of b] a b show ?case by (intro exI [of _ "a @ b"]) simp
qed

lemma sort_visit_ok:
  assumes "\<And>n d m. def_of defs n = Some d \<Longrightarrow> m \<in> set (dependencies E defs d) \<inter> set (def_names defs) \<Longrightarrow> (r m :: nat) < r n"
  shows "n \<in> set (def_names defs) \<Longrightarrow> r n < frames \<Longrightarrow> well_ordered E defs os \<Longrightarrow>
    \<exists>new. sort_visit frames E defs n os = Some (os @ new) \<and> well_ordered E defs (os @ new)
      \<and> n \<in> set (def_names (os @ new)) \<and> list_all (\<lambda>d. r (calc_name d) \<le> r n) new"
proof (induction frames arbitrary: n os)
  case (Suc frames)
  show ?case
  proof (cases "n \<in> set (def_names os)")
    case True
    with Suc.prems show ?thesis by (intro exI [of _ "[]"]) simp
  next
    case False
    from Suc.prems(1) obtain d where d: "def_of defs n = Some d" by (metis def_of_None not_None_eq)
    then have name: "calc_name d = n" by (auto simp: def_of_def find_Some_iff)
    let ?f = "\<lambda>m acc. if m \<in> set (def_names defs) then sort_visit frames E defs m acc else Some acc"
    have "\<exists>new. ?f m s = Some (s @ new) \<and> well_ordered E defs (s @ new)
        \<and> (m \<in> set (def_names defs) \<longrightarrow> m \<in> set (def_names (s @ new))) \<and> list_all (\<lambda>d. r (calc_name d) < r n) new"
      if m: "m \<in> set (dependencies E defs d)" and s: "well_ordered E defs s" for m s
    proof (cases "m \<in> set (def_names defs)")
      case True
      with assms [OF d] m have lt: "r m < r n" by blast
      from Suc.IH [OF True _ s] lt Suc.prems(2) obtain new where new: "sort_visit frames E defs m s = Some (s @ new)"
        "well_ordered E defs (s @ new)" "m \<in> set (def_names (s @ new))" "list_all (\<lambda>d. r (calc_name d) \<le> r m) new" by auto
      from new(4) lt have "list_all (\<lambda>d. r (calc_name d) < r n) new" by (auto simp: list_all_iff)
      with new True show ?thesis by auto
    next
      case False
      with s show ?thesis by (intro exI [of _ "[]"]) simp
    qed
    from fold_option_grows [where P = "well_ordered E defs" and f = ?f and R = "\<lambda>d. r (calc_name d) < r n"
        and Q = "\<lambda>m s. m \<in> set (def_names defs) \<longrightarrow> m \<in> set (def_names s)", of "dependencies E defs d" os, OF this _ Suc.prems(3)]
    obtain new where new: "fold_option ?f (dependencies E defs d) os = Some (os @ new)" "well_ordered E defs (os @ new)"
      "\<forall>m \<in> set (dependencies E defs d). m \<in> set (def_names defs) \<longrightarrow> m \<in> set (def_names (os @ new))"
      "list_all (\<lambda>d. r (calc_name d) < r n) new" by (auto simp: def_names_def)
    from new(4) False name have "calc_name d \<notin> set (def_names (os @ new))"
      by (auto simp: def_names_def list_all_iff)
    with new d name have "well_ordered E defs ((os @ new) @ [d])"
      by (intro well_ordered_snoc) auto
    moreover have "list_all (\<lambda>d. r (calc_name d) \<le> r n) (new @ [d])" using new(4) name by (auto simp: list_all_iff)
    ultimately show ?thesis
      using False d new(1) name by (intro exI [of _ "new @ [d]"]) (simp add: def_names_def)
  qed
qed simp

text \<open>What is asked of the order of a set, and of the declared dependencies: the validator of a schema compares them.\<close>

definition orders_sets :: "formula_engine \<Rightarrow> bool" where
  "orders_sets E \<longleftrightarrow> (\<forall>ns. set (set_order E ns) = set ns)"

definition declared_dependencies :: "formula_engine \<Rightarrow> calculated_def list \<Rightarrow> bool" where
  "declared_dependencies E defs \<longleftrightarrow>
     (\<forall>d \<in> set defs. set (dependencies E defs d) \<inter> set (def_names defs) \<subseteq> set (calc_depends_on d))"

lemma def_of_member: "distinct (def_names defs) \<Longrightarrow> d \<in> set defs \<Longrightarrow> def_of defs (calc_name d) = Some d"
  unfolding def_of_def def_names_def
proof (induction defs)
  case (Cons e defs)
  have app: "find P (xs @ ys) = (case find P xs of None \<Rightarrow> find P ys | Some x \<Rightarrow> Some x)" for P and xs ys :: "calculated_def list"
    by (induction xs) auto
  show ?case
  proof (cases "d = e")
    case True
    from True Cons.prems(1) have "find (\<lambda>x. calc_name x = calc_name d) (rev defs) = None"
      by (auto simp: find_None_iff image_iff)
    with True show ?thesis by (simp add: app)
  qed (use Cons in \<open>auto simp: app\<close>)
qed simp

lemma def_of_SomeD: "def_of defs n = Some d \<Longrightarrow> d \<in> set defs \<and> calc_name d = n"
  by (auto simp: def_of_def find_Some_iff) (metis length_rev nth_mem set_rev)

lemma sort_outcome_ok:
  assumes "distinct (def_names defs)" "declared_dependencies E defs" "length defs < frames"
    and "detect_formula_cycles defs = Inr v"
  shows "\<exists>os. topologically_sort_calculated_fields E frames defs = Sorted os \<and> well_ordered E defs os \<and> mset os = mset defs"
proof -
  from assms(4) obtain q :: "string \<Rightarrow> nat" where q: "\<forall>n m. depends defs n m \<longrightarrow> q m < q n"
    using detect_iff_ranked [of defs] by auto
  define r where "r n = card {m \<in> set (def_names defs). q m < q n}" for n
  have low: "r n < frames" if "n \<in> set (def_names defs)" for n
  proof -
    have "{m \<in> set (def_names defs). q m < q n} \<subset> set (def_names defs)" using that by blast
    then have "r n < card (set (def_names defs))" unfolding r_def by (rule psubset_card_mono [rotated]) simp
    also have "\<dots> \<le> length defs" by (metis card_length def_names_def length_map)
    finally show ?thesis using assms(3) by simp
  qed
  have less: "r m < r n" if d: "def_of defs n = Some d" and m: "m \<in> set (dependencies E defs d) \<inter> set (def_names defs)" for n d m
  proof -
    from d m assms(2) have "depends defs n m"
      using def_of_SomeD [OF d] by (auto simp: declared_dependencies_def depends_def graph_deps_def)
    with q have "q m < q n" by blast
    with m have "{k \<in> set (def_names defs). q k < q m} \<subset> {k \<in> set (def_names defs). q k < q n}" by force
    then show ?thesis unfolding r_def by (rule psubset_card_mono [rotated]) simp
  qed
  have "\<exists>new. fold_option (sort_visit frames E defs) (def_names defs) [] = Some ([] @ new) \<and> well_ordered E defs ([] @ new)
    \<and> (\<forall>n \<in> set (def_names defs). n \<in> set (def_names ([] @ new))) \<and> list_all (\<lambda>d. True) new"
  proof (rule fold_option_grows [where P = "well_ordered E defs" and Q = "\<lambda>n s. n \<in> set (def_names s)"])
    fix n s assume "n \<in> set (def_names defs)" "well_ordered E defs s"
    have "\<exists>new. sort_visit frames E defs n s = Some (s @ new) \<and> well_ordered E defs (s @ new)
      \<and> n \<in> set (def_names (s @ new)) \<and> list_all (\<lambda>d. r (calc_name d) \<le> r n) new"
      by (rule sort_visit_ok) (fact less | fact | rule low, fact)+
    then show "\<exists>new. sort_visit frames E defs n s = Some (s @ new) \<and> well_ordered E defs (s @ new)
      \<and> n \<in> set (def_names (s @ new)) \<and> list_all (\<lambda>d. True) new"
      by (simp add: list_all_iff) blast
  qed (simp_all add: well_ordered_def def_names_def)
  then obtain os where os: "fold_option (sort_visit frames E defs) (def_names defs) [] = Some os" "well_ordered E defs os"
    "set (def_names defs) \<subseteq> set (def_names os)" by auto
  have "set os = set defs"
  proof
    show "set os \<subseteq> set defs" using os(2) def_of_SomeD by (auto simp: well_ordered_def)
    show "set defs \<subseteq> set os"
    proof
      fix d assume d: "d \<in> set defs"
      with os(3) have "calc_name d \<in> set (def_names os)" by (auto simp: def_names_def)
      then obtain e where e: "e \<in> set os" "calc_name e = calc_name d" by (auto simp: def_names_def)
      with os(2) have "def_of defs (calc_name d) = Some e" by (metis well_ordered_def)
      with def_of_member [OF assms(1) d] e show "d \<in> set os" by simp
    qed
  qed
  moreover have "distinct os" "distinct defs"
    using os(2) assms(1) by (auto simp: well_ordered_def def_names_def distinct_map)
  ultimately have "mset os = mset defs" by (simp add: set_eq_iff_mset_eq_distinct)
  with os assms(4) show ?thesis by (simp add: topologically_sort_calculated_fields_def)
qed

section \<open>Evaluating one field\<close>

text \<open>The context is the dictionary of the values so far, an errors list and a notes list are returned.\<close>

definition apply_error_handling :: "flag_policy \<Rightarrow> string \<Rightarrow> string \<Rightarrow> string list \<times> string list" where
  "apply_error_handling policy flagged note =
     (case policy of FlagReview \<Rightarrow> ([flagged], []) | ReturnNull \<Rightarrow> ([], [note]))"

definition missing_input :: "calculated_def \<Rightarrow> string list \<times> string list" where
  "missing_input d =
     apply_error_handling (on_missing_input d) ''Missing input.'' ''Missing input returned null by policy.''"

definition formula_failure :: "calculated_def \<Rightarrow> string \<Rightarrow> string list \<times> string list" where
  "formula_failure d m =
     (if m = ''Attribute access is only supported on structured field values.'' then missing_input d else ([m], []))"

definition run_formula ::
    "formula_engine \<Rightarrow> string set \<Rightarrow> json obj \<Rightarrow> calculated_def \<Rightarrow> (json \<times> string list \<times> string list) option" where
  "run_formula E available context d =
     (case validate_formula E (calc_formula d) available of
        Inl m \<Rightarrow> Some (JNull, formula_failure d m)
      | Inr _ \<Rightarrow>
          (case evaluation E (calc_formula d) context of
             Evaluated v \<Rightarrow> Some (v, [], [])
           | DividedByZero \<Rightarrow> Some (JNull, apply_error_handling (on_divide_by_zero d) ''Division by zero.''
               ''Division by zero returned null by policy.'')
           | TypeFailure \<Rightarrow> Some (JNull, missing_input d)
           | FormulaFailure m \<Rightarrow> Some (JNull, formula_failure d m)
           | Uncaught \<Rightarrow> None))"

text \<open>
  \<open>Decimal(str(value)).quantize(Decimal("0.01"), ROUND_HALF_UP)\<close>: the shortest decimal of the double, to two
  places, halves away from zero. It raises for a boolean, for infinities and above 28 digits.
\<close>

definition cents :: "rat \<Rightarrow> rat option" where
  "cents x =
     (let dec = (if x = 0 then 0 else dec_value (shortest 17 \<bar>x\<bar> (dec_exp \<bar>x\<bar> - 1)));
          n = \<lfloor>dec * 100 + 1 / 2\<rfloor>
      in if n \<ge> 10 ^ 28 then None else Some (sgn x * of_int n / 100))"

definition normalize_calculated_output :: "calculated_def \<Rightarrow> json \<Rightarrow> json option" where
  "normalize_calculated_output d v =
     (let money = (\<lambda>n. JObj [(''amount'', JNum n), (''currency'', JStr (str_or (calc_currency d) ''USD''))]) in
      if calc_output_type d = ''currency'' then
        (case v of
           JNum (Num x) \<Rightarrow> map_option (\<lambda>c. money (to_double c)) (cents x)
         | JNum NaN \<Rightarrow> Some (money NaN)
         | JNum _ \<Rightarrow> None
         | JBool _ \<Rightarrow> None
         | _ \<Rightarrow> Some v)
      else Some v)"

text \<open>Comparing a value with a bound: \<open>None\<close> is the \<open>TypeError\<close> of a value that is no number.\<close>

definition python_number :: "json \<Rightarrow> jsnum option" where
  "python_number v = (case v of JNum n \<Rightarrow> Some n | JBool b \<Rightarrow> Some (Num (if b then 1 else 0)) | _ \<Rightarrow> None)"

definition outside :: "(jsnum \<Rightarrow> jsnum \<Rightarrow> bool) \<Rightarrow> json \<Rightarrow> jsnum option \<Rightarrow> bool option" where
  "outside beyond candidate bound =
     (case bound of
        None \<Rightarrow> Some False
      | Some m \<Rightarrow> if candidate = JNull then Some False else map_option (\<lambda>n. beyond n m) (python_number candidate))"

definition calculated_candidate :: "json \<Rightarrow> json" where
  "calculated_candidate v = coalesce (property v ''amount'') v"

definition value_problems :: "json \<Rightarrow> bool \<Rightarrow> bool \<Rightarrow> bool \<Rightarrow> string list" where
  "value_problems v allow_null low high =
     (if v = JNull \<and> \<not> allow_null then [''Calculated value is null.''] else [])
     @ (if low then [''Calculated value is below minimum.''] else [])
     @ (if high then [''Calculated value is above maximum.''] else [])"

definition validate_calculated_field :: "review_field \<Rightarrow> bool \<Rightarrow> jsnum option \<Rightarrow> jsnum option \<Rightarrow> review_field option" where
  "validate_calculated_field result allow_null min_value max_value =
     (let v = coalesce (calculated_value result) JNull; candidate = calculated_candidate v in
      Option.bind (outside num_less candidate min_value) (\<lambda>low.
      Option.bind (outside (\<lambda>a b. num_less b a) candidate max_value) (\<lambda>high.
        let errors = validation_errors result @ value_problems v allow_null low high
        in Some (result\<lparr>validation_errors := errors,
             validation_status := (if errors = [] then ''valid'' else ''invalid''),
             requires_review := (requires_review result \<or> errors \<noteq> [])\<rparr>))))"

definition build_calculation_notes :: "string list \<Rightarrow> string" where
  "build_calculation_notes notes = js_join '' '' (''Deterministic formula evaluation.'' # notes)"

definition calculated_result :: "calculated_def \<Rightarrow> json \<Rightarrow> string list \<Rightarrow> string list \<Rightarrow> review_field" where
  "calculated_result d v errors notes =
     \<lparr>field_name = calc_name d, field_label = calc_label d, field_kind = Calculated, data_type = None,
      output_type = Some (calc_output_type d), extracted_value = None, normalized_value = None,
      calculated_value = Some v, confidence_score = None, source_text = None, char_start = None, char_end = None,
      page_number = None, location_reference = None, validation_status = ''pending'', validation_errors = errors,
      extraction_notes = None, calculation_notes = Some (build_calculation_notes notes),
      requires_review = (errors \<noteq> [] \<or> calc_requires_review d)\<rparr>"

definition evaluate_field :: "formula_engine \<Rightarrow> string set \<Rightarrow> json obj \<Rightarrow> calculated_def \<Rightarrow> review_field option" where
  "evaluate_field E available context d =
     Option.bind (run_formula E available context d) (\<lambda>(value, errors, notes).
     Option.bind (normalize_calculated_output d value) (\<lambda>v.
       validate_calculated_field (calculated_result d v errors notes) (calc_allow_null d) (calc_min d) (calc_max d)))"

section \<open>Evaluating them all\<close>

primrec evaluate_each ::
    "formula_engine \<Rightarrow> string set \<Rightarrow> json obj \<Rightarrow> calculated_def list \<Rightarrow> review_field list option" where
  "evaluate_each E available context [] = Some []"
| "evaluate_each E available context (d # ds) =
     Option.bind (evaluate_field E available context d) (\<lambda>r.
       map_option (\<lambda>rs. r # rs)
         (evaluate_each E available (obj_put (calc_name d) (coalesce (calculated_value r) JNull) context) ds))"

definition extracted_context :: "review_field list \<Rightarrow> json obj" where
  "extracted_context found = from_entries (map (\<lambda>f. (field_name f, coalesce (normalized_value f) JNull)) found)"

definition evaluate_calculated_fields ::
    "formula_engine \<Rightarrow> nat \<Rightarrow> calculated_def list \<Rightarrow> review_field list \<Rightarrow> review_field list option" where
  "evaluate_calculated_fields E frames defs found =
     (case topologically_sort_calculated_fields E frames defs of
        Sorted ordered \<Rightarrow>
          evaluate_each E (set (map field_name found) \<union> set (def_names defs)) (extracted_context found) ordered
      | _ \<Rightarrow> None)"

lemma validated_field:
  assumes "validate_calculated_field f allow low high = Some r"
  shows "field_name r = field_name f"
    "requires_review r \<longleftrightarrow> requires_review f \<or> validation_errors r \<noteq> []"
    "validation_status r = (if validation_errors r = [] then ''valid'' else ''invalid'')"
    "calculated_value r = calculated_value f" "set (validation_errors f) \<subseteq> set (validation_errors r)"
  using assms by (auto simp: validate_calculated_field_def Let_def bind_eq_Some_conv)

lemma evaluate_field_flags:
  assumes "evaluate_field E available context d = Some r"
  shows "field_name r = calc_name d" "requires_review r \<longleftrightarrow> validation_errors r \<noteq> [] \<or> calc_requires_review d"
    "validation_status r = (if validation_errors r = [] then ''valid'' else ''invalid'')"
proof -
  from assms obtain v es ns where
    v: "validate_calculated_field (calculated_result d v es ns) (calc_allow_null d) (calc_min d) (calc_max d) = Some r"
    by (auto simp: evaluate_field_def bind_eq_Some_conv)
  note r = validated_field [OF v]
  show "field_name r = calc_name d" "validation_status r = (if validation_errors r = [] then ''valid'' else ''invalid'')"
    using r(1,3) by (simp_all add: calculated_result_def)
  show "requires_review r \<longleftrightarrow> validation_errors r \<noteq> [] \<or> calc_requires_review d"
    using r(2,5) by (auto simp: calculated_result_def)
qed

section \<open>The order of sets does not matter\<close>

text \<open>A formula reads its context through its identifiers only (\<open>SafeEvaluator.visit_Name\<close>).\<close>

definition reads_identifiers :: "formula_engine \<Rightarrow> bool" where
  "reads_identifiers E \<longleftrightarrow>
     (\<forall>f ids c c'. identifiers E f = Inr ids \<longrightarrow> (\<forall>n \<in> set ids. obj_get c n = obj_get c' n) \<longrightarrow> evaluation E f c = evaluation E f c')"

definition value_of_result :: "review_field \<Rightarrow> json" where
  "value_of_result r = coalesce (calculated_value r) JNull"

lemma evaluate_field_agree:
  assumes "reads_identifiers E"
    and "\<And>ids n. identifiers E (calc_formula d) = Inr ids \<Longrightarrow> n \<in> set ids \<Longrightarrow> obj_get c n = obj_get c' n"
  shows "evaluate_field E available c d = evaluate_field E available c' d"
proof (cases "identifiers E (calc_formula d)")
  case (Inl m)
  then show ?thesis by (simp add: evaluate_field_def run_formula_def validate_formula_def)
next
  case (Inr ids)
  with assms have "evaluation E (calc_formula d) c = evaluation E (calc_formula d) c'"
    unfolding reads_identifiers_def by blast
  then show ?thesis by (simp add: evaluate_field_def run_formula_def split: sum.split)
qed

lemma needed_before:
  assumes "well_ordered E defs (ps @ d # ds)" "mset (ps @ d # ds) = mset defs" "orders_sets E"
    and "identifiers E (calc_formula d) = Inr ids" "n \<in> set ids" "n \<in> set (def_names defs)"
  shows "n \<in> set (def_names ps)"
proof -
  from assms(3-6) have "n \<in> set (dependencies E defs d) \<inter> set (def_names defs)"
    by (simp add: dependencies_def collect_formula_references_def orders_sets_def)
  moreover have "set (dependencies E defs ((ps @ d # ds) ! length ps)) \<inter> set (def_names defs)
      \<subseteq> set (def_names (take (length ps) (ps @ d # ds)))"
    using assms(1) by (simp add: well_ordered_def del: nth_append_length take_append)
  ultimately show ?thesis by auto
qed

lemma same_reading:
  assumes "well_ordered E defs (ps @ d # ds)" "mset (ps @ d # ds) = mset defs" "orders_sets E" "reads_identifiers E"
    and "\<And>n. n \<notin> set (def_names (d # ds)) \<Longrightarrow> obj_get c n = obj_get c' n"
  shows "evaluate_field E available c d = evaluate_field E available c' d"
proof (rule evaluate_field_agree [OF assms(4)])
  fix ids n assume n: "identifiers E (calc_formula d) = Inr ids" "n \<in> set ids"
  have names: "set (def_names defs) = set (def_names (ps @ d # ds))"
    using mset_eq_setD [OF assms(2)] unfolding def_names_def by (metis set_map)
  have "n \<in> set (def_names defs) \<Longrightarrow> n \<in> set (def_names ps)"
    by (rule needed_before [OF assms(1-3) n])
  moreover have "distinct (def_names (ps @ d # ds))" using assms(1) by (simp add: well_ordered_def)
  ultimately have "n \<notin> set (def_names (d # ds))" using names by (auto simp: def_names_def)
  then show "obj_get c n = obj_get c' n" by (rule assms(5))
qed

lemma evaluate_each_context:
  assumes "orders_sets E" "reads_identifiers E"
  shows "well_ordered E defs (ps @ ds) \<Longrightarrow> mset (ps @ ds) = mset defs \<Longrightarrow> evaluate_each E available c ds = Some rs \<Longrightarrow>
    \<exists>full. (\<forall>n. n \<notin> set (def_names ds) \<longrightarrow> obj_get full n = obj_get c n)
      \<and> list_all2 (\<lambda>d r. evaluate_field E available full d = Some r \<and> obj_get full (calc_name d) = Some (value_of_result r)) ds rs"
proof (induction ds arbitrary: ps c rs)
  case (Cons d ds)
  let ?put = "\<lambda>r. obj_put (calc_name d) (value_of_result r) c"
  from Cons.prems(3) obtain r rs' where r: "evaluate_field E available c d = Some r"
    and rs: "evaluate_each E available (?put r) ds = Some rs'" "rs = r # rs'"
    by (auto simp: bind_eq_Some_conv value_of_result_def)
  from Cons.IH [of "ps @ [d]", OF _ _ rs(1)] Cons.prems(1,2) obtain full where
    full: "\<forall>n. n \<notin> set (def_names ds) \<longrightarrow> obj_get full n = obj_get (?put r) n"
    and each: "list_all2 (\<lambda>d r. evaluate_field E available full d = Some r \<and> obj_get full (calc_name d) = Some (value_of_result r)) ds rs'"
    by auto
  have "evaluate_field E available full d = evaluate_field E available c d"
    by (rule same_reading [OF Cons.prems(1,2) assms]) (use full in \<open>simp add: def_names_def get_obj_put\<close>)
  moreover have "calc_name d \<notin> set (def_names ds)"
    using Cons.prems(1) by (simp add: well_ordered_def def_names_def)
  ultimately show ?case
    using full each r rs(2) by (intro exI [of _ full]) (auto simp: def_names_def get_obj_put)
qed auto

lemma evaluate_each_from_context:
  assumes "orders_sets E" "reads_identifiers E"
  shows "well_ordered E defs (ps @ ds) \<Longrightarrow> mset (ps @ ds) = mset defs \<Longrightarrow>
    \<forall>n. n \<notin> set (def_names ds) \<longrightarrow> obj_get c n = obj_get full n \<Longrightarrow>
    \<forall>d \<in> set ds. evaluate_field E available full d = Some (R d) \<and> obj_get full (calc_name d) = Some (value_of_result (R d)) \<Longrightarrow>
    evaluate_each E available c ds = Some (map R ds)"
proof (induction ds arbitrary: ps c)
  case (Cons d ds)
  have "evaluate_field E available c d = evaluate_field E available full d"
    by (rule same_reading [OF Cons.prems(1,2) assms]) (use Cons.prems(3) in blast)
  moreover have "evaluate_each E available (obj_put (calc_name d) (value_of_result (R d)) c) ds = Some (map R ds)"
    by (rule Cons.IH [of "ps @ [d]"]) (use Cons.prems in \<open>auto simp: def_names_def get_obj_put\<close>)
  ultimately show ?case using Cons.prems(4) by (simp add: value_of_result_def)
qed simp

lemma evaluation_order_irrelevant:
  assumes "orders_sets E" "reads_identifiers E" "well_ordered E defs os" "mset os = mset defs"
    and "well_ordered E defs os'" "mset os' = mset defs" "evaluate_each E available c os = Some rs"
  shows "\<exists>rs'. evaluate_each E available c os' = Some rs' \<and> mset rs' = mset rs"
proof -
  from evaluate_each_context [OF assms(1,2), of defs "[]" os available c rs] assms(3,4,7) obtain full where
    full: "\<forall>n. n \<notin> set (def_names os) \<longrightarrow> obj_get full n = obj_get c n"
    and each: "list_all2 (\<lambda>d r. evaluate_field E available full d = Some r \<and> obj_get full (calc_name d) = Some (value_of_result r)) os rs"
    by auto
  define R where "R d = the (evaluate_field E available full d)" for d
  from each have rs: "rs = map R os"
    by (induction rule: list_all2_induct) (auto simp: R_def)
  from each have each': "\<forall>d \<in> set os. evaluate_field E available full d = Some (R d) \<and> obj_get full (calc_name d) = Some (value_of_result (R d))"
    by (induction rule: list_all2_induct) (auto simp: R_def)
  have same: "set os' = set os" using assms(4,6) by (metis mset_eq_setD)
  have "evaluate_each E available c os' = Some (map R os')"
    by (rule evaluate_each_from_context [OF assms(1,2), of defs "[]"])
      (use assms(5,6) full each' same in \<open>auto simp: def_names_def\<close>)
  moreover have "mset (map R os') = mset rs" using assms(4,6) rs by simp
  ultimately show ?thesis by blast
qed

lemma well_ordered_cong:
  assumes "orders_sets E" "orders_sets (E\<lparr>set_order := g\<rparr>)"
  shows "well_ordered (E\<lparr>set_order := g\<rparr>) defs os = well_ordered E defs os"
    "declared_dependencies (E\<lparr>set_order := g\<rparr>) defs = declared_dependencies E defs"
proof -
  have "set (dependencies (E\<lparr>set_order := g\<rparr>) defs d) = set (dependencies E defs d)" for d
    using assms by (simp add: dependencies_def orders_sets_def collect_formula_references_def)
  then show "well_ordered (E\<lparr>set_order := g\<rparr>) defs os = well_ordered E defs os"
    "declared_dependencies (E\<lparr>set_order := g\<rparr>) defs = declared_dependencies E defs"
    by (simp_all add: well_ordered_def declared_dependencies_def)
qed

text \<open>
  The results do not depend on the order of the sets, for an engine that reads its context through the identifiers of a
  formula only. The schema is one the server accepts: its names differ and the declared dependencies cover the
  references.
\<close>

lemma evaluation_same_in_any_order:
  assumes "distinct (def_names defs)" "declared_dependencies E defs" "length defs < frames"
    and "orders_sets E" "orders_sets (E\<lparr>set_order := g\<rparr>)" "reads_identifiers E"
    and "evaluate_calculated_fields E frames defs found = Some rs"
  shows "\<exists>rs'. evaluate_calculated_fields (E\<lparr>set_order := g\<rparr>) frames defs found = Some rs' \<and> mset rs' = mset rs"
proof -
  let ?E = "E\<lparr>set_order := g\<rparr>"
  from assms(7) obtain v where v: "detect_formula_cycles defs = Inr v"
    by (auto simp: evaluate_calculated_fields_def topologically_sort_calculated_fields_def split: sum.splits)
  from sort_outcome_ok [OF assms(1-3) v] obtain os where
    os: "topologically_sort_calculated_fields E frames defs = Sorted os" "well_ordered E defs os" "mset os = mset defs" by blast
  have "declared_dependencies ?E defs" using assms(2) well_ordered_cong [OF assms(4,5)] by simp
  from sort_outcome_ok [OF assms(1) this assms(3) v] obtain os' where
    os': "topologically_sort_calculated_fields ?E frames defs = Sorted os'" "well_ordered ?E defs os'" "mset os' = mset defs" by blast
  have field: "evaluate_field ?E available c d = evaluate_field E available c d" for available c d
    by (simp add: evaluate_field_def run_formula_def validate_formula_def split: sum.split)
  have eval: "evaluate_each ?E available c ds = evaluate_each E available c ds" for available c ds
    by (induction ds arbitrary: c) (simp_all add: field)
  from evaluation_order_irrelevant [OF assms(4,6) os(2,3), of os'] os' os(1) assms(7) well_ordered_cong [OF assms(4,5)]
  show ?thesis by (simp add: evaluate_calculated_fields_def eval)
qed

definition sum_values :: "json option list \<Rightarrow> evaluation" where
  "sum_values vs =
     (if list_all (\<lambda>v. case v of Some (JNum n) \<Rightarrow> True | _ \<Rightarrow> False) vs
      then Evaluated (JNum (foldl (\<lambda>s v. case v of Some (JNum n) \<Rightarrow> num_add s n | _ \<Rightarrow> s) (Num 0) vs)) else TypeFailure)"

definition sum_engine :: formula_engine where
  "sum_engine =
     \<lparr>identifiers = (\<lambda>f. Inr (js_split CHR ''+'' f)),
      evaluation = (\<lambda>f c. sum_values (map (obj_get c) (js_split CHR ''+'' f))), set_order = (\<lambda>ns. ns)\<rparr>"

definition sum_def :: "string \<Rightarrow> string \<Rightarrow> string list \<Rightarrow> bool \<Rightarrow> calculated_def" where
  "sum_def n f ds flagged =
     \<lparr>calc_name = n, calc_label = n, calc_output_type = ''number'', calc_formula = f, calc_depends_on = ds,
      calc_currency = None, calc_allow_null = True, calc_min = None, calc_max = None, on_divide_by_zero = FlagReview,
      on_missing_input = FlagReview, calc_requires_review = flagged\<rparr>"

definition sample_calculations :: "calculated_def list" where
  "sample_calculations = [sum_def ''total'' ''tax+net'' [''net'', ''tax''] False, sum_def ''tax'' ''rate'' [''rate''] True]"

lemma sum_engine_ok: "reads_identifiers sum_engine" "orders_sets sum_engine" "orders_sets (sum_engine\<lparr>set_order := rev\<rparr>)"
proof -
  show "reads_identifiers sum_engine"
    unfolding reads_identifiers_def
  proof (intro allI impI)
    fix f ids and c c' :: "json obj"
    assume "identifiers sum_engine f = Inr ids" "\<forall>n \<in> set ids. obj_get c n = obj_get c' n"
    then have "map (obj_get c) (js_split CHR ''+'' f) = map (obj_get c') (js_split CHR ''+'' f)" by (simp add: sum_engine_def)
    then show "evaluation sum_engine f c = evaluation sum_engine f c'" by (simp only: sum_engine_def formula_engine.select_convs)
  qed
qed (simp_all add: orders_sets_def sum_engine_def)

lemma sample_calculations_ok:
  "distinct (def_names sample_calculations)" "declared_dependencies sum_engine sample_calculations"
  by code_simp+

end
