(* ===== verification/SchemaContract.thy ===== *)
theory SchemaContract
  imports Calculations AppHandlers "HOL-Library.Char_ord" "HOL-Library.List_Lexorder"
begin

text \<open>
  What the server asks of a schema before it stores it or runs it, the validators of \<open>ExtractionTemplate\<close>
  in \<open>shared/extraction_core/models.py\<close>, and how that contract fits what the app builds and checks itself:
  the payload of the schema page and the readiness check of the run button.

  A body is the JSON of a definition as the app posts it. Where the app's own types leave an entry out that the
  server reads, \<open>schema_body\<close> holds it beside the definition: the description and the dependencies of each
  calculated field and the names not usable in formulas. The check of a JSON schema is that of a library, an argument.
  The messages name the check that failed; the positions and lists that the code prints after some of them are left out.
\<close>

section \<open>Reading the body\<close>

text \<open>The white space that Python's \<open>strip\<close> removes, below 256.\<close>

definition py_space :: "char \<Rightarrow> bool" where
  "py_space c \<longleftrightarrow> js_space c \<or> c \<in> {CHR 0x1C, CHR 0x1D, CHR 0x1E, CHR 0x1F, CHR 0x85}"

definition py_blank :: "string \<Rightarrow> bool" where
  "py_blank s \<longleftrightarrow> list_all py_space s"

definition DATA_TYPES :: "string list" where
  "DATA_TYPES =
     [''text'', ''paragraph'', ''number'', ''currency'', ''percentage'', ''date'', ''boolean'', ''category'',
      ''multi_select'', ''unit_value'', ''structured_object'', ''table'', ''list'', ''json_object'', ''citation_backed_answer'', ''calculated'']"

record calculated_body =
  calculated_entry :: template_calculated
  body_description :: "string option"
  body_depends_on :: "string list option"
  body_currency :: "string option"
  body_allow_null :: "bool option"
  body_min :: "jsnum option"
  body_max :: "jsnum option"
  body_on_divide_by_zero :: "flag_policy option"
  body_on_missing_input :: "flag_policy option"
  body_requires_review :: "bool option"

record schema_body =
  body_definition :: template_definition
  body_calculated :: "calculated_body list"
  blocked_names :: "string list"

datatype schema_answer = Accepted | Refused string | Crashed

definition parse_calculated :: "calculated_body \<Rightarrow> calculated_def result" where
  "parse_calculated b =
     (let c = calculated_entry b in
      if body_description b = None then Inl ''Field required''
      else if calculated_output_type c \<notin> set DATA_TYPES then Inl ''Input should be a data type''
      else Inr
        \<lparr>calc_name = calculated_name c, calc_label = calculated_label c, calc_output_type = calculated_output_type c,
         calc_formula = formula c, calc_depends_on = coalesce (body_depends_on b) [], calc_currency = body_currency b,
         calc_allow_null = coalesce (body_allow_null b) True, calc_min = body_min b, calc_max = body_max b,
         on_divide_by_zero = coalesce (body_on_divide_by_zero b) FlagReview,
         on_missing_input = coalesce (body_on_missing_input b) FlagReview,
         calc_requires_review = coalesce (body_requires_review b) False\<rparr>)"

definition parse_field :: "(json obj \<Rightarrow> bool) \<Rightarrow> template_field \<Rightarrow> unit result" where
  "parse_field valid_schema f =
     (if field_def_description f = None then Inl ''Field required''
      else if field_def_type f \<notin> set DATA_TYPES then Inl ''Input should be a data type''
      else case or_else (schema f) (field_schema f) of
        None \<Rightarrow> Inr ()
      | Some s \<Rightarrow> if valid_schema s then Inr () else Inl ''Field schema is not a valid JSON Schema'')"

definition uses_langextract_provider :: "provider_settings \<Rightarrow> bool" where
  "uses_langextract_provider p \<longleftrightarrow>
     provider_type p = ''langextract'' \<or> coalesce (api_style p) MockStyle = LangextractStyle"

definition validate_langextract_constraints :: "provider_settings \<Rightarrow> unit result" where
  "validate_langextract_constraints p =
     (if \<not> uses_langextract_provider p then Inr ()
      else if provider_type p \<noteq> ''langextract'' \<or> coalesce (api_style p) MockStyle \<noteq> LangextractStyle then
        Inl ''LangExtract requires provider_type and api_style to both be set to 'langextract'.''
      else if mode p \<noteq> Local then Inl ''LangExtract only supports local mode.''
      else if allow_external_processing p then Inl ''LangExtract must keep allow_external_processing disabled.''
      else Inr ())"

section \<open>The contracts\<close>

definition validate_unique_names :: "string list \<Rightarrow> string list \<Rightarrow> unit result" where
  "validate_unique_names extracted calculated =
     (if distinct (extracted @ calculated) then Inr ()
      else Inl ''Field names must be unique across extracted and calculated fields.'')"

definition names_text :: "string list \<Rightarrow> string" where
  "names_text ns = js_join '', '' (sort (remdups ns))"

definition validate_calculated_field_def ::
    "formula_engine \<Rightarrow> string set \<Rightarrow> string set \<Rightarrow> calculated_def \<Rightarrow> unit result" where
  "validate_calculated_field_def E all_names blocked d =
     (let available = all_names - blocked;
          invalid = (\<lambda>m. ''Calculated field '' @ calc_name d @ '' formula is invalid: '' @ m) in
      case validate_formula E (calc_formula d) all_names of
        Inl m \<Rightarrow> Inl (invalid m)
      | Inr _ \<Rightarrow>
          res_bind (collect_formula_references E (calc_formula d) all_names) (\<lambda>refs.
            if \<exists>n \<in> set refs. n \<in> blocked then
              Inl (''Calculated field '' @ calc_name d @ '' references extracted fields that are not usable in formulas: ''
                @ names_text (filter (\<lambda>n. n \<in> blocked) refs) @ ''.'')
            else case validate_formula E (calc_formula d) available of
              Inl m \<Rightarrow> Inl (invalid m)
            | Inr _ \<Rightarrow>
                res_bind (collect_formula_references E (calc_formula d) available) (\<lambda>used.
                  if sort (calc_depends_on d) = sort used then Inr ()
                  else Inl (''Calculated field '' @ calc_name d @ '' depends_on must match referenced fields.''))))"

definition validate_calculated_field_contract ::
    "formula_engine \<Rightarrow> nat \<Rightarrow> string list \<Rightarrow> string list \<Rightarrow> calculated_def list \<Rightarrow> schema_answer" where
  "validate_calculated_field_contract E frames extracted blocked defs =
     (case map_res (\<lambda>_. validate_calculated_field_def E (set extracted \<union> set (def_names defs)) (set blocked - set (def_names defs))) defs of
        Inl m \<Rightarrow> Refused m
      | Inr _ \<Rightarrow>
          (case topologically_sort_calculated_fields E frames defs of
             Sorted _ \<Rightarrow> Accepted
           | Cyclic m \<Rightarrow> Refused (''Calculated field dependency graph is invalid: '' @ m)
           | TooDeep \<Rightarrow> Crashed))"

definition unknown_class :: "template_definition \<Rightarrow> string option" where
  "unknown_class d =
     find (\<lambda>c. c \<notin> set (field_names d))
       (concat (config_classes (coalesce (Option.bind (definition_langextract_config d) config_examples) [])))"

definition validate_langextract_contract :: "template_definition \<Rightarrow> unit result" where
  "validate_langextract_contract d =
     (if \<not> uses_langextract_provider (llm_provider_settings d) then Inr ()
      else case definition_langextract_config d of
        None \<Rightarrow> Inl ''LangExtract templates require langextract_config.''
      | Some c \<Rightarrow>
          let examples = coalesce (config_examples c) []; classes = concat (config_classes examples);
              missing = filter (\<lambda>n. n \<notin> set classes) (required_names d) in
          if py_blank (coalesce (prompt_description c) []) then
            Inl ''LangExtract templates require a non-empty prompt_description.''
          else if examples = [] then Inl ''LangExtract templates require at least one example.''
          else case unknown_class d of
            Some n \<Rightarrow> Inl (''LangExtract example references unknown field '' @ n)
          | None \<Rightarrow>
              if missing \<noteq> [] then
                Inl (''LangExtract examples must cover every required extracted field. Missing example coverage for: ''
                  @ names_text missing @ ''.'')
              else Inr ())"

text \<open>
  A body is refused with the first complaint: the shape of every part, then the three validators in order.
  A missing prompt is a missing entry of the configuration.
\<close>

definition parse_body :: "(json obj \<Rightarrow> bool) \<Rightarrow> schema_body \<Rightarrow> calculated_def list result" where
  "parse_body valid_schema b =
     (let d = body_definition b in
      res_bind (validate_langextract_constraints (llm_provider_settings d)) (\<lambda>_.
      res_bind (case definition_langextract_config d of
          Some c \<Rightarrow> if prompt_description c = None then Inl ''Field required'' else Inr ()
        | None \<Rightarrow> Inr ()) (\<lambda>_.
      res_bind (map_res (\<lambda>_. parse_field valid_schema) (extracted_fields d)) (\<lambda>_.
        map_res (\<lambda>_. parse_calculated) (body_calculated b)))))"

definition validate_extraction_template ::
    "formula_engine \<Rightarrow> nat \<Rightarrow> (json obj \<Rightarrow> bool) \<Rightarrow> schema_body \<Rightarrow> schema_answer" where
  "validate_extraction_template E frames valid_schema b =
     (let d = body_definition b in
      case parse_body valid_schema b of
        Inl m \<Rightarrow> Refused m
      | Inr defs \<Rightarrow>
          (case validate_unique_names (field_names d) (def_names defs) of
             Inl m \<Rightarrow> Refused m
           | Inr _ \<Rightarrow>
               (case validate_calculated_field_contract E frames (field_names d) (blocked_names b) defs of
                  Accepted \<Rightarrow> (case validate_langextract_contract d of Inl m \<Rightarrow> Refused m | Inr _ \<Rightarrow> Accepted)
                | answer \<Rightarrow> answer)))"

section \<open>The run button and the contract\<close>

definition plain_names :: "template_definition \<Rightarrow> bool" where
  "plain_names d \<longleftrightarrow> list_all (\<lambda>n. n \<noteq> [] \<and> trim n = n) (field_names d)"

text \<open>The two ideas of white space differ on five control characters; a prompt of nothing else is blank to one only.\<close>

definition plain_prompt :: "string option \<Rightarrow> bool" where
  "plain_prompt p \<longleftrightarrow> (py_blank (coalesce p []) \<longrightarrow> trim (coalesce p []) = [])"

lemma blank_plain: "plain_prompt p \<Longrightarrow> py_blank (coalesce p []) \<longleftrightarrow> trim (coalesce p []) = []"
  by (auto simp: plain_prompt_def py_blank_def py_space_def list_all_iff trim_eq_Nil_iff)

lemma covered_known:
  assumes "plain_names d" "set (concat (config_classes es)) \<subseteq> set (field_names d)"
  shows "covered_set (config_classes es) (field_names d) = set (concat (config_classes es))"
proof -
  let ?es = "config_classes es"
  have names: "nonempty (map trim (field_names d)) = field_names d"
    using assms(1) by (auto simp: plain_names_def nonempty_def list_all_iff filter_id_conv map_idI)
  have plain: "trim c = c \<and> c \<noteq> []" if "e \<in> set ?es" "c \<in> set e" for c e
    using that assms by (auto simp: plain_names_def list_all_iff)
  then have "map (map trim) ?es = ?es" by (simp add: map_idI)
  with assms(2) plain show ?thesis unfolding covered_set_eq names by auto
qed

lemma required_plain: "plain_names d \<Longrightarrow> nonempty (map trim (required_names d)) = required_names d"
  by (auto simp: plain_names_def nonempty_def field_names_def required_names_def list_all_iff filter_id_conv map_idI)

lemma readiness_contract:
  assumes "plain_names d" "unknown_class d = None" "validate_langextract_constraints p = Inr ()"
    and "plain_prompt (Option.bind (definition_langextract_config d) prompt_description)"
  shows "getLangExtractExtractionReadiness d (Some p) = None
    \<longleftrightarrow> validate_langextract_contract (d\<lparr>llm_provider_settings := p\<rparr>) = Inr ()"
proof -
  have uses: "isLangExtractProviderSettings (Some p) = uses_langextract_provider p"
    using assms(3) by (cases "api_style p")
      (auto simp: isLangExtractProviderSettings_def uses_langextract_provider_def validate_langextract_constraints_def split: if_splits)
  show ?thesis
  proof (cases "definition_langextract_config d")
    case None
    then show ?thesis
      by (simp add: getLangExtractExtractionReadiness_def validate_langextract_contract_def uses Let_def)
  next
    case (Some c)
    let ?es = "coalesce (config_examples c) []"
    have known: "set (concat (config_classes ?es)) \<subseteq> set (field_names d)"
      using assms(2) Some by (auto simp: unknown_class_def find_None_iff)
    have "missingRequiredFields (getLangExtractFieldCoverage (config_classes ?es) (field_names d) (required_names d))
        = filter (\<lambda>n. n \<notin> set (concat (config_classes ?es))) (required_names d)"
      by (simp only: missingRequiredFields_eq covered_known [OF assms(1) known] required_plain [OF assms(1)])
    moreover have "unknown_class (d\<lparr>llm_provider_settings := p\<rparr>) = None"
      "required_names (d\<lparr>llm_provider_settings := p\<rparr>) = required_names d"
      using assms(2) by (simp_all add: unknown_class_def field_names_def required_names_def)
    ultimately show ?thesis
      using blank_plain [OF assms(4)] Some
      by (simp add: getLangExtractExtractionReadiness_def validate_langextract_contract_def uses Let_def)
  qed
qed

lemma own_settings: "getLangExtractExtractionReadiness d None = getLangExtractExtractionReadiness d (Some (llm_provider_settings d))"
  by (simp add: getLangExtractExtractionReadiness_def)


definition contract_app :: app_state where
  "contract_app = start_app\<lparr>templateVersions := [\<lparr>version_id = Num 1, version_template_id = Num 1, version_name = ''1.0.0'',
       definition_of = starterTemplateDefinition, version_created_at = []\<rparr>],
     selectedTemplateVersionId := Some (Num 1), selectedDocumentId := Some (Num 1),
     provider := Some (langextract_provider\<lparr>is_persisted_default := Some True\<rparr>)\<rparr>"


section \<open>What the schema page posts\<close>

lemma posted_payload:
  assumes "\<And>d. buildTemplatePayload (draftTemplate c) (provider c)
      (Some (coalesce (currentTemplateDefinition c) starterTemplateDefinition)) = Inr d \<Longrightarrow> Q d"
  shows "wp any_state (\<lambda>h q. \<forall>path n t dt d. q = Http POST path (TemplateBody n t dt d) \<longrightarrow> Q d)
    (\<lambda>h s r. True) (handleCreateTemplate c) [] s" (is "wp _ ?P _ _ _ _")
proof (cases "buildTemplatePayload (draftTemplate c) (provider c)
    (Some (coalesce (currentTemplateDefinition c) starterTemplateDefinition))")
  case (Inl m)
  then show ?thesis unfolding handleCreateTemplate_def by (auto simp: wp_simps intro!: handled_requests)
next
  case (Inr d)
  have "handleCreateTemplate c = handled ''save-template'' ''Could not save schema.''
      (bind (readJson as_any POST ''/templates''
        (TemplateBody (dt_template_name (draftTemplate c)) (dt_description (draftTemplate c))
           (dt_document_type (draftTemplate c)) d)) (\<lambda>_.
       bind (refreshCoreData c) (\<lambda>_.
       succeed (''Saved schema \"'' @ dt_template_name (draftTemplate c) @ ''\".''))))"
    by (simp add: handleCreateTemplate_def Inr lift_result_def)
  moreover have "wp any_state ?P (\<lambda>h s r. True)
      (bind (readJson as_any POST ''/templates''
        (TemplateBody (dt_template_name (draftTemplate c)) (dt_description (draftTemplate c))
           (dt_document_type (draftTemplate c)) d)) (\<lambda>_.
       bind (refreshCoreData c) (\<lambda>_.
       succeed (''Saved schema \"'' @ dt_template_name (draftTemplate c) @ ''\".'')))) [] t" for t
    by (rule settled_json_requests) (auto simp: assms [OF Inr] intro!: after_refresh_requests)
  ultimately show ?thesis by (simp only: handled_requests)
qed

lemma trim_keeps:
  assumes "c \<in> set s" "\<not> js_space c"
  shows "c \<in> set (trim s)"
proof -
  have "c \<in> set (dropWhile js_space xs)" if "c \<in> set xs" for xs
    using that assms(2) by (induction xs) auto
  with assms(1) show ?thesis by (simp add: trim_def)
qed

text \<open>A payload built for LangExtract meets the contract when its prompt has something a reader can see.\<close>

lemma built_payload_contract:
  assumes "buildTemplatePayload draft (Some p) (Some base) = Inr d" "isLangExtractProvider (Some p)"
    and "validate_langextract_constraints p = Inr ()" "\<not> py_blank (dt_prompt_description draft)" "dt_examples draft \<noteq> []"
    and "plain_names base" "field_names base \<noteq> []"
  shows "validate_langextract_contract d = Inr ()"
proof -
  have names: "field_names d = field_names base" and llm: "llm_provider_settings d = p"
    using payload_InrD(1,3) [OF assms(1)] by (simp_all add: field_names_def effective_provider_def)
  have uses: "uses_langextract_config (Some p) base"
    using assms(2) by (simp add: isLangExtractProvider_def isLangExtractProviderSettings_def uses_langextract_config_def effective_provider_def)
  have prompt: "trim (dt_prompt_description draft) \<noteq> []"
    using assms(4) by (auto simp: py_blank_def py_space_def list_all_iff trim_eq_Nil_iff)
  with payload_InrD(5) [OF assms(1) uses] obtain es where
    es: "buildLangExtractExamples (dt_examples draft) (field_names base) (required_names base) = Inr es"
    and cfg: "definition_langextract_config d
      = Some \<lparr>prompt_description = Some (trim (dt_prompt_description draft)), config_examples = Some es\<rparr>" by auto
  have known: "js_set (nonempty (map trim (field_names base))) \<noteq> []"
    using assms(6,7) by (cases "field_names base") (auto simp: plain_names_def nonempty_def js_set_def)
  have "set (js_set (nonempty (map trim (field_names base)))) = set (field_names base)"
    using assms(6) by (auto simp: plain_names_def list_all_iff)
  with parsed_known [OF buildLangExtractExamples_InrD(1) [OF es]] known have
    "set (concat (config_classes es)) \<subseteq> set (field_names d)" by (fastforce simp: config_classes_def names)
  then have "unknown_class d = None" by (auto simp: unknown_class_def cfg find_None_iff)
  moreover have "\<not> py_blank (trim (dt_prompt_description draft))"
    using assms(4) trim_keeps by (auto simp: py_blank_def py_space_def list_all_iff)
  then have "plain_prompt (Option.bind (definition_langextract_config d) prompt_description)"
    by (simp add: cfg plain_prompt_def)
  moreover have "getLangExtractExtractionReadiness d (Some p) = None"
    using saved_schema_ready [OF assms(1,2) prompt assms(5)] own_settings [of d] llm by simp
  moreover have "plain_names d" using assms(6) by (simp add: plain_names_def names)
  ultimately have "validate_langextract_contract (d\<lparr>llm_provider_settings := p\<rparr>) = Inr ()"
    using readiness_contract [OF _ _ assms(3)] by blast
  moreover have "d\<lparr>llm_provider_settings := p\<rparr> = d" using llm by (cases d) simp
  ultimately show ?thesis by simp
qed

text \<open>
  C14: Every schema the schema page posts for the LangExtract provider meets the server's LangExtract contract: the
  draft has an example and a prompt that is not blank to Python either, the provider is local, and the schema it
  starts from has fields with plain names.
\<close>

theorem posted_schema_meets_the_contract:
  fixes c
  defines "base \<equiv> coalesce (currentTemplateDefinition c) starterTemplateDefinition"
  assumes "isLangExtractProvider (provider c)" "\<forall>p. provider c = Some p \<longrightarrow> validate_langextract_constraints p = Inr ()"
    and "\<not> py_blank (dt_prompt_description (draftTemplate c))" "dt_examples (draftTemplate c) \<noteq> []"
    and "plain_names base" "field_names base \<noteq> []"
  shows "wp any_state (\<lambda>h q. \<forall>path n t dt d. q = Http POST path (TemplateBody n t dt d) \<longrightarrow>
      validate_langextract_contract d = Inr ()) (\<lambda>h s r. True) (handleCreateTemplate c) [] s"
proof -
  from assms(2) obtain p where p: "provider c = Some p"
    by (cases "provider c") (auto simp: isLangExtractProvider_def isLangExtractProviderSettings_def)
  show ?thesis
    by (rule posted_payload, rule built_payload_contract [OF _ _ _ assms(4,5)])
      (use assms p in \<open>auto simp: base_def\<close>)
qed

lemma posted_schema_meets_the_contract_witness:
  "wp any_state (\<lambda>h q. \<forall>path n t dt d. q = Http POST path (TemplateBody n t dt d) \<longrightarrow>
      validate_langextract_contract d = Inr ()) (\<lambda>h s r. True) (handleCreateTemplate schema_app) [] schema_app"
proof (rule posted_schema_meets_the_contract)
  have s: "draftTemplate schema_app = starter_draft" "provider schema_app = Some langextract_provider"
    "coalesce (currentTemplateDefinition schema_app) starterTemplateDefinition = starterTemplateDefinition"
    by (simp_all add: schema_app_def currentTemplateDefinition_def find_version_def start_app_def initial_app_def)
  show "isLangExtractProvider (provider schema_app)" "\<not> py_blank (dt_prompt_description (draftTemplate schema_app))"
    "dt_examples (draftTemplate schema_app) \<noteq> []"
    "plain_names (coalesce (currentTemplateDefinition schema_app) starterTemplateDefinition)"
    "field_names (coalesce (currentTemplateDefinition schema_app) starterTemplateDefinition) \<noteq> []"
    unfolding s by code_simp+
  have "validate_langextract_constraints langextract_provider = Inr ()" by code_simp
  then show "\<forall>p. provider schema_app = Some p \<longrightarrow> validate_langextract_constraints p = Inr ()" by (simp add: s)
qed

text \<open>
  A definition written out in the app, as the starter schema is, has of a calculated field only what the app's own
  type has. The server requires a description of it.
\<close>

definition literal_body :: "template_definition \<Rightarrow> schema_body" where
  "literal_body d =
     \<lparr>body_definition = d,
      body_calculated = map (\<lambda>c. \<lparr>calculated_entry = c, body_description = None, body_depends_on = None, body_currency = None,
         body_allow_null = None, body_min = None, body_max = None, body_on_divide_by_zero = None,
         body_on_missing_input = None, body_requires_review = None\<rparr>) (calculated_fields d),
      blocked_names = []\<rparr>"

lemma literal_calculated_refused:
  assumes "calculated_fields d \<noteq> []"
  shows "\<exists>m. validate_extraction_template E frames valid (literal_body d) = Refused m"
proof -
  from assms obtain b bs where b: "body_calculated (literal_body d) = b # bs" "body_description b = None"
    by (cases "calculated_fields d") (auto simp: literal_body_def)
  have "\<exists>m. parse_body valid (literal_body d) = Inl m"
  proof (cases "parse_body valid (literal_body d)")
    case (Inr defs)
    then show ?thesis
      using b by (auto simp: parse_body_def Let_def res_bind_eq_Inr_iff parse_calculated_def)
  qed simp
  then show ?thesis by (auto simp: validate_extraction_template_def Let_def)
qed



section \<open>Accepted calculations can be ordered\<close>

lemma validated_dependencies:
  assumes "validate_calculated_field_def E all_names blocked d = Inr ()" "orders_sets E"
    and "set (def_names defs) \<subseteq> all_names - blocked"
  shows "set (dependencies E defs d) \<inter> set (def_names defs) \<subseteq> set (calc_depends_on d)"
proof -
  from assms(1) obtain used where used: "collect_formula_references E (calc_formula d) (all_names - blocked) = Inr used"
    and "sort (calc_depends_on d) = sort used"
    by (auto simp: validate_calculated_field_def_def Let_def res_bind_eq_Inr_iff split: if_splits sum.splits)
  then have "set (calc_depends_on d) = set used" by (metis set_sort)
  moreover from used obtain ids where "identifiers E (calc_formula d) = Inr ids" "used = remdups (filter (\<lambda>n. n \<in> all_names - blocked) ids)"
    by (auto simp: collect_formula_references_def res_bind_eq_Inr_iff)
  ultimately show ?thesis
    using assms(2,3) by (auto simp: dependencies_def collect_formula_references_def orders_sets_def)
qed

lemma contract_dependencies:
  assumes "map_res (\<lambda>_. validate_calculated_field_def E (set extracted \<union> set (def_names defs)) (set blocked - set (def_names defs))) defs = Inr us"
    and "orders_sets E"
  shows "declared_dependencies E defs"
  unfolding declared_dependencies_def
proof
  fix d assume "d \<in> set defs"
  then obtain k where k: "k < length defs" "d = defs ! k" by (metis in_set_conv_nth)
  from map_res_nth [OF assms(1) k(1)] k(2) have
    "validate_calculated_field_def E (set extracted \<union> set (def_names defs)) (set blocked - set (def_names defs)) d = Inr ()" by simp
  then show "set (dependencies E defs d) \<inter> set (def_names defs) \<subseteq> set (calc_depends_on d)"
    using assms(2) by (rule validated_dependencies) auto
qed

text \<open>
  C15: The check of the calculated fields always ends with an answer, and one that accepts promises an order of
  evaluation: a rearrangement of the definitions in which every field follows the ones its formula refers to. Python's
  recursion must be allowed one frame more than there are calculated fields.
\<close>

theorem accepted_calculations_can_be_ordered:
  assumes "distinct (def_names defs)" "orders_sets E" "length defs < frames"
  shows "validate_calculated_field_contract E frames extracted blocked defs \<noteq> Crashed
    \<and> (validate_calculated_field_contract E frames extracted blocked defs = Accepted \<longrightarrow>
        (\<exists>os. topologically_sort_calculated_fields E frames defs = Sorted os \<and> mset os = mset defs
          \<and> (\<forall>i < length os. set (dependencies E defs (os ! i)) \<inter> set (def_names defs) \<subseteq> set (def_names (take i os)))))"
proof (cases "map_res (\<lambda>_. validate_calculated_field_def E (set extracted \<union> set (def_names defs)) (set blocked - set (def_names defs))) defs")
  case (Inl m)
  then show ?thesis by (simp add: validate_calculated_field_contract_def)
next
  case (Inr us)
  note declared = contract_dependencies [OF Inr assms(2)]
  show ?thesis
  proof (cases "detect_formula_cycles defs")
    case (Inl m)
    then show ?thesis
      by (simp add: validate_calculated_field_contract_def Inr topologically_sort_calculated_fields_def)
  next
    case v: (Inr v)
    from sort_outcome_ok [OF assms(1) declared assms(3) v] show ?thesis
      by (auto simp: validate_calculated_field_contract_def Inr well_ordered_def)
  qed
qed

lemma accepted_calculations_can_be_ordered_witness:
  "validate_calculated_field_contract sum_engine 3 [''net'', ''rate''] [] sample_calculations = Accepted
    \<and> (\<exists>os. topologically_sort_calculated_fields sum_engine 3 sample_calculations = Sorted os \<and> mset os = mset sample_calculations)"
proof -
  have a: "validate_calculated_field_contract sum_engine 3 [''net'', ''rate''] [] sample_calculations = Accepted" by code_simp
  have "length sample_calculations < 3" by (simp add: sample_calculations_def)
  from accepted_calculations_can_be_ordered [OF sample_calculations_ok(1) sum_engine_ok(2) this, of "[''net'', ''rate'']" "[]"] a
  show ?thesis by auto
qed

end
