(* ===== verification/ReviewServer.thy ===== *)
theory ReviewServer
  imports Calculations Workspace
begin

text \<open>
  Reviews on the server, \<open>backend/app/services/result_service.py\<close> and its routes: the stored results, the
  three ways a review changes one (the edits, the approval of confident fields, the approval of everything), the
  recalculation, and the gate before an export. A request is one transaction: a result of \<open>None\<close> is an exception,
  after which nothing is committed. The extracted and calculated fields and the result are the records of
  the app, which reads the same JSON.
\<close>

section \<open>Stored results\<close>

record stored_result =
  stored_id :: jsnum
  stored_job :: jsnum
  stored_tenant :: string
  stored_json :: result_payload
  stored_status :: string

record edit_row =
  row_result :: jsnum
  row_reviewer :: string
  row_field :: string
  row_previous :: "json option"
  row_new :: json
  row_reason :: string

record review_payload =
  payload_reviewer :: string
  payload_edits :: "review_edit list"
  payload_recalculate :: bool
  payload_minimum :: "jsnum option"

record review_db =
  db_results :: "stored_result list"
  db_edits :: "edit_row list"
  db_calculations :: "(jsnum \<times> string \<times> calculated_def list) list"
  db_require_cleared :: "string \<Rightarrow> bool"
  db_reviews_audited :: "(jsnum \<times> string list) list"

definition job_calculations :: "review_db \<Rightarrow> jsnum \<Rightarrow> string \<Rightarrow> calculated_def list option" where
  "job_calculations db j t =
     map_option (snd \<circ> snd) (find (\<lambda>(i, u, _). i = j \<and> u = t) (db_calculations db))"

section \<open>Applying a review\<close>

definition mark_reviewed :: "review_field \<Rightarrow> review_field" where
  "mark_reviewed f = f\<lparr>validation_status := ''reviewed'', requires_review := False\<rparr>"

definition approve_confident :: "jsnum \<Rightarrow> review_field \<Rightarrow> review_field" where
  "approve_confident threshold f =
     (if \<not> requires_review f \<or> validation_status f = ''invalid'' then f
      else case confidence_score f of
        Some score \<Rightarrow> if num_ge score threshold then mark_reviewed f else f
      | None \<Rightarrow> f)"

definition approve_flagged :: "review_field \<Rightarrow> review_field" where
  "approve_flagged f = (if requires_review f then mark_reviewed f else f)"

text \<open>\<open>field_index\<close> is a dictionary: of two fields of one name it holds the later.\<close>

definition edited_field :: "review_edit \<Rightarrow> review_field \<Rightarrow> review_field" where
  "edited_field e f = mark_reviewed (f\<lparr>normalized_value := Some (edit_value e)\<rparr>)"

fun update_first :: "('a \<Rightarrow> bool) \<Rightarrow> ('a \<Rightarrow> 'a) \<Rightarrow> 'a list \<Rightarrow> 'a list" where
  "update_first P g [] = []"
| "update_first P g (x # xs) = (if P x then g x # xs else x # update_first P g xs)"

definition apply_edit :: "review_edit \<Rightarrow> review_field list \<Rightarrow> review_field list option" where
  "apply_edit e fs =
     (if edit_field e \<in> set (map field_name fs)
      then Some (rev (update_first (\<lambda>f. field_name f = edit_field e) (edited_field e) (rev fs)))
      else None)"

definition edit_row_of :: "stored_result \<Rightarrow> string \<Rightarrow> review_field list \<Rightarrow> review_edit \<Rightarrow> edit_row" where
  "edit_row_of r who fs e =
     \<lparr>row_result = stored_id r, row_reviewer = who, row_field = edit_field e,
      row_previous = Option.bind (find (\<lambda>f. field_name f = edit_field e) (rev fs)) normalized_value,
      row_new = edit_value e, row_reason = edit_reason e\<rparr>"

primrec apply_edits :: "stored_result \<Rightarrow> string \<Rightarrow> review_edit list \<Rightarrow> review_field list
    \<Rightarrow> (review_field list \<times> edit_row list) option" where
  "apply_edits r who [] fs = Some (fs, [])"
| "apply_edits r who (e # es) fs =
     Option.bind (apply_edit e fs) (\<lambda>gs.
       map_option (\<lambda>(hs, rows). (hs, edit_row_of r who fs e # rows)) (apply_edits r who es gs))"

definition mark_calculated :: "review_field \<Rightarrow> review_field" where
  "mark_calculated f = (if requires_review f then f else f\<lparr>validation_status := ''reviewed''\<rparr>)"

definition recalculated ::
    "formula_engine \<Rightarrow> nat \<Rightarrow> calculated_def list option \<Rightarrow> bool \<Rightarrow> review_field list \<Rightarrow> review_field list
      \<Rightarrow> review_field list option" where
  "recalculated E frames defs recalculate extracted calculated =
     (case defs of
        Some ds \<Rightarrow> if recalculate then map_option (map mark_calculated) (evaluate_calculated_fields E frames ds extracted)
                   else Some calculated
      | None \<Rightarrow> Some calculated)"

definition flagged_names :: "review_field list \<Rightarrow> string list" where
  "flagged_names fs = map field_name (filter requires_review fs)"

definition approves_everything :: "review_payload \<Rightarrow> bool" where
  "approves_everything p \<longleftrightarrow> payload_edits p = [] \<and> payload_minimum p = None"

definition approved :: "review_payload \<Rightarrow> review_field list \<Rightarrow> review_field list" where
  "approved p fs =
     map (if approves_everything p then approve_flagged else (\<lambda>f. f))
       (case payload_minimum p of Some threshold \<Rightarrow> map (approve_confident threshold) fs | None \<Rightarrow> fs)"

definition apply_review_edits ::
    "formula_engine \<Rightarrow> nat \<Rightarrow> string \<Rightarrow> review_db \<Rightarrow> stored_result \<Rightarrow> review_payload
      \<Rightarrow> (stored_result \<times> edit_row list) option" where
  "apply_review_edits E frames now db r p =
     (let summary = stored_json r in
      Option.bind (apply_edits r (payload_reviewer p) (payload_edits p) (approved p (result_extracted summary)))
        (\<lambda>(extracted, rows).
      Option.bind (recalculated E frames (job_calculations db (stored_job r) (stored_tenant r)) (payload_recalculate p)
          extracted (if approves_everything p then map approve_flagged (result_calculated summary) else result_calculated summary))
        (\<lambda>calculated.
          Some (r\<lparr>stored_json := summary\<lparr>result_extracted := extracted, result_calculated := calculated,
                   fields_requiring_review := flagged_names extracted @ flagged_names calculated, reviewed_at := Some now\<rparr>,
                 stored_status := ''reviewed''\<rparr>, rows))))"

section \<open>Routes\<close>

text \<open>\<open>None\<close> as the reply is a 404, as the outcome an exception.\<close>

definition response_of :: "stored_result \<Rightarrow> result_payload" where
  "response_of r = (stored_json r)\<lparr>review_status := Some (stored_status r)\<rparr>"

definition find_result :: "review_db \<Rightarrow> string \<Rightarrow> jsnum \<Rightarrow> stored_result option" where
  "find_result db tenant i = find (\<lambda>r. stored_id r = i \<and> stored_tenant r = tenant) (db_results db)"

definition get_job_result :: "review_db \<Rightarrow> string \<Rightarrow> jsnum \<Rightarrow> result_envelope option" where
  "get_job_result db tenant j =
     map_option (\<lambda>r. \<lparr>result_id = stored_id r, result_job_id = j, result_of = response_of r\<rparr>)
       (find (\<lambda>r. stored_job r = j \<and> stored_tenant r = tenant) (db_results db))"

definition review_result ::
    "formula_engine \<Rightarrow> nat \<Rightarrow> string \<Rightarrow> string \<Rightarrow> review_db \<Rightarrow> jsnum \<Rightarrow> review_payload
      \<Rightarrow> (review_db \<times> result_payload option) option" where
  "review_result E frames now tenant db i p =
     (case find_result db tenant i of
        None \<Rightarrow> Some (db, None)
      | Some r \<Rightarrow>
          map_option (\<lambda>(r', rows).
            (db\<lparr>db_results := update_first (\<lambda>s. stored_id s = i \<and> stored_tenant s = tenant) (\<lambda>_. r') (db_results db),
                db_edits := db_edits db @ rows,
                db_reviews_audited := db_reviews_audited db @ [(stored_id r, map edit_field (payload_edits p))]\<rparr>,
             Some (response_of r')))
            (apply_review_edits E frames now db r p))"

definition assert_export_allowed :: "review_db \<Rightarrow> stored_result \<Rightarrow> bool" where
  "assert_export_allowed db r \<longleftrightarrow>
     \<not> db_require_cleared db (stored_tenant r) \<or>
     \<not> (stored_status r = ''pending'' \<or> fields_requiring_review (stored_json r) \<noteq> [])"

section \<open>What a review does to the flags\<close>

lemma mark_reviewed_simps [simp]:
  "field_name (mark_reviewed f) = field_name f" "\<not> requires_review (mark_reviewed f)"
  "field_name (edited_field e f) = field_name f" "\<not> requires_review (edited_field e f)"
  by (simp_all add: mark_reviewed_def edited_field_def)

lemma approve_confident_eq: "approve_confident threshold f = (if isHighConfidenceField f threshold then mark_reviewed f else f)"
  by (simp add: approve_confident_def isHighConfidenceField_def split: option.split)

lemma update_first_rev:
  assumes "distinct (map h xs)"
  shows "rev (update_first (\<lambda>x. h x = k) g (rev xs)) = map (\<lambda>x. if h x = k then g x else x) xs"
proof -
  have "update_first (\<lambda>x. h x = k) g ys = map (\<lambda>x. if h x = k then g x else x) ys" if "distinct (map h ys)" for ys
    using that
  proof (induction ys)
    case (Cons y ys)
    have "h x \<noteq> h y" if "x \<in> set ys" for x using Cons.prems that by (auto simp: image_iff)
    then have "h y = k \<Longrightarrow> map (\<lambda>x. if h x = k then g x else x) ys = ys" by (intro map_idI) auto
    with Cons show ?case by simp
  qed simp
  with assms show ?thesis by (simp add: rev_map [symmetric])
qed

lemma apply_edit_eq:
  assumes "distinct (map field_name fs)" "apply_edit e fs = Some gs"
  shows "gs = map (\<lambda>f. if field_name f = edit_field e then edited_field e f else f) fs"
  using assms by (simp add: apply_edit_def update_first_rev split: if_splits)

text \<open>The names survive every step, and an edit clears the flag of its field only.\<close>

lemma apply_edits_flags:
  assumes "distinct (map field_name fs)" "apply_edits r who es fs = Some (gs, rows)"
  shows "map field_name gs = map field_name fs"
    "flagged_names gs = filter (\<lambda>n. n \<notin> set (map edit_field es)) (flagged_names fs)"
  using assms
proof (induction es arbitrary: fs rows)
  case (Cons e es)
  case 1
  from 1(2) obtain ms rows' where ms: "apply_edit e fs = Some ms" "apply_edits r who es ms = Some (gs, rows')"
    by (auto simp: bind_eq_Some_conv)
  from apply_edit_eq [OF 1(1) ms(1)] have names: "map field_name ms = map field_name fs" by auto
  with Cons.IH(1) [OF _ ms(2)] 1(1) show ?case by simp
next
  case (Cons e es)
  case 2
  from 2(2) obtain ms rows' where ms: "apply_edit e fs = Some ms" "apply_edits r who es ms = Some (gs, rows')"
    by (auto simp: bind_eq_Some_conv)
  note ms_eq = apply_edit_eq [OF 2(1) ms(1)]
  from ms_eq have names: "map field_name ms = map field_name fs" by auto
  have "flagged_names ms = filter (\<lambda>n. n \<noteq> edit_field e) (flagged_names fs)"
    unfolding ms_eq flagged_names_def by (induction fs) auto
  with Cons.IH(2) [OF _ ms(2)] names 2(1) show ?case by (simp add: conj_commute)
qed (simp_all add: filter_True)

definition approved_field :: "review_payload \<Rightarrow> review_field \<Rightarrow> review_field" where
  "approved_field p f =
     (if approves_everything p then approve_flagged f
      else case payload_minimum p of Some m \<Rightarrow> approve_confident m f | None \<Rightarrow> f)"

lemma approved_eq: "approved p fs = map (approved_field p) fs"
  by (cases "payload_minimum p") (auto simp: approved_def approved_field_def approves_everything_def)

lemma approved_flags:
  "map field_name (approved p fs) = map field_name fs"
  "flagged_names (approved p fs) = map field_name (filter (\<lambda>f. requires_review f \<and> \<not> approves_everything p
     \<and> \<not> (case payload_minimum p of Some m \<Rightarrow> isHighConfidenceField f m | None \<Rightarrow> False)) fs)"
proof -
  have f: "field_name (approved_field p f) = field_name f" "requires_review (approved_field p f) \<longleftrightarrow>
      requires_review f \<and> \<not> approves_everything p
     \<and> \<not> (case payload_minimum p of Some m \<Rightarrow> isHighConfidenceField f m | None \<Rightarrow> False)" for f
    by (auto simp: approved_field_def approve_confident_eq approve_flagged_def split: option.split)
  show "map field_name (approved p fs) = map field_name fs" by (simp add: approved_eq f)
  show "flagged_names (approved p fs) = map field_name (filter (\<lambda>f. requires_review f \<and> \<not> approves_everything p
     \<and> \<not> (case payload_minimum p of Some m \<Rightarrow> isHighConfidenceField f m | None \<Rightarrow> False)) fs)"
    by (simp add: approved_eq flagged_names_def filter_map comp_def f)
qed

lemma applied:
  assumes "apply_review_edits E frames now db r p = Some (r', rows)"
  obtains extracted calculated where
    "apply_edits r (payload_reviewer p) (payload_edits p) (approved p (result_extracted (stored_json r))) = Some (extracted, rows)"
    "recalculated E frames (job_calculations db (stored_job r) (stored_tenant r)) (payload_recalculate p) extracted
       (if approves_everything p then map approve_flagged (result_calculated (stored_json r)) else result_calculated (stored_json r))
     = Some calculated"
    "r' = r\<lparr>stored_json := (stored_json r)\<lparr>result_extracted := extracted, result_calculated := calculated,
        fields_requiring_review := flagged_names extracted @ flagged_names calculated, reviewed_at := Some now\<rparr>,
      stored_status := ''reviewed''\<rparr>"
  using assms by (auto simp: apply_review_edits_def Let_def bind_eq_Some_conv)

text \<open>
  What a saved review leaves flagged among the extracted fields: nothing when it has neither edits nor a
  threshold, otherwise the flagged fields that it does not edit and that the threshold does not cover, in
  their order. A save with one change so clears one field where the untouched save clears all.
\<close>

theorem review_clears_exactly:
  assumes "distinct (map field_name (result_extracted (stored_json r)))"
    and "apply_review_edits E frames now db r p = Some (r', rows)"
  shows "flagged_names (result_extracted (stored_json r')) =
    (if payload_edits p = [] \<and> payload_minimum p = None then []
     else map field_name (filter (\<lambda>f. requires_review f \<and> field_name f \<notin> set (map edit_field (payload_edits p))
       \<and> \<not> (case payload_minimum p of Some m \<Rightarrow> isHighConfidenceField f m | None \<Rightarrow> False)) (result_extracted (stored_json r))))"
proof -
  from assms(2) obtain extracted calculated where
    ext: "apply_edits r (payload_reviewer p) (payload_edits p) (approved p (result_extracted (stored_json r))) = Some (extracted, rows)"
    and r': "result_extracted (stored_json r') = extracted"
    by (rule applied) simp
  have "distinct (map field_name (approved p (result_extracted (stored_json r))))" using assms(1) by (simp add: approved_flags)
  from apply_edits_flags(2) [OF this ext] show ?thesis
    unfolding r' approved_flags by (auto simp: approves_everything_def filter_map comp_def conj_ac intro!: arg_cong [of _ _ "map field_name"] filter_cong)
qed

definition flagged_field :: "string \<Rightarrow> jsnum \<Rightarrow> string \<Rightarrow> review_field" where
  "flagged_field n score v =
     (sample_field n ''number'' (JStr v))\<lparr>requires_review := True, validation_status := ''pending'', confidence_score := Some score\<rparr>"

definition review_sample :: stored_result where
  "review_sample = \<lparr>stored_id = Num 4, stored_job = Num 1, stored_tenant = ''default'',
     stored_json = (sample_result [flagged_field ''net'' (Num 1) ''10'', flagged_field ''rate'' (Num 0) ''2''])
       \<lparr>fields_requiring_review := [''net'', ''rate'', ''tax'']\<rparr>,
     stored_status = ''pending''\<rparr>"

definition review_db_sample :: review_db where
  "review_db_sample = \<lparr>db_results = [review_sample], db_edits = [],
     db_calculations = [(Num 1, ''default'', sample_calculations)], db_require_cleared = (\<lambda>t. True), db_reviews_audited = []\<rparr>"

definition payload_of :: "review_edit list \<Rightarrow> jsnum option \<Rightarrow> review_payload" where
  "payload_of es m = \<lparr>payload_reviewer = ''local-ui'', payload_edits = es, payload_recalculate = True, payload_minimum = m\<rparr>"

definition edit_net :: review_edit where
  "edit_net = \<lparr>edit_field = ''net'', edit_value = JNum (Num 3), edit_reason = ''Reviewed in workspace''\<rparr>"

lemma sample_review_succeeds:
  "apply_review_edits sum_engine 9 ''now'' review_db_sample review_sample (payload_of [edit_net] None) \<noteq> None"
  "apply_review_edits sum_engine 9 ''now'' review_db_sample review_sample (payload_of [] None) \<noteq> None"
  by code_simp+

lemma review_clears_exactly_witness:
  "\<exists>r' rows. apply_review_edits sum_engine 9 ''now'' review_db_sample review_sample (payload_of [edit_net] None) = Some (r', rows)
    \<and> flagged_names (result_extracted (stored_json r')) = [''rate'']"
proof -
  obtain r' rows where a: "apply_review_edits sum_engine 9 ''now'' review_db_sample review_sample (payload_of [edit_net] None) = Some (r', rows)"
    using sample_review_succeeds(1) by auto
  have "distinct (map field_name (result_extracted (stored_json review_sample)))" by code_simp
  from review_clears_exactly [OF this a] a show ?thesis
    by (simp add: payload_of_def edit_net_def review_sample_def sample_result_def flagged_field_def sample_field_def)
qed

text \<open>
  C8: The button that approves the confident fields announces exactly what the server will approve: the fields the
  request leaves approved are those the app counts (its high-confidence badge), every other one is as before, and
  the number on the button is the number of flags that go.
\<close>

theorem confident_button_is_exact:
  assumes "selectedResult c = Some e" "result_of e = response_of r" "payload_edits p = []"
    and "payload_minimum p = Some REVIEW_HIGH_CONFIDENCE_MIN"
    and "apply_review_edits E frames now db r p = Some (r', rows)"
  shows "result_extracted (stored_json r') =
      map (\<lambda>f. if isHighConfidenceField f REVIEW_HIGH_CONFIDENCE_MIN then mark_reviewed f else f) (extractedFields c)
    \<and> highConfidenceReviewCount c + length (filter requires_review (result_extracted (stored_json r')))
        = length (filter requires_review (extractedFields c)) \<and> rows = []"
proof -
  let ?high = "\<lambda>f. isHighConfidenceField f REVIEW_HIGH_CONFIDENCE_MIN"
  have fs: "extractedFields c = result_extracted (stored_json r)"
    using assms(1,2) by (simp add: extractedFields_def response_of_def)
  from assms(5) have ext: "result_extracted (stored_json r') = map (\<lambda>f. if ?high f then mark_reviewed f else f) (extractedFields c)"
    and rows: "rows = []"
    by (rule applied; simp add: assms(3,4) approved_eq approved_field_def approves_everything_def approve_confident_eq fs)+
  have high: "?high f \<Longrightarrow> requires_review f \<or> validation_status f = ''invalid''" "?high f \<Longrightarrow> requires_review f" for f
    by (auto simp: isHighConfidenceField_def split: if_splits)
  have "length (filter ?high (filter (\<lambda>f. requires_review f \<or> validation_status f = ''invalid'') fs))
      + length (filter requires_review (map (\<lambda>f. if ?high f then mark_reviewed f else f) fs)) = length (filter requires_review fs)" for fs
    using high by (induction fs) auto
  then show ?thesis using ext rows by (simp add: highConfidenceReviewCount_def fieldsNeedingReview_def)
qed

definition pending_shown :: app_state where
  "pending_shown = (pending_app True)\<lparr>resultsByJob := [(Num 1, \<lparr>result_id = Num 4, result_job_id = Num 1, result_of = response_of review_sample\<rparr>)]\<rparr>"

lemma confident_button_is_exact_witness:
  "\<exists>r' rows. apply_review_edits sum_engine 9 ''now'' (review_db_sample\<lparr>db_calculations := []\<rparr>) review_sample
        (payload_of [] (Some REVIEW_HIGH_CONFIDENCE_MIN)) = Some (r', rows)
    \<and> highConfidenceReviewCount pending_shown + length (filter requires_review (result_extracted (stored_json r')))
        = length (filter requires_review (extractedFields pending_shown))"
proof -
  let ?p = "payload_of [] (Some REVIEW_HIGH_CONFIDENCE_MIN)" and ?db = "review_db_sample\<lparr>db_calculations := []\<rparr>"
  obtain r' rows where a: "apply_review_edits sum_engine 9 ''now'' ?db review_sample ?p = Some (r', rows)"
    by (simp add: apply_review_edits_def Let_def payload_of_def recalculated_def job_calculations_def)
  have "selectedJob pending_shown = Some (demo_job 1 ''completed'')"
    using pending_selected [of True] by (simp add: selectedJob_def pending_shown_def split: if_splits)
  then have sel: "selectedResult pending_shown = Some \<lparr>result_id = Num 4, result_job_id = Num 1, result_of = response_of review_sample\<rparr>"
    by (simp add: selectedResult_def pending_shown_def demo_job_def result_of_job_def rec_get_def)
  have "result_of \<lparr>result_id = Num 4, result_job_id = Num 1, result_of = response_of review_sample\<rparr> = response_of review_sample"
    "payload_edits ?p = []" "payload_minimum ?p = Some REVIEW_HIGH_CONFIDENCE_MIN" by (simp_all add: payload_of_def)
  from confident_button_is_exact [OF sel this a] a show ?thesis by blast
qed

section \<open>Flags of calculated fields\<close>

lemma evaluated_names:
  "evaluate_each E available c ds = Some rs \<Longrightarrow>
     list_all2 (\<lambda>d r. field_name r = calc_name d \<and> (calc_requires_review d \<longrightarrow> requires_review r)) ds rs"
  by (induction ds arbitrary: c rs) (auto simp: bind_eq_Some_conv evaluate_field_flags)

lemma recalculation_flags:
  assumes "distinct (def_names defs)" "declared_dependencies E defs" "length defs < frames"
    and "evaluate_calculated_fields E frames defs extracted = Some rs" "d \<in> set defs" "calc_requires_review d"
  shows "calc_name d \<in> set (flagged_names (map mark_calculated rs))"
proof -
  from assms(4) obtain v where v: "detect_formula_cycles defs = Inr v"
    by (auto simp: evaluate_calculated_fields_def topologically_sort_calculated_fields_def split: sum.splits)
  from sort_outcome_ok [OF assms(1-3) v] obtain os where
    os: "topologically_sort_calculated_fields E frames defs = Sorted os" "mset os = mset defs" by blast
  with assms(4) obtain available c where "evaluate_each E available c os = Some rs"
    by (auto simp: evaluate_calculated_fields_def)
  from evaluated_names [OF this] have "\<forall>e \<in> set os. calc_requires_review e \<longrightarrow> calc_name e \<in> set (flagged_names (map mark_calculated rs))"
    by (induction rule: list_all2_induct) (auto simp: flagged_names_def mark_calculated_def)
  moreover have "d \<in> set os" using assms(5) os(2) by (metis mset_eq_setD)
  ultimately show ?thesis using assms(6) by blast
qed

text \<open>
  C33: A calculated field that its schema marks for review can never be cleared: whatever review the app sends (it
  always asks for the recalculation), the field is flagged again, so where the policy wants cleared reviews the
  server refuses every export of that result.
\<close>

theorem flagged_calculation_blocks_export:
  assumes "job_calculations db (stored_job r) (stored_tenant r) = Some defs" "d \<in> set defs" "calc_requires_review d"
    and "distinct (def_names defs)" "declared_dependencies E defs" "length defs < frames" "payload_recalculate p"
    and "apply_review_edits E frames now db r p = Some (r', rows)"
  shows "calc_name d \<in> set (fields_requiring_review (stored_json r'))
    \<and> stored_job r' = stored_job r \<and> stored_tenant r' = stored_tenant r
    \<and> (db_require_cleared db (stored_tenant r) \<longrightarrow> \<not> assert_export_allowed db r')"
proof -
  from assms(8) obtain extracted calculated where
    calc: "recalculated E frames (job_calculations db (stored_job r) (stored_tenant r)) (payload_recalculate p) extracted
       (if approves_everything p then map approve_flagged (result_calculated (stored_json r)) else result_calculated (stored_json r))
     = Some calculated"
    and r': "r' = r\<lparr>stored_json := (stored_json r)\<lparr>result_extracted := extracted, result_calculated := calculated,
        fields_requiring_review := flagged_names extracted @ flagged_names calculated, reviewed_at := Some now\<rparr>,
      stored_status := ''reviewed''\<rparr>"
    by (rule applied)
  from calc assms(1,7) obtain rs where "evaluate_calculated_fields E frames defs extracted = Some rs" "calculated = map mark_calculated rs"
    by (auto simp: recalculated_def)
  with recalculation_flags [OF assms(4-6) _ assms(2,3)] have "calc_name d \<in> set (flagged_names calculated)" by blast
  then show ?thesis by (auto simp: r' assert_export_allowed_def)
qed

lemma flagged_calculation_blocks_export_witness:
  "\<exists>r' rows. apply_review_edits sum_engine 9 ''now'' review_db_sample review_sample (payload_of [] None) = Some (r', rows)
    \<and> \<not> assert_export_allowed review_db_sample r'"
proof -
  obtain r' rows where a: "apply_review_edits sum_engine 9 ''now'' review_db_sample review_sample (payload_of [] None) = Some (r', rows)"
    using sample_review_succeeds(2) by auto
  have db: "job_calculations review_db_sample (stored_job review_sample) (stored_tenant review_sample) = Some sample_calculations"
    "db_require_cleared review_db_sample (stored_tenant review_sample)"
    by (simp_all add: job_calculations_def review_db_sample_def review_sample_def)
  have d: "sum_def ''tax'' ''rate'' [''rate''] True \<in> set sample_calculations" "calc_requires_review (sum_def ''tax'' ''rate'' [''rate''] True)"
    "length sample_calculations < 9" by (simp_all add: sample_calculations_def sum_def_def)
  have "payload_recalculate (payload_of [] None)" by (simp add: payload_of_def)
  from flagged_calculation_blocks_export [OF db(1) d(1,2) sample_calculations_ok d(3) this a] db(2) a show ?thesis by blast
qed

section \<open>The two gates\<close>

lemma find_update_first:
  assumes "find P xs = Some x" "P y"
  shows "find P (update_first P (\<lambda>_. y) xs) = Some y"
  using assms by (induction xs) (auto split: if_splits)

lemma applied_keeps:
  assumes "apply_review_edits E frames now db r p = Some (r', rows)"
  shows "stored_id r' = stored_id r" "stored_job r' = stored_job r" "stored_tenant r' = stored_tenant r" "stored_status r' = ''reviewed''"
  using assms by (rule applied, simp)+

lemma review_result_stores:
  assumes "review_result E frames now tenant db i p = Some (db', Some updated)"
  obtains r r' rows where "find_result db tenant i = Some r" "apply_review_edits E frames now db r p = Some (r', rows)"
    "find_result db' tenant i = Some r'" "updated = response_of r'" "db_require_cleared db' = db_require_cleared db" "stored_tenant r' = tenant"
proof -
  from assms obtain r where r: "find_result db tenant i = Some r" by (cases "find_result db tenant i") (auto simp: review_result_def)
  with assms obtain r' rows where a: "apply_review_edits E frames now db r p = Some (r', rows)"
    and db': "db_results db' = update_first (\<lambda>s. stored_id s = i \<and> stored_tenant s = tenant) (\<lambda>_. r') (db_results db)"
      "db_require_cleared db' = db_require_cleared db" and u: "updated = response_of r'"
    by (auto simp: review_result_def)
  from r have "stored_id r = i \<and> stored_tenant r = tenant" by (auto simp: find_result_def find_Some_iff)
  then have "find_result db' tenant i = Some r'" "stored_tenant r' = tenant"
    using find_update_first [OF r [unfolded find_result_def], of r'] applied_keeps [OF a] by (simp_all add: find_result_def db'(1))
  from that [OF r a this(1) u db'(2) this(2)] show thesis .
qed

text \<open>
  C4: The gate before an export is the same on both sides. For a result the app fetched, and again for the reply of
  a review it stores, the app offers the exports exactly when the server would accept one, as long as the app holds
  the tenant's policy.
\<close>

theorem export_gates_agree:
  assumes "selectedJobId c = Some j" "num_truthy j" "require_review_cleared (exportPolicy c) = db_require_cleared db tenant"
  shows "(find (\<lambda>r. stored_job r = j \<and> stored_tenant r = tenant) (db_results db) = Some r \<and>
      result_of_job c j = get_job_result db tenant j \<longrightarrow> (exportBlocked c \<longleftrightarrow> \<not> assert_export_allowed db r))
    \<and> (review_result E frames now tenant db (result_id e) p = Some (db', Some updated) \<longrightarrow>
      (exportBlocked (store_review c j e updated c) \<longleftrightarrow>
        (\<exists>r'. find_result db' tenant (result_id e) = Some r' \<and> \<not> assert_export_allowed db' r')))"
proof (intro conjI impI)
  assume a: "find (\<lambda>r. stored_job r = j \<and> stored_tenant r = tenant) (db_results db) = Some r \<and> result_of_job c j = get_job_result db tenant j"
  then have "selectedResultForExport c = Some \<lparr>result_id = stored_id r, result_job_id = j, result_of = response_of r\<rparr>"
    using assms(1,2) by (simp add: selectedResultForExport_def id_truthy_def get_job_result_def)
  moreover from a have "stored_tenant r = tenant" by (auto simp: find_Some_iff)
  ultimately show "exportBlocked c \<longleftrightarrow> \<not> assert_export_allowed db r"
    using assms(3) by (auto simp: exportBlocked_def assert_export_allowed_def response_of_def)
next
  assume "review_result E frames now tenant db (result_id e) p = Some (db', Some updated)"
  then obtain r r' rows where r: "apply_review_edits E frames now db r p = Some (r', rows)"
    "find_result db' tenant (result_id e) = Some r'" "updated = response_of r'" "db_require_cleared db' = db_require_cleared db" "stored_tenant r' = tenant"
    by (rule review_result_stores)
  have "selectedResultForExport (store_review c j e updated c) =
      Some \<lparr>result_id = result_id e, result_job_id = j, result_of = updated\<lparr>review_status := Some ''reviewed''\<rparr>\<rparr>"
    using assms(1,2) by (simp add: selectedResultForExport_def id_truthy_def store_review_def result_of_job_def rec_get_def rec_put_def update_conv)
  moreover have "exportPolicy (store_review c j e updated c) = exportPolicy c" by (simp add: store_review_def)
  ultimately show "exportBlocked (store_review c j e updated c) \<longleftrightarrow>
      (\<exists>r'. find_result db' tenant (result_id e) = Some r' \<and> \<not> assert_export_allowed db' r')"
    using r assms(3) applied_keeps(4) [OF r(1)] by (auto simp: exportBlocked_def assert_export_allowed_def response_of_def)
qed

lemma export_gates_agree_witness:
  "exportBlocked pending_shown \<longleftrightarrow> \<not> assert_export_allowed review_db_sample review_sample"
proof -
  have a: "selectedJobId pending_shown = Some (Num 1)" "num_truthy (Num 1)"
    "require_review_cleared (exportPolicy pending_shown) = db_require_cleared review_db_sample ''default''"
    by (simp_all add: pending_shown_def pending_app_def num_truthy_def review_db_sample_def)
  show ?thesis
    by (rule export_gates_agree [OF a, THEN conjunct1, rule_format])
      (simp add: review_db_sample_def review_sample_def get_job_result_def pending_shown_def result_of_job_def rec_get_def)
qed

section \<open>The app's reviews are accepted\<close>

lemma update_first_names: "(\<And>x. h (g x) = h x) \<Longrightarrow> map h (update_first P g xs) = map h xs"
  by (induction xs) auto

lemma apply_edits_total:
  assumes "\<forall>e \<in> set es. edit_field e \<in> set (map field_name fs)"
  shows "\<exists>gs rows. apply_edits r who es fs = Some (gs, rows) \<and> map row_field rows = map edit_field es"
  using assms
proof (induction es arbitrary: fs)
  case (Cons e es)
  let ?gs = "rev (update_first (\<lambda>f. field_name f = edit_field e) (edited_field e) (rev fs))"
  have gs: "apply_edit e fs = Some ?gs" using Cons.prems by (simp add: apply_edit_def)
  have "map field_name ?gs = map field_name fs"
    using update_first_names [of field_name "edited_field e"] by (simp add: rev_map [symmetric])
  with Cons.prems have "\<forall>e \<in> set es. edit_field e \<in> set (map field_name ?gs)" by simp
  from Cons.IH [OF this] gs show ?case by (auto simp: edit_row_of_def)
qed simp

lemma built_edits_name_fields:
  assumes "buildReviewEditsForResult loc drafts r d = Inr es" "e \<in> set es"
  shows "edit_field e \<in> set (map field_name (result_extracted r))"
proof -
  from assms obtain xs where xs: "map_res (\<lambda>_. field_edit loc drafts d) (result_extracted r) = Inr xs" "Some e \<in> set xs"
    by (auto simp: buildReviewEditsForResult_def js_error List.map_filter_def)
  from map_res_set [OF xs] obtain f where "f \<in> set (result_extracted r)" "field_edit loc drafts d f = Inr (Some e)" by blast
  then show ?thesis by (auto simp: field_edit_def Let_def js_error split: if_splits)
qed



end
