(* ===== verification/JobServer.thy ===== *)
theory JobServer
  imports SchemaContract ReviewServer
begin

text \<open>
  The life of an extraction job on the server: the routes that create, retry and cancel one
  (\<open>backend/app/api/routes.py\<close>, \<open>backend/app/services/job_service.py\<close>) and the pass of a worker over it
  (\<open>worker/app/main.py\<close>, \<open>worker/app/services/job_progress.py\<close>), over the rows they share.

  A row has the columns that code under \<open>backend\<close> or \<open>worker\<close> reads; \<open>claimed_at\<close> is written and never read, and
  \<open>updated_at\<close> is stamped by the database.

  A request is one transaction. The pass of a worker is cut where the code commits or reads the row afresh, so that
  requests and other workers come in between; its updates write only the columns the code assigns. What a pass
  computes (the text of the document, the payload of the extraction, an exception and its message) is arbitrary, and
  so is the reply of a provider's probe.
\<close>

section \<open>Rows\<close>

record server_job =
  sj_id :: jsnum
  sj_tenant :: string
  sj_document :: jsnum
  sj_version :: jsnum
  sj_provider :: "provider_settings option"
  sj_status :: string
  sj_error :: "string option"
  sj_worker :: "string option"
  sj_attempts :: nat
  sj_stage :: string
  sj_pct :: nat
  sj_created :: string

record server_document =
  sd_id :: jsnum
  sd_tenant :: string
  sd_filename :: string
  sd_status :: string

record server_version =
  sv_id :: jsnum
  sv_tenant :: string
  sv_body :: schema_body

text \<open>Where a worker stands in its pass; the number counts the stages the executor has reported.\<close>

datatype phase =
    Resting
  | Claimed jsnum
  | Parsing jsnum
  | Parsed jsnum
  | Executing nat jsnum
  | Executed result_payload jsnum
  | Finishing result_payload jsnum
  | Raised string jsnum
  | Failing string jsnum

record server_state =
  server_jobs :: "server_job list"
  server_documents :: "server_document list"
  server_versions :: "server_version list"
  server_results :: "stored_result list"
  server_audit :: "(string \<times> jsnum) list"
  worker_phase :: "string \<Rightarrow> phase"

record job_policy =
  allow_external :: bool
  require_redaction :: bool
  redaction_enabled :: bool
  probed_provider :: "provider_settings \<Rightarrow> bool \<times> string"
  policy_engine :: formula_engine
  policy_frames :: nat
  policy_schema_check :: "json obj \<Rightarrow> bool"

datatype 'a http_answer = Reply 'a | HttpError nat string

section \<open>Progress\<close>

definition JOB_STAGE_PROGRESS_PCT :: "nat obj" where
  "JOB_STAGE_PROGRESS_PCT =
     [(''queued'', 0), (''parsing'', 15), (''extracting'', 45), (''validating'', 70), (''calculating'', 85),
      (''completed'', 100), (''failed'', 0)]"

definition SERVER_STAGE_LABELS :: "string obj" where
  "SERVER_STAGE_LABELS =
     [(''queued'', ''Waiting in queue''), (''parsing'', ''Parsing document''), (''extracting'', ''Extracting fields''),
      (''validating'', ''Validating results''), (''calculating'', ''Running calculations''), (''completed'', ''Complete''),
      (''failed'', ''Failed'')]"

definition update_job_progress :: "string \<Rightarrow> server_job \<Rightarrow> server_job" where
  "update_job_progress st j =
     j\<lparr>sj_stage := st, sj_pct := coalesce (obj_get JOB_STAGE_PROGRESS_PCT st) (sj_pct j)\<rparr>"

text \<open>\<open>up\<close> is the time the database has stamped on the row last, its column \<open>updated_at\<close>.\<close>

definition build_job_response :: "string \<Rightarrow> server_job \<Rightarrow> job_record" where
  "build_job_response up j =
     \<lparr>job_id = sj_id j, job_document_id = sj_document j, job_version_id = sj_version j, provider_override = sj_provider j,
      job_status = sj_status j, error_message = sj_error j, progress_stage = Some (sj_stage j),
      progress_pct = Some (num_of_nat (sj_pct j)), attempt_count = Some (num_of_nat (sj_attempts j)),
      job_created_at = sj_created j, job_updated_at = up\<rparr>"

section \<open>Changes of a row\<close>

definition retry_failed_job :: "server_job \<Rightarrow> server_job" where
  "retry_failed_job j =
     j\<lparr>sj_status := ''queued'', sj_error := None, sj_stage := ''queued'', sj_pct := 0, sj_worker := None\<rparr>"

definition cancel_job :: "server_job \<Rightarrow> server_job" where
  "cancel_job j =
     j\<lparr>sj_status := ''cancelled'', sj_error := Some ''Cancelled by operator.'', sj_stage := ''cancelled'', sj_pct := 0,
       sj_worker := None\<rparr>"

definition cancelled_document :: "server_document \<Rightarrow> server_document" where
  "cancelled_document d =
     (if sd_status d = ''queued'' \<or> sd_status d = ''processing'' then d\<lparr>sd_status := ''uploaded''\<rparr> else d)"

definition claimed_job :: "string \<Rightarrow> server_job \<Rightarrow> server_job" where
  "claimed_job w j = j\<lparr>sj_status := ''running'', sj_worker := Some w, sj_attempts := Suc (sj_attempts j)\<rparr>"

definition failed_job :: "string \<Rightarrow> server_job \<Rightarrow> server_job" where
  "failed_job m j = j\<lparr>sj_status := ''failed'', sj_error := Some m, sj_stage := ''failed'', sj_pct := 0\<rparr>"

definition completed_job :: "server_job \<Rightarrow> server_job" where
  "completed_job j = j\<lparr>sj_status := ''completed'', sj_stage := ''completed'', sj_pct := 100\<rparr>"

definition set_job :: "jsnum \<Rightarrow> (server_job \<Rightarrow> server_job) \<Rightarrow> server_state \<Rightarrow> server_state" where
  "set_job i f s = s\<lparr>server_jobs := map (\<lambda>j. if sj_id j = i then f j else j) (server_jobs s)\<rparr>"

definition set_document :: "jsnum \<Rightarrow> (server_document \<Rightarrow> server_document) \<Rightarrow> server_state \<Rightarrow> server_state" where
  "set_document i f s = s\<lparr>server_documents := map (\<lambda>d. if sd_id d = i then f d else d) (server_documents s)\<rparr>"

definition set_phase :: "string \<Rightarrow> phase \<Rightarrow> server_state \<Rightarrow> server_state" where
  "set_phase w p s = s\<lparr>worker_phase := (worker_phase s)(w := p)\<rparr>"

definition audit :: "string \<Rightarrow> jsnum \<Rightarrow> server_state \<Rightarrow> server_state" where
  "audit action i s = s\<lparr>server_audit := server_audit s @ [(action, i)]\<rparr>"

definition row_of_job :: "server_state \<Rightarrow> jsnum \<Rightarrow> server_job option" where
  "row_of_job s i = find (\<lambda>j. sj_id j = i) (server_jobs s)"

definition row_of_document :: "server_state \<Rightarrow> jsnum \<Rightarrow> server_document option" where
  "row_of_document s i = find (\<lambda>d. sd_id d = i) (server_documents s)"

definition row_of_version :: "server_state \<Rightarrow> jsnum \<Rightarrow> server_version option" where
  "row_of_version s i = find (\<lambda>v. sv_id v = i) (server_versions s)"

definition of_tenant :: "('a \<Rightarrow> string) \<Rightarrow> string \<Rightarrow> 'a option \<Rightarrow> 'a option" where
  "of_tenant tenant_of t x = (case x of Some r \<Rightarrow> if tenant_of r = t then Some r else None | None \<Rightarrow> None)"

section \<open>Policies\<close>

text \<open>\<open>None\<close> is no objection, otherwise the status and the detail of the error.\<close>

definition enforce_provider_policy :: "job_policy \<Rightarrow> provider_settings \<Rightarrow> (nat \<times> string) option" where
  "enforce_provider_policy pol p =
     (if allow_external_processing p \<and> \<not> allow_external pol then
        Some (400, ''This deployment disables external provider processing. Choose a local provider or enable ALLOW_EXTERNAL_PROCESSING.'')
      else if allow_external_processing p \<and> require_redaction pol \<and> \<not> redaction_enabled pol then
        Some (400, ''This deployment requires document redaction before external provider processing, but Presidio redaction is disabled. Enable PRESIDIO_REDACTION_ENABLED or disable REQUIRE_REDACTION_FOR_EXTERNAL_PROCESSING.'')
      else None)"

definition with_provider :: "schema_body \<Rightarrow> provider_settings \<Rightarrow> schema_body" where
  "with_provider b p = b\<lparr>body_definition := (body_definition b)\<lparr>llm_provider_settings := p\<rparr>\<rparr>"

definition validate_job_provider :: "job_policy \<Rightarrow> schema_body \<Rightarrow> provider_settings \<Rightarrow> (nat \<times> string) option" where
  "validate_job_provider pol b p =
     (case enforce_provider_policy pol p of
        Some e \<Rightarrow> Some e
      | None \<Rightarrow>
          (case validate_extraction_template (policy_engine pol) (policy_frames pol) (policy_schema_check pol) (with_provider b p) of
             Refused m \<Rightarrow> Some (422, m)
           | Crashed \<Rightarrow> Some (500, ''Internal Server Error'')
           | Accepted \<Rightarrow>
               if uses_langextract_provider p \<and> \<not> fst (probed_provider pol p) then
                 Some (400, ''Job queueing blocked until provider probe succeeds. '' @ snd (probed_provider pol p))
               else None))"

definition spreadsheet_name :: "string \<Rightarrow> bool" where
  "spreadsheet_name n \<longleftrightarrow> list_ex (\<lambda>x. suffix x (to_lower n)) [''.csv'', ''.xlsx'', ''.xls'']"

definition enforce_spreadsheet_external_processing_policy ::
    "job_policy \<Rightarrow> server_document \<Rightarrow> provider_settings \<Rightarrow> (nat \<times> string) option" where
  "enforce_spreadsheet_external_processing_policy pol d p =
     (if allow_external_processing p \<and> require_redaction pol \<and> spreadsheet_name (sd_filename d) then
        Some (400, ''This deployment requires redaction before external provider processing, and spreadsheet documents are not yet supported for that path. Use a local provider or export the sheet to PDF.'')
      else None)"

definition job_objection ::
    "job_policy \<Rightarrow> server_document \<Rightarrow> server_version \<Rightarrow> provider_settings option \<Rightarrow> (nat \<times> string) option" where
  "job_objection pol d v override =
     (case validate_extraction_template (policy_engine pol) (policy_frames pol) (policy_schema_check pol) (sv_body v) of
        Accepted \<Rightarrow>
          let p = coalesce override (llm_provider_settings (body_definition (sv_body v))) in
          or_else (validate_job_provider pol (sv_body v) p) (enforce_spreadsheet_external_processing_policy pol d p)
      | _ \<Rightarrow> Some (500, ''Internal Server Error''))"

section \<open>Requests\<close>

text \<open>Each returns the state after the request and the reply; \<open>i\<close> is the identifier the database gives the new row.\<close>

definition new_job :: "jsnum \<Rightarrow> string \<Rightarrow> jsnum \<Rightarrow> jsnum \<Rightarrow> provider_settings option \<Rightarrow> string \<Rightarrow> server_job" where
  "new_job i t doc ver override now =
     \<lparr>sj_id = i, sj_tenant = t, sj_document = doc, sj_version = ver, sj_provider = override, sj_status = ''queued'',
      sj_error = None, sj_worker = None, sj_attempts = 0, sj_stage = ''queued'', sj_pct = 0, sj_created = now\<rparr>"

definition create_job ::
    "job_policy \<Rightarrow> string \<Rightarrow> jsnum \<Rightarrow> string \<Rightarrow> jsnum \<Rightarrow> jsnum \<Rightarrow> provider_settings option \<Rightarrow> server_state
      \<Rightarrow> server_state \<times> job_record http_answer" where
  "create_job pol t i now doc ver override s =
     (case (case override of Some p \<Rightarrow> validate_langextract_constraints p | None \<Rightarrow> Inr ()) of
        Inl m \<Rightarrow> (s, HttpError 422 m)
      | Inr _ \<Rightarrow>
     (case (of_tenant sd_tenant t (row_of_document s doc), of_tenant sv_tenant t (row_of_version s ver)) of
        (Some d, Some v) \<Rightarrow>
          (case job_objection pol d v override of
             Some (code, m) \<Rightarrow> (s, HttpError code m)
           | None \<Rightarrow>
               let j = new_job i t doc ver override now in
               (audit ''job.queued'' i (set_document doc (\<lambda>d. d\<lparr>sd_status := ''queued''\<rparr>) (s\<lparr>server_jobs := server_jobs s @ [j]\<rparr>)),
                Reply (build_job_response now j)))
      | _ \<Rightarrow> (s, HttpError 404 ''Document or template version not found.'')))"

definition list_jobs :: "string \<Rightarrow> (jsnum \<Rightarrow> string) \<Rightarrow> server_state \<Rightarrow> job_record list" where
  "list_jobs t updated s =
     map (\<lambda>j. build_job_response (updated (sj_id j)) j) (rev (filter (\<lambda>j. sj_tenant j = t) (server_jobs s)))"

definition retry_job :: "job_policy \<Rightarrow> string \<Rightarrow> jsnum \<Rightarrow> string \<Rightarrow> server_state \<Rightarrow> server_state \<times> job_record http_answer" where
  "retry_job pol t i now s =
     (case of_tenant sj_tenant t (row_of_job s i) of
        None \<Rightarrow> (s, HttpError 404 ''Job not found.'')
      | Some j \<Rightarrow>
          if sj_status j \<noteq> ''failed'' then (s, HttpError 409 ''Only failed jobs can be retried.'')
          else case of_tenant sd_tenant t (row_of_document s (sj_document j)) of
            None \<Rightarrow> (s, HttpError 404 ''Document not found.'')
          | Some d \<Rightarrow>
          (case of_tenant sv_tenant t (row_of_version s (sj_version j)) of
             None \<Rightarrow> (s, HttpError 404 ''Template version not found.'')
           | Some v \<Rightarrow>
               (case job_objection pol d v (sj_provider j) of
                  Some (code, m) \<Rightarrow> (s, HttpError code m)
                | None \<Rightarrow>
                    (audit ''job.retried'' i (set_document (sj_document j) (\<lambda>d. d\<lparr>sd_status := ''queued''\<rparr>) (set_job i retry_failed_job s)),
                     Reply (build_job_response now (retry_failed_job j))))))"

definition cancel_job_route :: "string \<Rightarrow> jsnum \<Rightarrow> string \<Rightarrow> server_state \<Rightarrow> server_state \<times> job_record http_answer" where
  "cancel_job_route t i now s =
     (case of_tenant sj_tenant t (row_of_job s i) of
        None \<Rightarrow> (s, HttpError 404 ''Job not found.'')
      | Some j \<Rightarrow>
          if sj_status j \<noteq> ''queued'' \<and> sj_status j \<noteq> ''running'' then
            (s, HttpError 409 ''Only queued or running jobs can be cancelled.'')
          else case of_tenant sd_tenant t (row_of_document s (sj_document j)) of
            None \<Rightarrow> (s, HttpError 404 ''Document not found.'')
          | Some d \<Rightarrow>
              (audit ''job.cancelled'' i (set_document (sj_document j) cancelled_document (set_job i cancel_job s)),
               Reply (build_job_response now (cancel_job j))))"

section \<open>The pass of a worker\<close>

datatype worker_event =
    Claim
  | Begin
  | TextParsed
  | Check
  | Report
  | Computed result_payload
  | Commit jsnum
  | RaiseError string
  | Crash

definition executor_stages :: "string list" where
  "executor_stages = [''parsing'', ''extracting'', ''validating'', ''calculating'']"

definition is_job_cancelled :: "server_state \<Rightarrow> jsnum \<Rightarrow> bool" where
  "is_job_cancelled s i \<longleftrightarrow> map_option sj_status (row_of_job s i) = Some ''cancelled''"

definition document_of_job :: "server_state \<Rightarrow> jsnum \<Rightarrow> jsnum option" where
  "document_of_job s i = map_option sj_document (row_of_job s i)"

definition set_job_document :: "jsnum \<Rightarrow> string \<Rightarrow> server_state \<Rightarrow> server_state" where
  "set_job_document i st s =
     (case document_of_job s i of Some d \<Rightarrow> set_document d (\<lambda>r. r\<lparr>sd_status := st\<rparr>) s | None \<Rightarrow> s)"

definition finalize_cancelled_job :: "jsnum \<Rightarrow> server_state \<Rightarrow> server_state" where
  "finalize_cancelled_job i s = set_job_document i ''uploaded'' s"

text \<open>The row of the result of a job is replaced, or a first one added.\<close>

definition store_result :: "jsnum \<Rightarrow> jsnum \<Rightarrow> result_payload \<Rightarrow> server_state \<Rightarrow> server_state" where
  "store_result rid i payload s =
     (let t = coalesce (map_option sj_tenant (row_of_job s i)) [] in
      s\<lparr>server_results :=
         (if \<exists>r \<in> set (server_results s). stored_job r = i
          then map (\<lambda>r. if stored_job r = i then r\<lparr>stored_tenant := t, stored_json := payload, stored_status := ''pending''\<rparr> else r)
                 (server_results s)
          else server_results s @ [\<lparr>stored_id = rid, stored_job = i, stored_tenant = t, stored_json = payload,
                 stored_status = ''pending''\<rparr>])\<rparr>)"

definition tenant_mismatch :: "string \<Rightarrow> string \<Rightarrow> string \<Rightarrow> string" where
  "tenant_mismatch a b c =
     ''Tenant mismatch between job, document, and template version. job='' @ a @ '', document='' @ b @
     '', template_version='' @ c @ ''.''"

definition begin_pass :: "string \<Rightarrow> jsnum \<Rightarrow> server_state \<Rightarrow> server_state" where
  "begin_pass w i s =
     (case row_of_job s i of
        None \<Rightarrow> s
      | Some j \<Rightarrow>
          (case (row_of_document s (sj_document j), row_of_version s (sj_version j)) of
             (Some d, Some v) \<Rightarrow>
               if sj_tenant j = sd_tenant d \<and> sd_tenant d = sv_tenant v then
                 set_phase w (Parsing i) (set_job i (update_job_progress ''parsing'') (set_job_document i ''processing'' s))
               else set_phase w (Raised (tenant_mismatch (sj_tenant j) (sd_tenant d) (sv_tenant v)) i) s
           | _ \<Rightarrow> set_phase w Resting (set_job i (failed_job ''Document or template version missing.'') s)))"

fun worker_step :: "string \<Rightarrow> worker_event \<Rightarrow> server_state \<Rightarrow> server_state option" where
  "worker_step w Claim s =
     (if worker_phase s w \<noteq> Resting then None
      else case find (\<lambda>j. sj_status j = ''queued'') (server_jobs s) of
        None \<Rightarrow> Some s
      | Some j \<Rightarrow> Some (set_phase w (Claimed (sj_id j)) (set_job (sj_id j) (claimed_job w) s)))"
| "worker_step w Begin s =
     (case worker_phase s w of Claimed i \<Rightarrow> Some (begin_pass w i s) | _ \<Rightarrow> None)"
| "worker_step w TextParsed s =
     (case worker_phase s w of Parsing i \<Rightarrow> Some (set_phase w (Parsed i) s) | _ \<Rightarrow> None)"
| "worker_step w Check s =
     (case (case worker_phase s w of
              Parsed i \<Rightarrow> Some (i, Executing 0 i)
            | Executed r i \<Rightarrow> Some (i, Finishing r i)
            | Raised m i \<Rightarrow> Some (i, Failing m i)
            | _ \<Rightarrow> None) of
        None \<Rightarrow> None
      | Some (i, next_phase) \<Rightarrow>
          if is_job_cancelled s i then Some (set_phase w Resting (finalize_cancelled_job i s))
          else Some (set_phase w next_phase s))"
| "worker_step w Report s =
     (case worker_phase s w of
        Executing k i \<Rightarrow>
          if k < length executor_stages
          then Some (set_phase w (Executing (Suc k) i) (set_job i (update_job_progress (executor_stages ! k)) s))
          else None
      | _ \<Rightarrow> None)"
| "worker_step w (Computed payload) s =
     (case worker_phase s w of
        Executing k i \<Rightarrow> if k = length executor_stages then Some (set_phase w (Executed payload i) s) else None
      | _ \<Rightarrow> None)"
| "worker_step w (Commit rid) s =
     (case worker_phase s w of
        Finishing payload i \<Rightarrow>
          Some (set_phase w Resting (audit ''job.completed'' i
            (set_job_document i ''completed'' (set_job i completed_job (store_result rid i payload s)))))
      | Failing m i \<Rightarrow>
          Some (set_phase w Resting (audit ''job.failed'' i (set_job_document i ''failed'' (set_job i (failed_job m) s))))
      | _ \<Rightarrow> None)"
| "worker_step w (RaiseError m) s =
     (case worker_phase s w of
        Parsing i \<Rightarrow> Some (set_phase w (Raised m i) s)
      | Executing k i \<Rightarrow> Some (set_phase w (Raised m i) s)
      | _ \<Rightarrow> None)"
| "worker_step w Crash s = Some (set_phase w Resting s)"

section \<open>Everything that can happen\<close>

definition fresh_row :: "server_state \<Rightarrow> jsnum \<Rightarrow> bool" where
  "fresh_row s i \<longleftrightarrow> i \<notin> sj_id ` set (server_jobs s)"

inductive server_step :: "server_state \<Rightarrow> server_state \<Rightarrow> bool" where
  create: "fresh_row s i \<Longrightarrow> server_step s (fst (create_job pol t i now doc ver override s))"
| retry: "server_step s (fst (retry_job pol t i now s))"
| cancel: "server_step s (fst (cancel_job_route t i now s))"
| work: "worker_step w event s = Some s' \<Longrightarrow> server_step s s'"
| document: "server_step s (s\<lparr>server_documents := ds\<rparr>)"
| version: "server_step s (s\<lparr>server_versions := vs\<rparr>)"
| review: "db_results db = server_results s \<Longrightarrow> review_result E frames now t db i p = Some (db', answer) \<Longrightarrow>
     server_step s (s\<lparr>server_results := db_results db'\<rparr>)"

definition server_start :: "server_state \<Rightarrow> bool" where
  "server_start s \<longleftrightarrow> server_jobs s = [] \<and> server_results s = [] \<and> worker_phase s = (\<lambda>_. Resting)"

inductive server_reachable :: "server_state \<Rightarrow> bool" where
  start: "server_start s \<Longrightarrow> server_reachable s"
| step: "server_reachable s \<Longrightarrow> server_step s s' \<Longrightarrow> server_reachable s'"

inductive_cases server_stepE: "server_step s s'"

section \<open>What holds of the rows\<close>

definition known_stage :: "string \<Rightarrow> bool" where
  "known_stage st \<longleftrightarrow> st = ''cancelled'' \<or> obj_get JOB_STAGE_PROGRESS_PCT st \<noteq> None"

lemma known_stages [simp]:
  "known_stage ''queued''" "known_stage ''completed''" "known_stage ''failed''" "known_stage ''cancelled''"
  by (simp_all add: known_stage_def JOB_STAGE_PROGRESS_PCT_def obj_get_def)

definition job_ok :: "server_job \<Rightarrow> bool" where
  "job_ok j \<longleftrightarrow>
     sj_status j \<in> {''queued'', ''running'', ''completed'', ''failed'', ''cancelled''} \<and> sj_pct j \<le> 100 \<and> known_stage (sj_stage j) \<and>
     (sj_status j = ''queued'' \<longrightarrow> sj_stage j = ''queued'' \<and> sj_pct j = 0 \<and> sj_worker j = None \<and> sj_error j = None) \<and>
     (sj_status j = ''running'' \<longrightarrow> sj_worker j \<noteq> None \<and> sj_error j = None) \<and>
     (sj_status j = ''completed'' \<longrightarrow> sj_stage j = ''completed'' \<and> sj_pct j = 100 \<and>
        (sj_error j = None \<or> sj_error j = Some ''Cancelled by operator.'')) \<and>
     (sj_status j = ''failed'' \<longrightarrow> sj_stage j = ''failed'' \<and> sj_pct j = 0 \<and> sj_error j \<noteq> None) \<and>
     (sj_status j = ''cancelled'' \<longrightarrow> sj_error j = Some ''Cancelled by operator.'')"

fun phase_job :: "phase \<Rightarrow> jsnum option" where
  "phase_job Resting = None"
| "phase_job (Claimed i) = Some i"
| "phase_job (Parsing i) = Some i"
| "phase_job (Parsed i) = Some i"
| "phase_job (Executing k i) = Some i"
| "phase_job (Executed r i) = Some i"
| "phase_job (Finishing r i) = Some i"
| "phase_job (Raised m i) = Some i"
| "phase_job (Failing m i) = Some i"

text \<open>The stage and percentage that a running job shows while its worker is in a phase.\<close>

definition at_stage :: "string \<Rightarrow> server_job \<Rightarrow> bool" where
  "at_stage st j \<longleftrightarrow> sj_stage j = st \<and> Some (sj_pct j) = obj_get JOB_STAGE_PROGRESS_PCT st"

fun phase_shown :: "phase \<Rightarrow> server_job \<Rightarrow> bool" where
  "phase_shown (Claimed i) j = at_stage ''queued'' j"
| "phase_shown (Parsing i) j = at_stage ''parsing'' j"
| "phase_shown (Parsed i) j = at_stage ''parsing'' j"
| "phase_shown (Executing k i) j =
     (k \<le> length executor_stages \<and> at_stage (if k = 0 then ''parsing'' else executor_stages ! (k - 1)) j)"
| "phase_shown (Executed r i) j = at_stage ''calculating'' j"
| "phase_shown (Finishing r i) j = at_stage ''calculating'' j"
| "phase_shown p j = True"

definition phase_ok :: "string \<Rightarrow> phase \<Rightarrow> server_job \<Rightarrow> bool" where
  "phase_ok w p j \<longleftrightarrow>
     (sj_status j = ''running'' \<and> sj_worker j = Some w \<and> phase_shown p j) \<or> sj_status j = ''cancelled''"

definition result_jobs :: "server_state \<Rightarrow> jsnum set" where
  "result_jobs s = stored_job ` set (server_results s)"

definition server_sound :: "server_state \<Rightarrow> bool" where
  "server_sound s \<longleftrightarrow>
     distinct (map sj_id (server_jobs s)) \<and> distinct (map stored_job (server_results s)) \<and>
     (\<forall>j \<in> set (server_jobs s). job_ok j \<and> (sj_status j = ''completed'' \<longleftrightarrow> sj_id j \<in> result_jobs s)) \<and>
     result_jobs s \<subseteq> sj_id ` set (server_jobs s) \<and>
     (\<forall>w i. phase_job (worker_phase s w) = Some i \<longrightarrow>
        (\<exists>j \<in> set (server_jobs s). sj_id j = i \<and> phase_ok w (worker_phase s w) j) \<and>
        (\<forall>v. phase_job (worker_phase s v) = Some i \<longrightarrow> v = w))"

lemma row_of_job_member:
  "distinct (map sj_id (server_jobs s)) \<Longrightarrow> row_of_job s i = Some j \<longleftrightarrow> j \<in> set (server_jobs s) \<and> sj_id j = i"
proof -
  assume "distinct (map sj_id (server_jobs s))"
  then have "find (\<lambda>j. sj_id j = i) js = Some j \<longleftrightarrow> j \<in> set js \<and> sj_id j = i" if "distinct (map sj_id js)" for js
    using that by (induction js) (auto simp: image_iff)
  then show ?thesis using \<open>distinct (map sj_id (server_jobs s))\<close> by (simp add: row_of_job_def)
qed

text \<open>One row changes, and the phase of one worker on it at most.\<close>

lemma sound_update:
  assumes "server_sound s" "j \<in> set (server_jobs s)" "sj_id j = i" "sj_id (f j) = i" "job_ok (f j)"
    and "server_jobs s' = map (\<lambda>j. if sj_id j = i then f j else j) (server_jobs s)"
    and "distinct (map stored_job (server_results s'))" "result_jobs s' - {i} = result_jobs s - {i}"
    and "i \<in> result_jobs s' \<longleftrightarrow> sj_status (f j) = ''completed''"
    and "\<And>v. v \<noteq> w \<Longrightarrow> worker_phase s' v = worker_phase s v"
    and "\<And>v. v \<noteq> w \<Longrightarrow> phase_job (worker_phase s v) = Some i \<Longrightarrow>
      phase_ok v (worker_phase s v) (f j) \<and> phase_job (worker_phase s' w) \<noteq> Some i"
    and "phase_job (worker_phase s' w) = Some i \<and> phase_ok w (worker_phase s' w) (f j)
      \<or> phase_job (worker_phase s' w) = None \<or> worker_phase s' w = worker_phase s w \<and> phase_job (worker_phase s w) \<noteq> Some i"
  shows "server_sound s'"
proof -
  have dist: "distinct (map sj_id (server_jobs s))" using assms(1) by (simp add: server_sound_def)
  then have same: "j' = j" if "j' \<in> set (server_jobs s)" "sj_id j' = i" for j'
    using that assms(2,3) by (simp add: distinct_map inj_on_def)
  have ids: "map sj_id (server_jobs s') = map sj_id (server_jobs s)"
    using same assms(4) by (auto simp: assms(6))
  have rows: "set (server_jobs s') = insert (f j) (set (server_jobs s) - {j})"
  proof -
    have "(if sj_id x = i then f x else x) = (if x = j then f j else x)" if "x \<in> set (server_jobs s)" for x
    proof (cases "x = j")
      case False
      with same [OF that] have "sj_id x \<noteq> i" by blast
      with False show ?thesis by simp
    qed (simp add: assms(3))
    then have "set (server_jobs s') = (\<lambda>x. if x = j then f j else x) ` set (server_jobs s)"
      unfolding assms(6) set_map by (rule image_cong [OF refl])
    then show ?thesis using assms(2) by auto
  qed
  have other: "sj_id j' \<noteq> i" if "j' \<in> set (server_jobs s) - {j}" for j' using that same by blast
  have res: "k \<in> result_jobs s' \<longleftrightarrow> k \<in> result_jobs s" if "k \<noteq> i" for k using assms(8) that by blast
  have old: "job_ok x \<and> (sj_status x = ''completed'' \<longleftrightarrow> sj_id x \<in> result_jobs s)" if "x \<in> set (server_jobs s)" for x
    using assms(1) that by (simp add: server_sound_def)
  have "job_ok x \<and> (sj_status x = ''completed'' \<longleftrightarrow> sj_id x \<in> result_jobs s')" if "x \<in> set (server_jobs s')" for x
  proof (cases "x = f j")
    case True
    then show ?thesis using assms(4,5,9) by simp
  next
    case False
    with that rows have x: "x \<in> set (server_jobs s) - {j}" by blast
    with old [of x] res [OF other [OF x]] show ?thesis by simp
  qed
  moreover have "result_jobs s' \<subseteq> sj_id ` set (server_jobs s')"
  proof -
    have "result_jobs s \<subseteq> sj_id ` set (server_jobs s)" using assms(1) by (simp add: server_sound_def)
    moreover have "sj_id ` set (server_jobs s') = sj_id ` set (server_jobs s)" using ids by (metis set_map)
    moreover have "i \<in> sj_id ` set (server_jobs s)" using assms(2,3) by blast
    moreover have "result_jobs s' \<subseteq> insert i (result_jobs s)" using assms(8) by blast
    ultimately show ?thesis by blast
  qed
  moreover have "(\<exists>j \<in> set (server_jobs s'). sj_id j = k \<and> phase_ok v (worker_phase s' v) j) \<and>
      (\<forall>u. phase_job (worker_phase s' u) = Some k \<longrightarrow> u = v)" if k: "phase_job (worker_phase s' v) = Some k" for v k
  proof -
    have old: "(\<exists>x \<in> set (server_jobs s). sj_id x = l \<and> phase_ok u (worker_phase s u) x) \<and>
        (\<forall>t. phase_job (worker_phase s t) = Some l \<longrightarrow> t = u)" if "phase_job (worker_phase s u) = Some l" for u l
      using assms(1) that by (simp add: server_sound_def)
    show ?thesis
    proof (cases "k = i")
      case True
      have "phase_ok v (worker_phase s' v) (f j)"
      proof (cases "v = w")
        case True
        with assms(12) k \<open>k = i\<close> show ?thesis by auto
      next
        case False
        with assms(10) [OF False] assms(11) [OF False] k \<open>k = i\<close> show ?thesis by simp
      qed
      moreover have "u = v" if u: "phase_job (worker_phase s' u) = Some i" for u
      proof (rule ccontr)
        assume ne: "u \<noteq> v"
        have in_s: "phase_job (worker_phase s t) = Some i" if "t \<noteq> w" "phase_job (worker_phase s' t) = Some i" for t
          using that(2) assms(10) [OF that(1)] by simp
        have not_w: "t = w" if "phase_job (worker_phase s' t) = Some i" "phase_job (worker_phase s' w) = Some i" for t
          using assms(11) in_s that by blast
        have k_i: "phase_job (worker_phase s' v) = Some i" using k True by simp
        show False
        proof (cases "u = w \<or> v = w")
          case True
          with not_w [OF u] not_w [OF k_i] u k_i ne show False by blast
        next
          case False
          with old [OF in_s [OF _ k_i]] in_s [OF _ u] ne show False by blast
        qed
      qed
      ultimately show ?thesis using True assms(4) rows by auto
    next
      case False
      have before: "phase_job (worker_phase s u) = Some k \<and> worker_phase s' u = worker_phase s u"
        if "phase_job (worker_phase s' u) = Some k" for u
        using that False assms(10) [of u] assms(12) by (cases "u = w") auto
      from old [of v k] before [OF k] obtain x where x: "x \<in> set (server_jobs s)" "sj_id x = k" "phase_ok v (worker_phase s' v) x" by auto
      with False assms(3) rows have "x \<in> set (server_jobs s')" by auto
      with x before old [of v k] before [OF k] show ?thesis by blast
    qed
  qed
  ultimately show ?thesis using dist assms(7) ids by (simp add: server_sound_def)
qed

section \<open>Every step keeps the rows sound\<close>

lemma server_frame [simp]:
  "server_jobs (set_document k g s) = server_jobs s" "server_results (set_document k g s) = server_results s"
  "worker_phase (set_document k g s) = worker_phase s"
  "server_jobs (set_phase w p s) = server_jobs s" "server_results (set_phase w p s) = server_results s"
  "worker_phase (set_phase w p s) = (worker_phase s)(w := p)"
  "server_jobs (audit a i s) = server_jobs s" "server_results (audit a i s) = server_results s"
  "worker_phase (audit a i s) = worker_phase s"
  "server_jobs (set_job i f s) = map (\<lambda>j. if sj_id j = i then f j else j) (server_jobs s)"
  "server_results (set_job i f s) = server_results s" "worker_phase (set_job i f s) = worker_phase s"
  "server_jobs (store_result rid i r s) = server_jobs s" "worker_phase (store_result rid i r s) = worker_phase s"
  by (simp_all add: set_document_def set_phase_def audit_def set_job_def store_result_def Let_def)

lemma set_job_document_frame [simp]:
  "server_jobs (set_job_document i st s) = server_jobs s" "server_results (set_job_document i st s) = server_results s"
  "worker_phase (set_job_document i st s) = worker_phase s"
  by (simp_all add: set_job_document_def split: option.split)

lemma result_jobs_cong: "server_results s' = server_results s \<Longrightarrow> result_jobs s' = result_jobs s"
  by (simp add: result_jobs_def)

lemma owner:
  assumes "server_sound s" "phase_job (worker_phase s w) = Some i"
  obtains j where "j \<in> set (server_jobs s)" "sj_id j = i" "row_of_job s i = Some j" "phase_ok w (worker_phase s w) j"
    "job_ok j" "i \<notin> result_jobs s" "\<And>v. v \<noteq> w \<Longrightarrow> phase_job (worker_phase s v) \<noteq> Some i"
proof -
  from assms obtain j where j: "j \<in> set (server_jobs s)" "sj_id j = i" "phase_ok w (worker_phase s w) j"
    and one: "\<forall>v. phase_job (worker_phase s v) = Some i \<longrightarrow> v = w" unfolding server_sound_def by blast
  moreover have "row_of_job s i = Some j" using assms(1) j(1,2) by (simp add: server_sound_def row_of_job_member)
  moreover have "job_ok j" "sj_status j = ''completed'' \<longleftrightarrow> i \<in> result_jobs s" using assms(1) j(1,2) by (auto simp: server_sound_def)
  moreover have "sj_status j \<noteq> ''completed''" using j(3) by (auto simp: phase_ok_def)
  ultimately show thesis using that one by blast
qed

lemma sound_own_job:
  assumes "server_sound s" "phase_job (worker_phase s w) = Some i" "row_of_job s i = Some j"
    and "sj_id (f j) = i" "job_ok (f j)" "worker_phase s' = (worker_phase s)(w := p)"
    and "server_jobs s' = map (\<lambda>j. if sj_id j = i then f j else j) (server_jobs s)"
    and "distinct (map stored_job (server_results s'))" "result_jobs s' - {i} = result_jobs s - {i}"
    and "i \<in> result_jobs s' \<longleftrightarrow> sj_status (f j) = ''completed''"
    and "phase_job p = None \<or> phase_job p = Some i \<and> phase_ok w p (f j)"
  shows "server_sound s'"
proof -
  from owner [OF assms(1,2)] obtain k where k: "k \<in> set (server_jobs s)" "sj_id k = i" "row_of_job s i = Some k"
    and alone: "\<And>v. v \<noteq> w \<Longrightarrow> phase_job (worker_phase s v) \<noteq> Some i" by metis
  from k(3) assms(3) have "k = j" by simp
  show ?thesis
    by (rule sound_update [OF assms(1), of j i f s' w])
      (use k \<open>k = j\<close> alone assms(4-11) in auto)
qed

text \<open>Only the phase moves on.\<close>

lemma sound_own_phase:
  assumes "server_sound s" "phase_job (worker_phase s w) = Some i" "row_of_job s i = Some j"
    and "worker_phase s' = (worker_phase s)(w := p)" "server_jobs s' = server_jobs s" "server_results s' = server_results s"
    and "phase_job p = None \<or> phase_job p = Some i \<and> phase_ok w p j"
  shows "server_sound s'"
proof -
  from owner [OF assms(1,2)] obtain k where k: "k \<in> set (server_jobs s)" "sj_id k = i" "row_of_job s i = Some k" "job_ok k"
    "i \<notin> result_jobs s" "phase_ok w (worker_phase s w) k" by metis
  from k(3) assms(3) have kj: "k = j" by simp
  have "sj_status k \<noteq> ''completed''" using k(6) by (auto simp: phase_ok_def)
  then have res: "i \<in> result_jobs s' \<longleftrightarrow> sj_status j = ''completed''" using k(5) kj by (simp add: result_jobs_cong [OF assms(6)])
  have dist: "distinct (map stored_job (server_results s'))" using assms(1,6) by (simp add: server_sound_def)
  have jobs: "server_jobs s' = map (\<lambda>x. if sj_id x = i then (\<lambda>x. x) x else x) (server_jobs s)" by (simp add: assms(5))
  have id: "sj_id j = i" "job_ok j" using k kj by simp_all
  show ?thesis
    by (rule sound_own_job [OF assms(1-3), of "\<lambda>x. x", OF id assms(4) jobs dist _ res assms(7)])
      (simp add: result_jobs_cong [OF assms(6)])
qed

lemma progress_table: "\<forall>st \<in> set (map fst JOB_STAGE_PROGRESS_PCT). \<exists>p. obj_get JOB_STAGE_PROGRESS_PCT st = Some p \<and> p \<le> 100"
  by (simp add: JOB_STAGE_PROGRESS_PCT_def obj_get_def)

lemma job_ok_progress:
  assumes "job_ok j" "sj_status j = ''running'' \<or> sj_status j = ''cancelled''" "st \<in> set (map fst JOB_STAGE_PROGRESS_PCT)"
  shows "job_ok (update_job_progress st j)" "sj_id (update_job_progress st j) = sj_id j"
    "sj_status (update_job_progress st j) = sj_status j" "sj_worker (update_job_progress st j) = sj_worker j"
    "at_stage st (update_job_progress st j)"
proof -
  from progress_table assms(3) obtain p where p: "obj_get JOB_STAGE_PROGRESS_PCT st = Some p" "p \<le> 100" by blast
  then show "job_ok (update_job_progress st j)" using assms(1,2) by (elim disjE) (simp_all add: job_ok_def update_job_progress_def known_stage_def)
  show "sj_id (update_job_progress st j) = sj_id j" "sj_status (update_job_progress st j) = sj_status j"
    "sj_worker (update_job_progress st j) = sj_worker j" "at_stage st (update_job_progress st j)"
    using p by (simp_all add: update_job_progress_def at_stage_def)
qed

lemma queued_job:
  assumes "find (\<lambda>j. sj_status j = ''queued'') js = Some j"
  shows "j \<in> set js" "sj_status j = ''queued''"
  using assms by (auto simp: find_Some_iff)

lemma nobody_on:
  assumes "server_sound s" "j \<in> set (server_jobs s)" "sj_status j \<noteq> ''running''" "sj_status j \<noteq> ''cancelled''"
  shows "phase_job (worker_phase s v) \<noteq> Some (sj_id j)"
proof
  assume "phase_job (worker_phase s v) = Some (sj_id j)"
  with assms(1) obtain k where k: "row_of_job s (sj_id j) = Some k" "phase_ok v (worker_phase s v) k" by (rule owner)
  moreover have "row_of_job s (sj_id j) = Some j" using assms(1,2) by (simp add: row_of_job_member server_sound_def)
  ultimately show False using assms(3,4) by (auto simp: phase_ok_def)
qed

lemma status_result: "server_sound s \<Longrightarrow> j \<in> set (server_jobs s) \<Longrightarrow> sj_id j \<in> result_jobs s \<longleftrightarrow> sj_status j = ''completed''"
  by (simp add: server_sound_def)

lemma sound_results: "server_sound s \<Longrightarrow> distinct (map stored_job (server_results s))"
  by (simp add: server_sound_def)

lemma claimed_ok:
  assumes "job_ok j" "sj_status j = ''queued''"
  shows "job_ok (claimed_job w j)" "phase_ok w (Claimed i) (claimed_job w j)" "sj_id (claimed_job w j) = sj_id j"
    "sj_status (claimed_job w j) = ''running''"
proof -
  from assms have q: "sj_stage j = ''queued''" "sj_pct j = 0" "sj_error j = None" by (simp_all add: job_ok_def)
  then show "job_ok (claimed_job w j)" by (simp add: job_ok_def claimed_job_def)
  show "phase_ok w (Claimed i) (claimed_job w j)"
    using q by (simp add: phase_ok_def claimed_job_def at_stage_def JOB_STAGE_PROGRESS_PCT_def obj_get_def)
qed (simp_all add: claimed_job_def)

lemma claim_sound:
  assumes "server_sound s" "worker_step w Claim s = Some s'"
  shows "server_sound s'"
proof (cases "find (\<lambda>j. sj_status j = ''queued'') (server_jobs s)")
  case None
  with assms show ?thesis by (simp split: if_splits)
next
  case (Some j)
  note j = queued_job [OF Some]
  let ?s = "set_phase w (Claimed (sj_id j)) (set_job (sj_id j) (claimed_job w) s)"
  have ok: "job_ok j" using assms(1) j(1) by (simp add: server_sound_def)
  note c = claimed_ok [OF ok j(2)]
  have res: "sj_id j \<in> result_jobs ?s \<longleftrightarrow> sj_status (claimed_job w j) = ''completed''"
    using status_result [OF assms(1) j(1)] j(2) c(4) by (simp add: result_jobs_def)
  have none: "phase_job (worker_phase s v) \<noteq> Some (sj_id j)" for v
    by (rule nobody_on [OF assms(1) j(1)]) (simp_all add: j(2))
  have "server_sound ?s"
  proof (rule sound_update [of s j "sj_id j" "claimed_job w" ?s w])
    show "server_sound s" "j \<in> set (server_jobs s)" "sj_id j = sj_id j" "sj_id (claimed_job w j) = sj_id j"
      "job_ok (claimed_job w j)" "sj_id j \<in> result_jobs ?s \<longleftrightarrow> sj_status (claimed_job w j) = ''completed''"
      using assms(1) j(1) c(1,3) res by simp_all
    show "phase_job (worker_phase ?s w) = Some (sj_id j) \<and> phase_ok w (worker_phase ?s w) (claimed_job w j) \<or>
      phase_job (worker_phase ?s w) = None \<or> worker_phase ?s w = worker_phase s w \<and> phase_job (worker_phase s w) \<noteq> Some (sj_id j)"
      by (simp add: c(2))
  qed (use none sound_results [OF assms(1)] in \<open>simp_all add: result_jobs_def\<close>)
  moreover have "s' = ?s" using assms(2) Some by (simp split: if_splits)
  ultimately show ?thesis by simp
qed

lemma sound_cong:
  "server_sound s \<Longrightarrow> server_jobs s' = server_jobs s \<Longrightarrow> server_results s' = server_results s \<Longrightarrow>
   worker_phase s' = worker_phase s \<Longrightarrow> server_sound s'"
  by (simp add: server_sound_def result_jobs_def)

lemma phase_ok_moves: "phase_ok w p j \<Longrightarrow> (phase_shown p j \<Longrightarrow> phase_shown q j) \<Longrightarrow> phase_ok w q j"
  by (auto simp: phase_ok_def)

lemma raised_ok: "phase_ok w p j \<Longrightarrow> phase_ok w (Raised m i) j" "phase_ok w p j \<Longrightarrow> phase_ok w (Failing m i) j"
  by (auto simp: phase_ok_def)

lemma job_ok_failed: "job_ok (failed_job m j)" "sj_id (failed_job m j) = sj_id j" "sj_status (failed_job m j) = ''failed''"
  by (simp_all add: job_ok_def failed_job_def)

lemma job_ok_completed:
  assumes "job_ok j" "phase_ok w p j"
  shows "job_ok (completed_job j)" "sj_id (completed_job j) = sj_id j" "sj_status (completed_job j) = ''completed''"
proof -
  have "sj_error j = None \<or> sj_error j = Some ''Cancelled by operator.''" using assms by (auto simp: job_ok_def phase_ok_def)
  then show "job_ok (completed_job j)" by (simp add: job_ok_def completed_job_def)
qed (simp_all add: completed_job_def)

lemma store_new_result:
  assumes "i \<notin> result_jobs s" "distinct (map stored_job (server_results s))"
  shows "distinct (map stored_job (server_results (store_result rid i r s)))"
    "result_jobs (store_result rid i r s) = insert i (result_jobs s)"
  using assms by (auto simp: store_result_def result_jobs_def Let_def)

text \<open>The worker writes its own job: the results are as before, or gain the one of this job.\<close>

lemma sound_own_write:
  assumes "server_sound s" "phase_job (worker_phase s w) = Some i" "row_of_job s i = Some j"
    and "sj_id (f j) = sj_id j" "job_ok (f j)" "sj_status (f j) \<noteq> ''completed''"
    and "phase_job p = None \<or> phase_job p = Some i \<and> phase_ok w p (f j)"
    and "worker_phase s' = (worker_phase s)(w := p)"
    and "server_jobs s' = map (\<lambda>j. if sj_id j = i then f j else j) (server_jobs s)" "server_results s' = server_results s"
  shows "server_sound s'"
proof -
  from owner [OF assms(1,2)] obtain k where "row_of_job s i = Some k" "sj_id k = i" "i \<notin> result_jobs s" by metis
  with assms(3,4) have i: "sj_id (f j) = i" and new: "i \<notin> result_jobs s" by simp_all
  have same: "result_jobs s' = result_jobs s" by (rule result_jobs_cong [OF assms(10)])
  have res: "i \<in> result_jobs s' \<longleftrightarrow> sj_status (f j) = ''completed''" using new same assms(6) by blast
  have keep: "result_jobs s' - {i} = result_jobs s - {i}" by (simp only: same)
  have dist: "distinct (map stored_job (server_results s'))" by (simp only: assms(10) sound_results [OF assms(1)])
  show ?thesis by (rule sound_own_job [OF assms(1-3) i assms(5,8,9) dist keep res assms(7)])
qed

lemma progress_phase:
  assumes "phase_ok w p j" "job_ok j" "st \<in> set (map fst JOB_STAGE_PROGRESS_PCT)" "\<And>k. at_stage st k \<Longrightarrow> phase_shown q k"
  shows "phase_ok w q (update_job_progress st j)" "job_ok (update_job_progress st j)"
    "sj_status (update_job_progress st j) \<noteq> ''completed''"
proof -
  have run: "sj_status j = ''running'' \<or> sj_status j = ''cancelled''" using assms(1) by (auto simp: phase_ok_def)
  note u = job_ok_progress [OF assms(2) run assms(3)]
  have "phase_shown q (update_job_progress st j)" by (rule assms(4) [OF u(5)])
  with assms(1) show "phase_ok w q (update_job_progress st j)" by (simp only: phase_ok_def u(3,4)) blast
  show "job_ok (update_job_progress st j)" by (rule u(1))
  show "sj_status (update_job_progress st j) \<noteq> ''completed''" unfolding u(3) using run by (elim disjE) simp_all
qed

lemma begin_sound:
  assumes "server_sound s" "worker_phase s w = Claimed i"
  shows "server_sound (begin_pass w i s)"
proof -
  have p: "phase_job (worker_phase s w) = Some i" by (simp add: assms(2))
  from owner [OF assms(1) p] obtain j where j: "row_of_job s i = Some j" "sj_id j = i" "phase_ok w (Claimed i) j" "job_ok j"
    by (metis assms(2))
  let ?missing = "set_phase w Resting (set_job i (failed_job ''Document or template version missing.'') s)"
  have missing: "server_sound ?missing"
    by (rule sound_own_write [OF assms(1) p j(1), of "failed_job ''Document or template version missing.''" Resting])
      (simp_all add: job_ok_failed)
  show ?thesis
  proof (cases "row_of_document s (sj_document j)")
    case None
    with missing show ?thesis by (simp add: begin_pass_def j(1))
  next
    case (Some d)
    show ?thesis
    proof (cases "row_of_version s (sj_version j)")
      case None
      with Some missing show ?thesis by (simp add: begin_pass_def j(1))
    next
      case v: (Some v)
      let ?mismatch = "set_phase w (Raised (tenant_mismatch (sj_tenant j) (sd_tenant d) (sv_tenant v)) i) s"
      let ?begun = "set_phase w (Parsing i) (set_job i (update_job_progress ''parsing'') (set_job_document i ''processing'' s))"
      have "server_sound ?mismatch"
        by (rule sound_own_phase [OF assms(1) p j(1), of _ "Raised (tenant_mismatch (sj_tenant j) (sd_tenant d) (sv_tenant v)) i"])
          (simp_all add: raised_ok [OF j(3)])
      moreover have "server_sound ?begun"
      proof -
        have st: "''parsing'' \<in> set (map fst JOB_STAGE_PROGRESS_PCT)" by (simp add: JOB_STAGE_PROGRESS_PCT_def)
        note u = progress_phase [OF j(3,4) st, of "Parsing i"]
        show ?thesis
          by (rule sound_own_write [OF assms(1) p j(1), of "update_job_progress ''parsing''" "Parsing i"])
            (use u in \<open>simp_all add: update_job_progress_def\<close>)
      qed
      ultimately show ?thesis using Some v by (simp add: begin_pass_def j(1))
    qed
  qed
qed

lemma finish_sound:
  assumes "server_sound s" "worker_phase s w = Finishing r i"
  shows "server_sound (set_phase w Resting (audit ''job.completed'' i
    (set_job_document i ''completed'' (set_job i completed_job (store_result rid i r s)))))" (is "server_sound ?s")
proof -
  have p: "phase_job (worker_phase s w) = Some i" by (simp add: assms(2))
  from owner [OF assms(1) p] obtain j where j: "row_of_job s i = Some j" "sj_id j = i" "phase_ok w (Finishing r i) j" "job_ok j"
    "i \<notin> result_jobs s" by (metis assms(2))
  note c = job_ok_completed [OF j(4,3)] and r = store_new_result [OF j(5) sound_results [OF assms(1)], of rid r]
  have res: "server_results ?s = server_results (store_result rid i r s)" by simp
  note jobs = result_jobs_cong [OF res, unfolded r(2)]
  show ?thesis
  proof (rule sound_own_job [OF assms(1) p j(1), of completed_job ?s Resting])
    show "distinct (map stored_job (server_results ?s))" unfolding res by (rule r(1))
    show "result_jobs ?s - {i} = result_jobs s - {i}" "i \<in> result_jobs ?s \<longleftrightarrow> sj_status (completed_job j) = ''completed''"
      unfolding jobs c(3) by auto
  qed (simp_all add: c(1,2) j(2))
qed

lemma check_sound:
  assumes "server_sound s" "phase_job (worker_phase s w) = Some i" "phase_job q = Some i"
    and "\<And>j. phase_ok w (worker_phase s w) j \<Longrightarrow> phase_ok w q j"
  shows "server_sound (if is_job_cancelled s i then set_phase w Resting (finalize_cancelled_job i s) else set_phase w q s)"
proof -
  from owner [OF assms(1,2)] obtain j where j: "row_of_job s i = Some j" "phase_ok w (worker_phase s w) j" by metis
  have "server_sound (set_phase w Resting (finalize_cancelled_job i s))"
    by (rule sound_own_phase [OF assms(1,2) j(1), of _ Resting]) (simp_all add: finalize_cancelled_job_def)
  moreover have "server_sound (set_phase w q s)"
    by (rule sound_own_phase [OF assms(1,2) j(1), of _ q]) (simp_all add: assms(3,4) j(2))
  ultimately show ?thesis by simp
qed

lemma move_sound:
  assumes "server_sound s" "phase_job (worker_phase s w) = Some i" "phase_job q = None \<or> phase_job q = Some i"
    and "\<And>j. phase_ok w (worker_phase s w) j \<Longrightarrow> phase_ok w q j"
  shows "server_sound (set_phase w q s)"
proof -
  from owner [OF assms(1,2)] obtain j where j: "row_of_job s i = Some j" "phase_ok w (worker_phase s w) j" by metis
  show ?thesis by (rule sound_own_phase [OF assms(1,2) j(1), of _ q]) (use assms(3,4) j(2) in auto)
qed

lemma report_sound:
  assumes "server_sound s" "worker_phase s w = Executing k i" "k < length executor_stages"
  shows "server_sound (set_phase w (Executing (Suc k) i) (set_job i (update_job_progress (executor_stages ! k)) s))"
proof -
  have p: "phase_job (worker_phase s w) = Some i" by (simp add: assms(2))
  from owner [OF assms(1) p] obtain j where j: "row_of_job s i = Some j" "sj_id j = i" "phase_ok w (Executing k i) j" "job_ok j"
    by (metis assms(2))
  have "\<forall>st \<in> set executor_stages. st \<in> set (map fst JOB_STAGE_PROGRESS_PCT)"
    by (simp add: executor_stages_def JOB_STAGE_PROGRESS_PCT_def)
  with assms(3) have st: "executor_stages ! k \<in> set (map fst JOB_STAGE_PROGRESS_PCT)" using nth_mem by blast
  have shown: "phase_shown (Executing (Suc k) i) x" if "at_stage (executor_stages ! k) x" for x using that assms(3) by simp
  note u = progress_phase [OF j(3,4) st shown]
  show ?thesis
    by (rule sound_own_write [OF assms(1) p j(1), of "update_job_progress (executor_stages ! k)" "Executing (Suc k) i"])
      (use u in \<open>simp_all add: update_job_progress_def\<close>)
qed

lemma worker_sound:
  assumes "server_sound s" "worker_step w event s = Some s'"
  shows "server_sound s'"
proof (cases event)
  case Claim
  with assms claim_sound show ?thesis by blast
next
  case Begin
  with assms begin_sound show ?thesis by (auto split: phase.splits)
next
  case TextParsed
  with assms(2) obtain i where i: "worker_phase s w = Parsing i" "s' = set_phase w (Parsed i) s" by (auto split: phase.splits)
  show ?thesis unfolding i(2) by (rule move_sound [OF assms(1)]) (auto simp: i(1) intro: phase_ok_moves)
next
  case Report
  with assms report_sound show ?thesis by (auto split: phase.splits if_splits)
next
  case (Computed r)
  with assms(2) obtain i where i: "worker_phase s w = Executing (length executor_stages) i" "s' = set_phase w (Executed r i) s"
    by (auto split: phase.splits if_splits)
  show ?thesis
    unfolding i(2) by (rule move_sound [OF assms(1)]) (auto simp: i(1) executor_stages_def intro: phase_ok_moves)
next
  case (Commit rid)
  consider r i where "worker_phase s w = Finishing r i" | m i where "worker_phase s w = Failing m i"
    using assms(2) Commit by (auto split: phase.splits)
  then show ?thesis
  proof cases
    case (1 r i)
    with finish_sound [OF assms(1) 1, of rid] assms(2) Commit show ?thesis by simp
  next
    case (2 m i)
    have p: "phase_job (worker_phase s w) = Some i" by (simp add: 2)
    from owner [OF assms(1) p] obtain j where j: "row_of_job s i = Some j" "sj_id j = i" by metis
    have "server_sound (set_phase w Resting (audit ''job.failed'' i (set_job_document i ''failed'' (set_job i (failed_job m) s))))"
      by (rule sound_own_write [OF assms(1) p j(1), of "failed_job m" Resting]) (simp_all add: job_ok_failed)
    with assms(2) Commit 2 show ?thesis by simp
  qed
next
  case (RaiseError m)
  with assms(2) obtain i where i: "phase_job (worker_phase s w) = Some i" "s' = set_phase w (Raised m i) s"
    by (auto split: phase.splits)
  show ?thesis unfolding i(2) by (rule move_sound [OF assms(1) i(1)]) (auto intro: raised_ok)
next
  case Crash
  then have s': "s' = set_phase w Resting s" using assms(2) by simp
  show ?thesis
  proof (cases "phase_job (worker_phase s w)")
    case None
    then have "worker_phase s w = Resting" by (cases "worker_phase s w") auto
    then show ?thesis unfolding s' by (intro sound_cong [OF assms(1)]) auto
  next
    case (Some i)
    show ?thesis unfolding s' by (rule move_sound [OF assms(1) Some]) (auto simp: phase_ok_def)
  qed
next
  case Check
  have moved: "server_sound s'" if "phase_job (worker_phase s w) = Some i" "phase_job q = Some i"
    "\<And>j. phase_ok w (worker_phase s w) j \<Longrightarrow> phase_ok w q j"
    "s' = (if is_job_cancelled s i then set_phase w Resting (finalize_cancelled_job i s) else set_phase w q s)" for i q
    unfolding that(4) by (rule check_sound [OF assms(1) that(1-3)])
  consider i where "worker_phase s w = Parsed i" | r i where "worker_phase s w = Executed r i" | m i where "worker_phase s w = Raised m i"
    using assms(2) Check by (auto split: phase.splits)
  then show ?thesis
  proof cases
    case (1 i)
    have "phase_ok w (Parsed i) j \<Longrightarrow> phase_ok w (Executing 0 i) j" for j by (simp add: phase_ok_def)
    then show ?thesis
      using 1 assms(2) Check by (intro moved [of i "Executing 0 i"]) (auto split: if_splits)
  next
    case (2 r i)
    have "phase_ok w (Executed r i) j \<Longrightarrow> phase_ok w (Finishing r i) j" for j by (simp add: phase_ok_def)
    then show ?thesis
      using 2 assms(2) Check by (intro moved [of i "Finishing r i"]) (auto split: if_splits)
  next
    case (3 m i)
    then show ?thesis
      using assms(2) Check raised_ok(2) by (intro moved [of i "Failing m i"]) (auto split: if_splits)
  qed
qed

section \<open>Requests keep the rows sound\<close>

lemma new_job_sound:
  assumes "server_sound s" "fresh_row s i" "job_ok j" "sj_id j = i" "sj_status j = ''queued''"
    and "server_jobs s' = server_jobs s @ [j]" "server_results s' = server_results s" "worker_phase s' = worker_phase s"
  shows "server_sound s'"
proof -
  have same: "result_jobs s' = result_jobs s" by (rule result_jobs_cong [OF assms(7)])
  have out: "i \<notin> sj_id ` set (server_jobs s)" using assms(2) by (simp add: fresh_row_def)
  then have "i \<notin> result_jobs s" using assms(1) by (auto simp: server_sound_def)
  with assms(1,3-5) out show ?thesis
    unfolding server_sound_def same assms(6-8) by auto
qed

lemma job_request_sound:
  assumes "server_sound s" "j \<in> set (server_jobs s)" "sj_status j \<noteq> ''completed''" "sj_id (f j) = sj_id j" "job_ok (f j)"
    and "sj_status (f j) \<noteq> ''completed''"
    and "\<And>v. phase_job (worker_phase s v) = Some (sj_id j) \<Longrightarrow> phase_ok v (worker_phase s v) (f j)"
    and "server_jobs s' = server_jobs (set_job (sj_id j) f s)" "server_results s' = server_results s" "worker_phase s' = worker_phase s"
  shows "server_sound s'"
proof -
  have same: "result_jobs s' = result_jobs s" by (rule result_jobs_cong [OF assms(9)])
  have res: "sj_id j \<in> result_jobs s' \<longleftrightarrow> sj_status (f j) = ''completed''"
    using status_result [OF assms(1,2)] assms(3,6) same by simp
  obtain w where w: "phase_job (worker_phase s w) = Some (sj_id j) \<or> (\<forall>v. phase_job (worker_phase s v) \<noteq> Some (sj_id j))" by blast
  have alone: "v = w" if "phase_job (worker_phase s v) = Some (sj_id j)" for v
    using w that assms(1) unfolding server_sound_def by blast
  show ?thesis
  proof (rule sound_update [of s j "sj_id j" f s' w])
    show "server_sound s" "j \<in> set (server_jobs s)" "sj_id j = sj_id j" "sj_id (f j) = sj_id j" "job_ok (f j)"
      "server_jobs s' = map (\<lambda>k. if sj_id k = sj_id j then f k else k) (server_jobs s)"
      "sj_id j \<in> result_jobs s' \<longleftrightarrow> sj_status (f j) = ''completed''"
      using assms(1,2,4,5,8) res by simp_all
    show "distinct (map stored_job (server_results s'))" by (simp only: assms(9) sound_results [OF assms(1)])
    show "result_jobs s' - {sj_id j} = result_jobs s - {sj_id j}" by (simp only: same)
    show "worker_phase s' v = worker_phase s v" for v by (simp only: assms(10))
    show "phase_ok v (worker_phase s v) (f j) \<and> phase_job (worker_phase s' w) \<noteq> Some (sj_id j)"
      if "v \<noteq> w" "phase_job (worker_phase s v) = Some (sj_id j)" for v
      using that alone by blast
    show "phase_job (worker_phase s' w) = Some (sj_id j) \<and> phase_ok w (worker_phase s' w) (f j) \<or>
      phase_job (worker_phase s' w) = None \<or> worker_phase s' w = worker_phase s w \<and> phase_job (worker_phase s w) \<noteq> Some (sj_id j)"
      using w assms(7) [of w] unfolding assms(10) by blast
  qed
qed

lemma of_tenant_SomeD: "of_tenant tenant_of t x = Some r \<Longrightarrow> x = Some r \<and> tenant_of r = t"
  by (auto simp: of_tenant_def split: option.splits if_splits)

lemma create_sound:
  assumes "server_sound s" "fresh_row s i"
  shows "server_sound (fst (create_job pol t i now doc ver override s))"
proof (cases "fst (create_job pol t i now doc ver override s) = s")
  case False
  then have s': "fst (create_job pol t i now doc ver override s) = audit ''job.queued'' i
      (set_document doc (\<lambda>d. d\<lparr>sd_status := ''queued''\<rparr>) (s\<lparr>server_jobs := server_jobs s @ [new_job i t doc ver override now]\<rparr>))"
    by (auto simp: create_job_def Let_def split: sum.splits option.splits)
  show ?thesis
    unfolding s' by (rule new_job_sound [OF assms, of "new_job i t doc ver override now"]) (simp_all add: new_job_def job_ok_def)
qed (simp add: assms(1))

lemma retry_sound:
  assumes "server_sound s"
  shows "server_sound (fst (retry_job pol t i now s))"
proof (cases "fst (retry_job pol t i now s) = s")
  case False
  then obtain j where j: "of_tenant sj_tenant t (row_of_job s i) = Some j" "sj_status j = ''failed''"
    and s': "fst (retry_job pol t i now s) = audit ''job.retried'' i
      (set_document (sj_document j) (\<lambda>d. d\<lparr>sd_status := ''queued''\<rparr>) (set_job i retry_failed_job s))"
    by (auto simp: retry_job_def split: option.splits if_splits)
  have m: "j \<in> set (server_jobs s)" "sj_id j = i"
    using of_tenant_SomeD [OF j(1)] assms by (simp_all add: row_of_job_member server_sound_def)
  have "job_ok (retry_failed_job j)" by (simp add: job_ok_def retry_failed_job_def)
  moreover have "phase_job (worker_phase s v) \<noteq> Some (sj_id j)" for v
    by (rule nobody_on [OF assms m(1)]) (simp_all add: j(2))
  ultimately show ?thesis
    unfolding s' by (intro job_request_sound [OF assms m(1), of retry_failed_job]) (simp_all add: j(2) m(2), simp_all add: retry_failed_job_def m(2))
qed (simp add: assms)

lemma cancel_sound:
  assumes "server_sound s"
  shows "server_sound (fst (cancel_job_route t i now s))"
proof (cases "fst (cancel_job_route t i now s) = s")
  case False
  then obtain j where j: "of_tenant sj_tenant t (row_of_job s i) = Some j" "sj_status j = ''queued'' \<or> sj_status j = ''running''"
    and s': "fst (cancel_job_route t i now s) = audit ''job.cancelled'' i
      (set_document (sj_document j) cancelled_document (set_job i cancel_job s))"
    by (auto simp: cancel_job_route_def split: option.splits if_splits)
  have m: "j \<in> set (server_jobs s)" "sj_id j = i"
    using of_tenant_SomeD [OF j(1)] assms by (simp_all add: row_of_job_member server_sound_def)
  have "job_ok (cancel_job j)" "phase_ok v p (cancel_job j)" for v p by (simp_all add: job_ok_def cancel_job_def phase_ok_def)
  then show ?thesis
    unfolding s' using j(2)
    by (intro job_request_sound [OF assms m(1), of cancel_job]) (auto simp: cancel_job_def m(2))
qed (simp add: assms)

lemma review_keeps_jobs:
  assumes "review_result E frames now t db i p = Some (db', answer)"
  shows "map stored_job (db_results db') = map stored_job (db_results db)"
proof (cases "find_result db t i")
  case None
  with assms show ?thesis by (auto simp: review_result_def)
next
  case (Some r)
  with assms obtain r' rows where a: "apply_review_edits E frames now db r p = Some (r', rows)"
    and db': "db_results db' = update_first (\<lambda>s. stored_id s = i \<and> stored_tenant s = t) (\<lambda>_. r') (db_results db)"
    by (auto simp: review_result_def)
  have "map stored_job (update_first P (\<lambda>_. y) xs) = map stored_job xs" if "find P xs = Some x" "stored_job y = stored_job x" for P x y xs
    using that by (induction xs) (auto split: if_splits)
  from this [OF Some [unfolded find_result_def]] applied_keeps(2) [OF a] show ?thesis unfolding db' by simp
qed

lemma step_sound: "server_step s s' \<Longrightarrow> server_sound s \<Longrightarrow> server_sound s'"
proof (induction rule: server_step.induct)
  case (review db s E frames now t i p db' answer)
  from review_keeps_jobs [OF review(2)] review(1) have m: "map stored_job (db_results db') = map stored_job (server_results s)" by simp
  then have "stored_job ` set (db_results db') = stored_job ` set (server_results s)" by (metis set_map)
  with review(3) m show ?case by (simp add: server_sound_def result_jobs_def)
qed (use create_sound retry_sound cancel_sound worker_sound in \<open>auto intro: sound_cong\<close>)

lemma start_sound: "server_start s \<Longrightarrow> server_sound s"
  by (simp add: server_start_def server_sound_def result_jobs_def)

lemma reachable_sound: "server_reachable s \<Longrightarrow> server_sound s"
  by (induction rule: server_reachable.induct) (auto intro: start_sound step_sound)


section \<open>What the app shows of a job\<close>

lemma sound_row: "server_sound s \<Longrightarrow> j \<in> set (server_jobs s) \<Longrightarrow> row_of_job s (sj_id j) = Some j"
  using row_of_job_member by (simp add: server_sound_def)

lemma clamp_small:
  assumes "n \<le> 100"
  shows "clampProgressPct (Some (num_of_nat n)) = num_of_nat n"
proof -
  have "\<lfloor>rat_of_nat n + 1 / 2\<rfloor> = int n" by (simp add: floor_eq_iff)
  then have "num_round (num_of_nat n) = num_of_nat n" by (simp add: num_round_def)
  moreover have "rat_of_nat n \<le> 100" using assms by (metis of_nat_le_iff of_nat_numeral)
  ultimately show ?thesis by (simp add: clampProgressPct_def num_min_def num_max_def)
qed

lemma stage_labels:
  assumes "known_stage st"
  shows "getJobStageLabel (Some st) = coalesce (obj_get SERVER_STAGE_LABELS st) st"
proof -
  have "\<forall>st \<in> set (''cancelled'' # map fst JOB_STAGE_PROGRESS_PCT). getJobStageLabel (Some st) = coalesce (obj_get SERVER_STAGE_LABELS st) st"
    by code_simp
  moreover have "st \<in> set (''cancelled'' # map fst JOB_STAGE_PROGRESS_PCT)"
    using assms map_of_SomeD [of JOB_STAGE_PROGRESS_PCT st] by (force simp: known_stage_def obj_get_def)
  ultimately show ?thesis by blast
qed

text \<open>
  The progress the app shows is the progress the server stores: its clamping never changes a percentage of the
  server, which is at most 100, and its table of labels has the server's label for every stage the server writes.
\<close>

theorem progress_is_shown_as_stored:
  assumes "server_reachable s" "j \<in> set (server_jobs s)"
    and "selectedJob c = Some (build_job_response up j)"
  shows "jobProgressPct c = num_of_nat (sj_pct j) \<and> sj_pct j \<le> 100
    \<and> jobProgressLabel c = coalesce (obj_get SERVER_STAGE_LABELS (sj_stage j)) (sj_stage j)"
proof -
  have "job_ok j" using reachable_sound [OF assms(1)] assms(2) by (simp add: server_sound_def)
  then have "sj_pct j \<le> 100" "known_stage (sj_stage j)" by (simp_all add: job_ok_def)
  then show ?thesis
    using clamp_small stage_labels assms(3) by (simp add: jobProgressPct_def jobProgressLabel_def build_job_response_def)
qed

text \<open>
  C13: The workspace offers to retry or to cancel a job exactly when the server does not answer that the status of
  the job forbids it, for every job the app shows as the server has it.
\<close>

theorem job_buttons_match_the_server:
  assumes "server_reachable s" "j \<in> set (server_jobs s)" "selectedJob c = Some (build_job_response up j)"
  shows "((\<exists>b. (CancelJob, b) \<in> set (workspace_actions c)) \<longleftrightarrow>
      (\<forall>m. snd (cancel_job_route (sj_tenant j) (sj_id j) now s) \<noteq> HttpError 409 m))
    \<and> ((\<exists>b. (RetryJob, b) \<in> set (workspace_actions c)) \<longleftrightarrow>
      snd (retry_job pol (sj_tenant j) (sj_id j) now s) \<noteq> HttpError 409 ''Only failed jobs can be retried.'')"
proof -
  have row: "of_tenant sj_tenant (sj_tenant j) (row_of_job s (sj_id j)) = Some j"
    using sound_row [OF reachable_sound [OF assms(1)] assms(2)] by (simp add: of_tenant_def)
  have objections: "job_objection pol d v p \<noteq> Some (409, m)" for d v p m
    by (auto split: schema_answer.splits simp: job_objection_def Let_def validate_job_provider_def enforce_provider_policy_def
        enforce_spreadsheet_external_processing_policy_def split: option.splits schema_answer.splits if_splits elim: or_else.elims)
  have "((\<exists>b. (CancelJob, b) \<in> set (workspace_actions c)) \<longleftrightarrow> sj_status j = ''queued'' \<or> sj_status j = ''running'')"
    using assms(3) by (auto simp: workspace_actions_def review_actions_def job_actions_def export_actions_def run_actions_def
        build_job_response_def split: if_splits)
  moreover have "(\<exists>b. (RetryJob, b) \<in> set (workspace_actions c)) \<longleftrightarrow> sj_status j = ''failed''"
    using assms(3) by (auto simp: workspace_actions_def review_actions_def job_actions_def export_actions_def run_actions_def
        build_job_response_def stage_def split: if_splits option.splits)
  moreover have "(\<forall>m. snd (cancel_job_route (sj_tenant j) (sj_id j) now s) \<noteq> HttpError 409 m) \<longleftrightarrow> sj_status j = ''queued'' \<or> sj_status j = ''running''"
    by (auto simp: cancel_job_route_def row split: option.split)
  moreover have "snd (retry_job pol (sj_tenant j) (sj_id j) now s) \<noteq> HttpError 409 ''Only failed jobs can be retried.'' \<longleftrightarrow> sj_status j = ''failed''"
    using objections by (auto simp: retry_job_def row split: option.split)
  ultimately show ?thesis by blast
qed

section \<open>The pass of a worker ends\<close>

primrec run_worker :: "string \<Rightarrow> worker_event list \<Rightarrow> server_state \<Rightarrow> server_state option" where
  "run_worker w [] s = Some s"
| "run_worker w (e # es) s = Option.bind (worker_step w e s) (run_worker w es)"

fun steps_left :: "phase \<Rightarrow> nat" where
  "steps_left Resting = 0"
| "steps_left (Claimed i) = 10"
| "steps_left (Parsing i) = 9"
| "steps_left (Parsed i) = 8"
| "steps_left (Executing k i) = (if k \<le> 4 then 7 - k else 3)"
| "steps_left (Executed r i) = 2"
| "steps_left (Raised m i) = 2"
| "steps_left (Finishing r i) = 1"
| "steps_left (Failing m i) = 1"

lemma begin_steps:
  assumes "row_of_job s i \<noteq> None" "worker_phase s w = Claimed i"
  shows "steps_left (worker_phase (begin_pass w i s) w) < 10"
  using assms by (auto simp: begin_pass_def split: option.split)

lemma worker_step_decreases:
  assumes "server_sound s" "worker_step w e s = Some s'" "e \<noteq> Claim" "e \<noteq> Crash"
  shows "steps_left (worker_phase s' w) < steps_left (worker_phase s w)"
proof (cases e)
  case Begin
  with assms(2) obtain i where i: "worker_phase s w = Claimed i" "s' = begin_pass w i s" by (auto split: phase.splits)
  have "phase_job (worker_phase s w) = Some i" by (simp add: i(1))
  from owner [OF assms(1) this] have "row_of_job s i \<noteq> None" by (metis option.distinct(1))
  from begin_steps [OF this i(1)] i show ?thesis by simp
next
  case Check
  with assms(2) show ?thesis by (auto simp: finalize_cancelled_job_def split: phase.splits if_splits)
next
  case Report
  with assms(2) show ?thesis by (auto simp: executor_stages_def split: phase.splits if_splits)
next
  case (Computed r)
  with assms(2) show ?thesis by (auto simp: executor_stages_def split: phase.splits if_splits)
qed (use assms in \<open>auto split: phase.splits if_splits\<close>)

lemma worker_never_stuck:
  assumes "worker_phase s w \<noteq> Resting" "server_sound s"
  shows "\<exists>e s'. e \<noteq> Claim \<and> e \<noteq> Crash \<and> worker_step w e s = Some s'"
proof (cases "worker_phase s w")
  case (Claimed i)
  then have "worker_step w Begin s = Some (begin_pass w i s)" by simp
  then show ?thesis by blast
next
  case (Parsing i)
  then have "worker_step w TextParsed s = Some (set_phase w (Parsed i) s)" by simp
  then show ?thesis by blast
next
  case (Executing k i)
  then have "worker_step w (RaiseError []) s = Some (set_phase w (Raised [] i) s)" by simp
  then show ?thesis by blast
next
  case (Finishing r i)
  then have "worker_step w (Commit NaN) s \<noteq> None" by simp
  then show ?thesis by blast
next
  case (Failing m i)
  then have "worker_step w (Commit NaN) s \<noteq> None" by simp
  then show ?thesis by blast
next
  case (Parsed i)
  then have "worker_step w Check s \<noteq> None" by simp
  then show ?thesis by blast
next
  case (Executed r i)
  then have "worker_step w Check s \<noteq> None" by simp
  then show ?thesis by blast
next
  case (Raised m i)
  then have "worker_step w Check s \<noteq> None" by simp
  then show ?thesis by blast
qed (use assms in simp)


section \<open>Cancelled jobs\<close>

lemma row_of_job_cong: "server_jobs s' = server_jobs s \<Longrightarrow> row_of_job s' i = row_of_job s i"
  by (simp add: row_of_job_def)

lemma row_set_job:
  assumes "\<And>j. sj_id (f j) = sj_id j"
  shows "row_of_job (set_job k f s) i = map_option (\<lambda>j. if k = i then f j else j) (row_of_job s i)"
proof -
  have "find (\<lambda>j. sj_id j = i) (map (\<lambda>j. if sj_id j = k then f j else j) js)
      = map_option (\<lambda>j. if k = i then f j else j) (find (\<lambda>j. sj_id j = i) js)" for js
    by (induction js) (auto simp: assms)
  then show ?thesis by (simp add: row_of_job_def)
qed

definition status_of :: "server_state \<Rightarrow> jsnum \<Rightarrow> string option" where
  "status_of s i = map_option sj_status (row_of_job s i)"

lemma status_cong: "server_jobs s' = server_jobs s \<Longrightarrow> status_of s' i = status_of s i"
  by (simp add: status_of_def row_of_job_def)

lemma status_set_job:
  assumes "\<And>j. sj_id (f j) = sj_id j"
  shows "status_of (set_job k f s) i = (if k = i then map_option (\<lambda>j. sj_status (f j)) (row_of_job s i) else status_of s i)"
  by (simp add: status_of_def row_set_job [OF assms] option.map_comp comp_def)

lemma progress_keeps_status: "status_of (set_job k (update_job_progress st) s) i = status_of s i"
  by (subst status_set_job) (auto simp: update_job_progress_def status_of_def)

lemma status_frame [simp]:
  "status_of (set_phase w p s) i = status_of s i" "status_of (set_document k g s) i = status_of s i"
  "status_of (set_job_document k st s) i = status_of s i" "status_of (audit a k s) i = status_of s i"
  "status_of (store_result rid k r s) i = status_of s i" "status_of (finalize_cancelled_job k s) i = status_of s i"
  by (rule status_cong, simp add: finalize_cancelled_job_def)+

lemma other_status:
  "k \<noteq> i \<Longrightarrow> status_of (set_job k (failed_job m) s) i = status_of s i"
  "k \<noteq> i \<Longrightarrow> status_of (set_job k completed_job s) i = status_of s i"
  "k \<noteq> i \<Longrightarrow> status_of (set_job k (claimed_job w) s) i = status_of s i"
  by (simp_all add: status_set_job failed_job_def completed_job_def claimed_job_def)

lemma retry_status: "status_of s i = Some ''cancelled'' \<Longrightarrow> status_of (fst (retry_job pol t k now s)) i = Some ''cancelled''"
proof (cases "fst (retry_job pol t k now s) = s")
  case False
  assume c: "status_of s i = Some ''cancelled''"
  from False obtain j where j: "of_tenant sj_tenant t (row_of_job s k) = Some j" "sj_status j = ''failed''"
    and s': "fst (retry_job pol t k now s) = audit ''job.retried'' k
      (set_document (sj_document j) (\<lambda>d. d\<lparr>sd_status := ''queued''\<rparr>) (set_job k retry_failed_job s))"
    by (auto simp: retry_job_def split: option.splits if_splits)
  from of_tenant_SomeD [OF j(1)] j(2) c have "k \<noteq> i" by (auto simp: status_of_def)
  have "status_of (fst (retry_job pol t k now s)) i = status_of (set_job k retry_failed_job s) i" unfolding s' by (rule status_cong) simp
  also have "\<dots> = status_of s i" using \<open>k \<noteq> i\<close> by (subst status_set_job) (simp_all add: retry_failed_job_def)
  finally show ?thesis using c by simp
qed simp

lemma cancel_status: "status_of s i = Some ''cancelled'' \<Longrightarrow> status_of (fst (cancel_job_route t k now s)) i = Some ''cancelled''"
proof (cases "fst (cancel_job_route t k now s) = s")
  case False
  assume c: "status_of s i = Some ''cancelled''"
  from False obtain j where "of_tenant sj_tenant t (row_of_job s k) = Some j" and s': "fst (cancel_job_route t k now s) = audit ''job.cancelled'' k
      (set_document (sj_document j) cancelled_document (set_job k cancel_job s))"
    by (auto simp: cancel_job_route_def split: option.splits if_splits)
  have "status_of (fst (cancel_job_route t k now s)) i = status_of (set_job k cancel_job s) i" unfolding s' by (rule status_cong) simp
  also have "\<dots> = Some ''cancelled''"
    using c by (subst status_set_job) (auto simp: cancel_job_def status_of_def)
  finally show ?thesis .
qed simp

lemma create_status:
  assumes "status_of s i = Some st"
  shows "status_of (fst (create_job pol t k now doc ver override s)) i = Some st"
proof (cases "fst (create_job pol t k now doc ver override s) = s")
  case False
  then have "server_jobs (fst (create_job pol t k now doc ver override s)) = server_jobs s @ [new_job k t doc ver override now]"
    by (auto simp: create_job_def Let_def split: sum.splits option.splits)
  moreover have "find P (xs @ ys) = find P xs" if "find P xs = Some x" for P x and xs ys :: "server_job list"
    using that by (induction xs) auto
  ultimately show ?thesis using assms by (auto simp: status_of_def row_of_job_def)
qed (simp add: assms)

lemma worker_status:
  assumes "worker_step w e s = Some s'" "status_of s i = Some ''cancelled''" "status_of s' i \<noteq> Some ''cancelled''" "server_sound s"
  shows "worker_phase s w = Claimed i \<or> (\<exists>r. worker_phase s w = Finishing r i) \<or> (\<exists>m. worker_phase s w = Failing m i)"
proof (cases e)
  case Claim
  show ?thesis
  proof (cases "find (\<lambda>j. sj_status j = ''queued'') (server_jobs s)")
    case None
    with Claim assms(1-3) show ?thesis by (simp split: if_splits)
  next
    case (Some j)
    then have s': "s' = set_phase w (Claimed (sj_id j)) (set_job (sj_id j) (claimed_job w) s)"
      using Claim assms(1) by (simp split: if_splits)
    have "row_of_job s (sj_id j) = Some j" using sound_row [OF assms(4) queued_job(1) [OF Some]] .
    with assms(2) queued_job(2) [OF Some] have "sj_id j \<noteq> i" by (auto simp: status_of_def)
    then have "status_of s' i = status_of s i" unfolding s' by (simp add: other_status)
    with assms(2,3) show ?thesis by simp
  qed
next
  case Begin
  with assms(1) obtain k where k: "worker_phase s w = Claimed k" "s' = begin_pass w k s" by (auto split: phase.splits)
  show ?thesis
  proof (cases "k = i")
    case False
    have "status_of s' i = status_of s i"
      unfolding k(2) begin_pass_def by (simp add: False other_status progress_keeps_status split: option.split)
    with assms(2,3) show ?thesis by simp
  qed (simp add: k(1))
next
  case (Commit rid)
  consider r k where "worker_phase s w = Finishing r k" | m k where "worker_phase s w = Failing m k"
    using assms(1) Commit by (auto split: phase.splits)
  then show ?thesis
  proof cases
    case (1 r k)
    with assms(1) Commit have "k \<noteq> i \<Longrightarrow> status_of s' i = status_of s i" by (auto simp: other_status)
    with 1 assms(2,3) show ?thesis by auto
  next
    case (2 m k)
    with assms(1) Commit have "k \<noteq> i \<Longrightarrow> status_of s' i = status_of s i" by (auto simp: other_status)
    with 2 assms(2,3) show ?thesis by auto
  qed
next
  case Report
  with assms(1-3) show ?thesis by (auto simp: progress_keeps_status split: phase.splits if_splits)
next
  case Check
  with assms(1-3) show ?thesis by (auto split: phase.splits if_splits)
qed (use assms(1-3) in \<open>auto split: phase.splits if_splits\<close>)


lemma run_worker_reachable: "server_reachable s \<Longrightarrow> run_worker w es s = Some s' \<Longrightarrow> server_reachable s'"
proof (induction es arbitrary: s)
  case (Cons e es)
  then obtain t where t: "worker_step w e s = Some t" "run_worker w es t = Some s'" by (auto simp: bind_eq_Some_conv)
  from server_reachable.step [OF Cons.prems(1) server_step.work [OF t(1)]] t(2) show ?case by (rule Cons.IH)
qed simp

definition demo_policy :: job_policy where
  "demo_policy = \<lparr>allow_external = False, require_redaction = False, redaction_enabled = False,
     probed_provider = (\<lambda>p. (True, ''ready'')), policy_engine = sum_engine, policy_frames = 9, policy_schema_check = (\<lambda>o'. True)\<rparr>"

definition demo_schema :: template_definition where
  "demo_schema = \<lparr>template_name = ''t'', template_version = ''1'', document_type = ''d'', description = [],
     llm_provider_settings = sample_provider, definition_langextract_config = None, extracted_fields = [],
     calculated_fields = [], export_formats = []\<rparr>"

definition seeded_server :: server_state where
  "seeded_server = \<lparr>server_jobs = [],
     server_documents = [\<lparr>sd_id = Num 1, sd_tenant = ''default'', sd_filename = ''a.txt'', sd_status = ''uploaded''\<rparr>],
     server_versions = [\<lparr>sv_id = Num 1, sv_tenant = ''default'', sv_body = literal_body demo_schema\<rparr>],
     server_results = [], server_audit = [], worker_phase = (\<lambda>_. Resting)\<rparr>"

definition queued_server :: server_state where
  "queued_server = fst (create_job demo_policy ''default'' (Num 1) ''now'' (Num 1) (Num 1) None seeded_server)"

lemma queued_server_reachable: "server_reachable queued_server"
  unfolding queued_server_def
proof (rule server_reachable.step)
  show "server_reachable seeded_server" by (rule server_reachable.start) (simp add: server_start_def seeded_server_def)
  show "server_step seeded_server (fst (create_job demo_policy ''default'' (Num 1) ''now'' (Num 1) (Num 1) None seeded_server))"
    by (rule server_step.create) (simp add: seeded_server_def fresh_row_def)
qed

definition before_commit :: "worker_event list" where
  "before_commit = [Claim, Begin, TextParsed, Check, Report, Report, Report, Report, Computed (sample_result []), Check]"

definition racing_server :: "server_state option" where
  "racing_server =
     Option.bind (run_worker ''w'' before_commit queued_server) (\<lambda>s.
       run_worker ''w'' [Commit (Num 1)] (fst (cancel_job_route ''default'' (Num 1) ''later'' s)))"

definition accepted_cancel :: "server_state \<Rightarrow> bool" where
  "accepted_cancel s \<longleftrightarrow> (case snd (cancel_job_route ''default'' (Num 1) ''later'' s) of Reply r \<Rightarrow> job_status r = ''cancelled'' | HttpError c m \<Rightarrow> False)"

lemma race_computed:
  "map_option accepted_cancel (run_worker ''w'' before_commit queued_server) = Some True"
  "map_option (\<lambda>s. map (\<lambda>j. (sj_status j, sj_error j)) (server_jobs s)) racing_server
     = Some [(''completed'', Some ''Cancelled by operator.'')]"
  by code_simp+

text \<open>
  C34: A cancellation can be lost in that window: there is a run in which the server accepts the request to cancel a
  running job and answers that the job is cancelled, and the worker's next step completes the job, whose row then
  carries the message of the cancellation.
\<close>

theorem accepted_cancellation_can_be_lost:
  "\<exists>s s'. server_reachable s
    \<and> (\<exists>r. snd (cancel_job_route ''default'' (Num 1) ''later'' s) = Reply r \<and> job_status r = ''cancelled'')
    \<and> server_step (fst (cancel_job_route ''default'' (Num 1) ''later'' s)) s'
    \<and> (\<exists>j \<in> set (server_jobs s'). sj_id j = Num 1 \<and> sj_status j = ''completed'' \<and> sj_error j = Some ''Cancelled by operator.'')"
proof -
  from race_computed(1) obtain s where s: "run_worker ''w'' before_commit queued_server = Some s" "accepted_cancel s"
    by (cases "run_worker ''w'' before_commit queued_server") auto
  let ?t = "fst (cancel_job_route ''default'' (Num 1) ''later'' s)"
  from race_computed(2) obtain s' where s': "racing_server = Some s'"
    and jobs: "map (\<lambda>j. (sj_status j, sj_error j)) (server_jobs s') = [(''completed'', Some ''Cancelled by operator.'')]"
    by (cases racing_server) auto
  from s s' have step: "worker_step ''w'' (Commit (Num 1)) ?t = Some s'" by (auto simp: racing_server_def bind_eq_Some_conv)
  from jobs obtain j where j: "j \<in> set (server_jobs s')" "sj_status j = ''completed''" "sj_error j = Some ''Cancelled by operator.''"
    by (cases "server_jobs s'") auto
  have ids: "map_option (\<lambda>s. map sj_id (server_jobs s)) racing_server = Some [Num 1]" by code_simp
  from ids [unfolded s'] have "map sj_id (server_jobs s') = [Num 1]" by simp
  with j(1) have "sj_id j = Num 1" by auto
  moreover have "server_reachable s" using run_worker_reachable [OF queued_server_reachable s(1)] .
  moreover have "\<exists>r. snd (cancel_job_route ''default'' (Num 1) ''later'' s) = Reply r \<and> job_status r = ''cancelled''"
    using s(2) by (auto simp: accepted_cancel_def split: http_answer.splits)
  ultimately show ?thesis using server_step.work [OF step] j by blast
qed

section \<open>From the queue to the workspace\<close>

lemma find_stored:
  "distinct (map stored_job rs) \<Longrightarrow> r \<in> set rs \<Longrightarrow> stored_job r = i \<Longrightarrow> stored_tenant r = t \<Longrightarrow>
   find (\<lambda>r. stored_job r = i \<and> stored_tenant r = t) rs = Some r"
  by (induction rs) (auto simp: image_iff)

lemma rows_frame [simp]:
  "row_of_job (set_phase w p s) i = row_of_job s i" "row_of_job (set_document k g s) i = row_of_job s i"
  "row_of_job (set_job_document k st s) i = row_of_job s i" "row_of_job (audit a k s) i = row_of_job s i"
  "row_of_job (store_result rid k r s) i = row_of_job s i"
  "row_of_document (set_phase w p s) d = row_of_document s d" "row_of_document (set_job k f s) d = row_of_document s d"
  "row_of_version (set_phase w p s) v = row_of_version s v" "row_of_version (set_job k f s) v = row_of_version s v"
  by (simp_all add: row_of_job_def row_of_document_def row_of_version_def set_phase_def set_job_def)

lemma row_of_own_job:
  "row_of_job (set_job i (claimed_job w) s) i = map_option (claimed_job w) (row_of_job s i)"
  "row_of_job (set_job i (update_job_progress st) s) i = map_option (update_job_progress st) (row_of_job s i)"
  "row_of_job (set_job i completed_job s) i = map_option completed_job (row_of_job s i)"
  by (subst row_set_job, simp add: claimed_job_def update_job_progress_def completed_job_def, simp)+

lemma cancelled_status: "is_job_cancelled s i \<longleftrightarrow> status_of s i = Some ''cancelled''"
  by (simp add: is_job_cancelled_def status_of_def)

lemma pass_claims:
  assumes "server_sound s" "find (\<lambda>j. sj_status j = ''queued'') (server_jobs s) = Some j" "worker_phase s w = Resting"
    and "row_of_document s (sj_document j) = Some d" "row_of_version s (sj_version j) = Some v"
    and "sj_tenant j = sd_tenant d" "sd_tenant d = sv_tenant v"
  obtains t where "run_worker w [Claim, Begin, TextParsed, Check] s = Some t" "worker_phase t w = Executing 0 (sj_id j)"
    "row_of_job t (sj_id j) = Some (update_job_progress ''parsing'' (claimed_job w j))"
    "server_results t = server_results s" "server_reachable s \<Longrightarrow> server_reachable t"
proof -
  let ?i = "sj_id j"
  let ?s1 = "set_phase w (Claimed ?i) (set_job ?i (claimed_job w) s)"
  let ?s2 = "set_phase w (Parsing ?i) (set_job ?i (update_job_progress ''parsing'') (set_job_document ?i ''processing'' ?s1))"
  let ?t = "set_phase w (Executing 0 ?i) (set_phase w (Parsed ?i) ?s2)"
  have row: "row_of_job s ?i = Some j" using sound_row [OF assms(1) queued_job(1) [OF assms(2)]] .
  have "sj_document (claimed_job w j) = sj_document j" "sj_version (claimed_job w j) = sj_version j" "sj_tenant (claimed_job w j) = sj_tenant j"
    by (simp_all add: claimed_job_def)
  then have "begin_pass w ?i ?s1 = ?s2"
    using row assms(4-7) by (simp add: begin_pass_def row_of_own_job)
  moreover have "\<not> is_job_cancelled (set_phase w (Parsed ?i) ?s2) ?i"
    using row by (simp add: is_job_cancelled_def row_of_own_job update_job_progress_def claimed_job_def)
  ultimately have run: "run_worker w [Claim, Begin, TextParsed, Check] s = Some ?t"
    using assms(2,3) by simp
  show thesis
    by (rule that [OF run]) (use row run_worker_reachable [OF _ run] in \<open>simp_all add: row_of_own_job\<close>)
qed

lemma pass_reports:
  assumes "worker_phase s w = Executing 0 i" "row_of_job s i = Some j" "sj_status j = ''running''"
  obtains t where "run_worker w [Report, Report, Report, Report, Computed payload, Check] s = Some t"
    "worker_phase t w = Finishing payload i" "server_results t = server_results s"
    "\<exists>k. row_of_job t i = Some k \<and> sj_tenant k = sj_tenant j"
proof -
  let ?u = "\<lambda>n st s. set_phase w (Executing n i) (set_job i (update_job_progress st) s)"
  let ?t = "set_phase w (Finishing payload i) (set_phase w (Executed payload i)
    (?u 4 ''calculating'' (?u 3 ''validating'' (?u 2 ''extracting'' (?u 1 ''parsing'' s)))))"
  have "\<not> is_job_cancelled (set_phase w (Executed payload i)
      (?u 4 ''calculating'' (?u 3 ''validating'' (?u 2 ''extracting'' (?u 1 ''parsing'' s))))) i"
    using assms(2,3) by (simp add: is_job_cancelled_def row_of_own_job update_job_progress_def)
  then have run: "run_worker w [Report, Report, Report, Report, Computed payload, Check] s = Some ?t"
    using assms(1) by (simp add: executor_stages_def numeral_eq_Suc)
  show thesis
    by (rule that [OF run]) (use assms(2) in \<open>simp_all add: row_of_own_job update_job_progress_def\<close>)
qed

lemma run_worker_append: "run_worker w (es @ fs) s = Option.bind (run_worker w es s) (run_worker w fs)"
proof (induction es arbitrary: s)
  case (Cons e es)
  then show ?case by (cases "worker_step w e s") simp_all
qed simp

definition whole_pass :: "result_payload \<Rightarrow> jsnum \<Rightarrow> worker_event list" where
  "whole_pass payload rid =
     [Claim, Begin, TextParsed, Check] @ [Report, Report, Report, Report, Computed payload, Check] @ [Commit rid]"


section \<open>At a concrete server\<close>

definition queued_row :: server_job where
  "queued_row = new_job (Num 1) ''default'' (Num 1) (Num 1) None ''now''"

lemma queued_server_rows: "server_jobs queued_server = [queued_row]" "worker_phase queued_server = (\<lambda>_. Resting)"
proof -
  have "job_objection demo_policy (hd (server_documents seeded_server)) (hd (server_versions seeded_server)) None = None" by code_simp
  then show "server_jobs queued_server = [queued_row]" "worker_phase queued_server = (\<lambda>_. Resting)"
    by (simp_all add: queued_server_def create_job_def seeded_server_def row_of_document_def row_of_version_def of_tenant_def queued_row_def Let_def)
qed

definition shown_app :: app_state where
  "shown_app = start_app\<lparr>jobs := [build_job_response ''now'' queued_row], selectedJobId := Some (Num 1)\<rparr>"

lemma shown_job: "queued_row \<in> set (server_jobs queued_server)" "selectedJob shown_app = Some (build_job_response ''now'' queued_row)"
  by (simp_all add: queued_server_rows shown_app_def selectedJob_def id_truthy_def num_truthy_def same_id_def num_eq_def
      build_job_response_def queued_row_def new_job_def)


lemma progress_is_shown_as_stored_witness: "jobProgressPct shown_app = Num 0 \<and> jobProgressLabel shown_app = ''Waiting in queue''"
  using progress_is_shown_as_stored [OF queued_server_reachable shown_job]
  by (simp add: queued_row_def new_job_def SERVER_STAGE_LABELS_def obj_get_def)

lemma job_buttons_match_the_server_witness:
  "snd (retry_job demo_policy ''default'' (Num 1) ''later'' queued_server) = HttpError 409 ''Only failed jobs can be retried.'' \<longleftrightarrow>
    \<not> (\<exists>b. (RetryJob, b) \<in> set (workspace_actions shown_app))"
  using job_buttons_match_the_server [OF queued_server_reachable shown_job, where pol = demo_policy and now = "''later''"]
  by (simp add: queued_row_def new_job_def)




end
