(* ===== verification/Formulas.thy ===== *)
theory Formulas
  imports SchemaContract ReviewServer
begin

text \<open>
  The formulas of calculated fields, \<open>shared/extraction_core/formulas.py\<close>: the rewriting of \<open>if\<close>, the walk over
  the parsed formula, the evaluator \<open>SafeEvaluator\<close> with the view of structured values, and the functions a formula
  may call. The expressions are Python's own syntax trees; every node the evaluator does not allow is one constructor.

  Values are those a formula can meet. A number is a double, and an integer is a double without fraction. A view of a
  dictionary carries the path it was made for, since Python compares such objects by identity.

  What is Python's or another package's is the record \<open>python\<close>: the parser of an expression, reading a float and a
  date from text, printing a value into a message, formatting with \<open>%\<close>, and the rounding of a sum. The argument
  \<open>key\<close> of \<open>min\<close> and \<open>max\<close> is left out.
\<close>

section \<open>Expressions, values and exceptions\<close>

datatype pyval =
    VNone
  | VBool bool
  | VNum jsnum
  | VStr string
  | VList "pyval list"
  | VTuple "pyval list"
  | VView "(string + nat) list" "(string \<times> pyval) list"
  | VFun string

datatype bool_op = AndOp | OrOp

datatype cmp_op = EqOp | NotEqOp | LtOp | LtEOp | GtOp | GtEOp | OtherCmp string

datatype unary_op = NegOp | PosOp | OtherUnary string

datatype bin_op = AddOp | SubOp | MultOp | DivOp | ModOp | OtherBin string

datatype expr =
    EConst pyval
  | EName string
  | EAttr expr string
  | EList "expr list"
  | ETuple "expr list"
  | EBool bool_op "expr list"
  | ECompare expr "(cmp_op \<times> expr) list"
  | EIf expr expr expr
  | ECall expr "expr list" "(string option \<times> expr) list"
  | EUnary unary_op expr
  | EBin expr bin_op expr
  | EOther string "expr list"

datatype exn = ZeroDivision | TypeErr | FormulaErr string | OtherErr

type_synonym 'a py = "exn + 'a"

fun py_bind :: "'a py \<Rightarrow> ('a \<Rightarrow> 'b py) \<Rightarrow> 'b py" where
  "py_bind (Inl e) f = Inl e"
| "py_bind (Inr x) f = f x"

record python =
  parse_expression :: "string \<Rightarrow> expr result"
  rounded_sum :: "jsnum \<Rightarrow> jsnum list \<Rightarrow> jsnum"
  float_of_text :: "string \<Rightarrow> jsnum option"
  date_of_text :: "string \<Rightarrow> (int \<times> int \<times> int) option"
  text_of_value :: "pyval \<Rightarrow> string"
  percent_format :: "string \<Rightarrow> pyval \<Rightarrow> bool + string"

lemma py_bind_cong [fundef_cong]:
  "m = m' \<Longrightarrow> (\<And>x. m' = Inr x \<Longrightarrow> f x = g x) \<Longrightarrow> py_bind m f = py_bind m' g"
  by (cases m') auto

lemma py_bind_eq_Inl: "py_bind m f = Inl e \<longleftrightarrow> m = Inl e \<or> (\<exists>x. m = Inr x \<and> f x = Inl e)"
  by (cases m) auto

lemma py_bind_eq_Inr: "py_bind m f = Inr y \<longleftrightarrow> (\<exists>x. m = Inr x \<and> f x = Inr y)"
  by (cases m) auto

section \<open>Compiling a formula\<close>

text \<open>The pattern \<open>(?<![\w.])if\(\<close>; characters are those below 256.\<close>

definition word_char :: "char \<Rightarrow> bool" where
  "word_char c \<longleftrightarrow>
     (let n = of_char c :: nat in
      n = 95 \<or> 48 \<le> n \<and> n \<le> 57 \<or> 65 \<le> n \<and> n \<le> 90 \<or> 97 \<le> n \<and> n \<le> 122
      \<or> n \<in> {170, 178, 179, 181, 185, 186, 188, 189, 190} \<or> 192 \<le> n \<and> n \<noteq> 215 \<and> n \<noteq> 247)"

fun rewrite_if :: "bool \<Rightarrow> string \<Rightarrow> string" where
  "rewrite_if after_word [] = []"
| "rewrite_if after_word (c # s) =
     (if \<not> after_word \<and> prefix ''if('' (c # s) then ''iff('' @ rewrite_if False (drop 2 s)
      else c # rewrite_if (word_char c \<or> c = CHR ''.'') s)"

definition normalize_formula :: "string \<Rightarrow> string" where
  "normalize_formula f = rewrite_if False f"

definition compile_formula :: "python \<Rightarrow> string \<Rightarrow> expr result" where
  "compile_formula P f = parse_expression P (normalize_formula f)"

text \<open>\<open>ast.walk\<close>, breadth first. A keyword argument is a node of its own.\<close>

fun child_nodes :: "expr \<Rightarrow> expr list" where
  "child_nodes (EConst v) = []"
| "child_nodes (EName n) = []"
| "child_nodes (EAttr e a) = [e]"
| "child_nodes (EList es) = es"
| "child_nodes (ETuple es) = es"
| "child_nodes (EBool b es) = es"
| "child_nodes (ECompare e rest) = e # map snd rest"
| "child_nodes (EIf t b e) = [t, b, e]"
| "child_nodes (ECall f args kws) = f # args @ map (\<lambda>(k, e). EOther ''keyword'' [e]) kws"
| "child_nodes (EUnary b e) = [e]"
| "child_nodes (EBin l b r) = [l, r]"
| "child_nodes (EOther t es) = es"

fun node_count :: "expr \<Rightarrow> nat" where
  "node_count (EConst v) = 1"
| "node_count (EName n) = 1"
| "node_count (EAttr e a) = Suc (node_count e)"
| "node_count (EList es) = Suc (sum_list (map node_count es))"
| "node_count (ETuple es) = Suc (sum_list (map node_count es))"
| "node_count (EBool b es) = Suc (sum_list (map node_count es))"
| "node_count (ECompare e rest) = Suc (node_count e + sum_list (map (\<lambda>(b, r). node_count r) rest))"
| "node_count (EIf t b e) = Suc (node_count t + node_count b + node_count e)"
| "node_count (ECall f args kws) =
     Suc (node_count f + sum_list (map node_count args) + sum_list (map (\<lambda>(k, e). Suc (node_count e)) kws))"
| "node_count (EUnary b e) = Suc (node_count e)"
| "node_count (EBin l b r) = Suc (node_count l + node_count r)"
| "node_count (EOther t es) = Suc (sum_list (map node_count es))"

lemma node_count_children: "node_count e = Suc (sum_list (map node_count (child_nodes e)))"
  by (cases e) (simp_all add: comp_def case_prod_unfold sum_list_addf)

function walk :: "expr list \<Rightarrow> expr list" where
  "walk [] = []"
| "walk (e # todo) = e # walk (todo @ child_nodes e)"
  by pat_completeness auto

termination
  by (relation "measure (\<lambda>todo. sum_list (map node_count todo))") (auto simp: node_count_children)

definition names_of :: "expr list \<Rightarrow> string list" where
  "names_of es = List.map_filter (\<lambda>e. case e of EName n \<Rightarrow> Some n | _ \<Rightarrow> None) es"

definition formula_identifiers :: "python \<Rightarrow> string \<Rightarrow> string list result" where
  "formula_identifiers P f = res_bind (compile_formula P f) (\<lambda>e. Inr (names_of (walk [e])))"

section \<open>Values\<close>

text \<open>\<open>wrap_value\<close> and \<open>unwrap_value\<close>. A tuple is left as it is and stored as the list it is in JSON; a function
  and the view inside a tuple have no JSON.\<close>

fun wrap_value :: "(string + nat) list \<Rightarrow> json \<Rightarrow> pyval"
  and wrap_values :: "(string + nat) list \<Rightarrow> nat \<Rightarrow> json list \<Rightarrow> pyval list"
  and wrap_entries :: "(string + nat) list \<Rightarrow> (string \<times> json) list \<Rightarrow> (string \<times> pyval) list" where
  "wrap_value path JNull = VNone"
| "wrap_value path (JBool b) = VBool b"
| "wrap_value path (JNum n) = VNum n"
| "wrap_value path (JStr s) = VStr s"
| "wrap_value path (JArr vs) = VList (wrap_values path 0 vs)"
| "wrap_value path (JObj kvs) = VView path (wrap_entries path kvs)"
| "wrap_values path i [] = []"
| "wrap_values path i (v # vs) = wrap_value (path @ [Inr i]) v # wrap_values path (Suc i) vs"
| "wrap_entries path [] = []"
| "wrap_entries path ((k, v) # kvs) = (k, wrap_value (path @ [Inl k]) v) # wrap_entries path kvs"

fun stored_value :: "pyval \<Rightarrow> json option"
  and stored_values :: "pyval list \<Rightarrow> json list option" where
  "stored_value VNone = Some JNull"
| "stored_value (VBool b) = Some (JBool b)"
| "stored_value (VNum n) = Some (JNum n)"
| "stored_value (VStr s) = Some (JStr s)"
| "stored_value (VList vs) = map_option JArr (stored_values vs)"
| "stored_value (VTuple vs) = map_option JArr (stored_values vs)"
| "stored_value (VView path kvs) = None"
| "stored_value (VFun n) = None"
| "stored_values [] = Some []"
| "stored_values (v # vs) = Option.bind (stored_value v) (\<lambda>j. map_option (\<lambda>js. j # js) (stored_values vs))"

fun unwrap_value :: "pyval \<Rightarrow> json option"
  and unwrap_values :: "pyval list \<Rightarrow> json list option"
  and unwrap_entries :: "(string \<times> pyval) list \<Rightarrow> (string \<times> json) list option" where
  "unwrap_value (VList vs) = map_option JArr (unwrap_values vs)"
| "unwrap_value (VView path kvs) = map_option JObj (unwrap_entries kvs)"
| "unwrap_value v = stored_value v"
| "unwrap_values [] = Some []"
| "unwrap_values (v # vs) = Option.bind (unwrap_value v) (\<lambda>j. map_option (\<lambda>js. j # js) (unwrap_values vs))"
| "unwrap_entries [] = Some []"
| "unwrap_entries ((k, v) # kvs) = Option.bind (unwrap_value v) (\<lambda>j. map_option (\<lambda>js. (k, j) # js) (unwrap_entries kvs))"

fun number_of :: "pyval \<Rightarrow> jsnum option" where
  "number_of (VNum n) = Some n"
| "number_of (VBool b) = Some (Num (if b then 1 else 0))"
| "number_of _ = None"

fun integer_of :: "pyval \<Rightarrow> int option" where
  "integer_of (VNum (Num x)) = (if x = of_int \<lfloor>x\<rfloor> then Some \<lfloor>x\<rfloor> else None)"
| "integer_of (VBool b) = Some (if b then 1 else 0)"
| "integer_of _ = None"

fun truthy :: "pyval \<Rightarrow> bool" where
  "truthy VNone = False"
| "truthy (VBool b) = b"
| "truthy (VNum n) = (n \<noteq> Num 0)"
| "truthy (VStr s) = (s \<noteq> [])"
| "truthy (VList vs) = (vs \<noteq> [])"
| "truthy (VTuple vs) = (vs \<noteq> [])"
| "truthy _ = True"

fun same_kind :: "pyval \<Rightarrow> pyval \<Rightarrow> bool" where
  "same_kind (VList xs) (VList ys) = True"
| "same_kind (VTuple xs) (VTuple ys) = True"
| "same_kind a b = False"

fun items_of :: "pyval \<Rightarrow> pyval list" where
  "items_of (VList vs) = vs"
| "items_of (VTuple vs) = vs"
| "items_of _ = []"

fun py_eq :: "pyval \<Rightarrow> pyval \<Rightarrow> bool"
  and py_eqs :: "pyval list \<Rightarrow> pyval list \<Rightarrow> bool" where
  "py_eq (VList xs) b = (case b of VList ys \<Rightarrow> py_eqs xs ys | _ \<Rightarrow> False)"
| "py_eq (VTuple xs) b = (case b of VTuple ys \<Rightarrow> py_eqs xs ys | _ \<Rightarrow> False)"
| "py_eq (VView p kvs) b = (case b of VView q _ \<Rightarrow> p = q | _ \<Rightarrow> False)"
| "py_eq VNone b = (b = VNone)"
| "py_eq (VStr s) b = (b = VStr s)"
| "py_eq (VFun n) b = (b = VFun n)"
| "py_eq (VNum n) b = (case number_of b of Some m \<Rightarrow> num_eq n m | None \<Rightarrow> False)"
| "py_eq (VBool v) b = (case number_of b of Some m \<Rightarrow> num_eq (Num (if v then 1 else 0)) m | None \<Rightarrow> False)"
| "py_eqs [] ys = (ys = [])"
| "py_eqs (x # xs) ys = (case ys of y # ys' \<Rightarrow> py_eq x y \<and> py_eqs xs ys' | [] \<Rightarrow> False)"

text \<open>Order: numbers, strings by code point, lists and tuples by their first difference.\<close>

fun num_order :: "cmp_op \<Rightarrow> jsnum \<Rightarrow> jsnum \<Rightarrow> bool" where
  "num_order LtOp a b = num_less a b"
| "num_order LtEOp a b = num_ge b a"
| "num_order GtOp a b = num_less b a"
| "num_order GtEOp a b = num_ge a b"
| "num_order _ a b = False"

fun text_codes :: "string \<Rightarrow> int list" where
  "text_codes s = map of_char s"

fun codes_less :: "int list \<Rightarrow> int list \<Rightarrow> bool" where
  "codes_less xs [] = False"
| "codes_less [] (y # ys) = True"
| "codes_less (x # xs) (y # ys) = (x < y \<or> x = y \<and> codes_less xs ys)"

definition sized_order :: "cmp_op \<Rightarrow> bool \<Rightarrow> bool \<Rightarrow> bool" where
  "sized_order b lower higher =
     (case b of LtOp \<Rightarrow> lower | LtEOp \<Rightarrow> \<not> higher | GtOp \<Rightarrow> higher | GtEOp \<Rightarrow> \<not> lower | _ \<Rightarrow> False)"

fun py_order :: "cmp_op \<Rightarrow> pyval \<Rightarrow> pyval \<Rightarrow> bool py"
  and items_order :: "cmp_op \<Rightarrow> pyval list \<Rightarrow> pyval list \<Rightarrow> bool py" where
  "py_order b (VList xs) y = (case y of VList ys \<Rightarrow> items_order b xs ys | _ \<Rightarrow> Inl TypeErr)"
| "py_order b (VTuple xs) y = (case y of VTuple ys \<Rightarrow> items_order b xs ys | _ \<Rightarrow> Inl TypeErr)"
| "py_order b (VStr s) y =
     (case y of
        VStr t \<Rightarrow> Inr (sized_order b (codes_less (text_codes s) (text_codes t)) (codes_less (text_codes t) (text_codes s)))
      | _ \<Rightarrow> Inl TypeErr)"
| "py_order b x y =
     (case (number_of x, number_of y) of (Some m, Some n) \<Rightarrow> Inr (num_order b m n) | _ \<Rightarrow> Inl TypeErr)"
| "items_order b [] ys = Inr (sized_order b (ys \<noteq> []) False)"
| "items_order b (x # xs) ys =
     (case ys of
        [] \<Rightarrow> Inr (sized_order b False True)
      | y # ys' \<Rightarrow> if py_eq x y then items_order b xs ys' else py_order b x y)"

section \<open>Operators\<close>

definition num_div :: "jsnum \<Rightarrow> jsnum \<Rightarrow> jsnum" where
  "num_div a b =
     (case (a, b) of
        (Num x, Num y) \<Rightarrow> to_double (x / y)
      | (Num x, NaN) \<Rightarrow> NaN
      | (Num x, _) \<Rightarrow> Num 0
      | (NaN, _) \<Rightarrow> NaN
      | (_, Num y) \<Rightarrow> if y < 0 then num_neg a else a
      | _ \<Rightarrow> NaN)"

definition num_mod :: "jsnum \<Rightarrow> jsnum \<Rightarrow> jsnum" where
  "num_mod a b =
     (case (a, b) of
        (Num x, Num y) \<Rightarrow> to_double (x - y * of_int \<lfloor>x / y\<rfloor>)
      | (Num x, Infinity) \<Rightarrow> if x < 0 then Infinity else a
      | (Num x, NegInfinity) \<Rightarrow> if x > 0 then NegInfinity else a
      | _ \<Rightarrow> NaN)"

definition repeated :: "'a list \<Rightarrow> int \<Rightarrow> 'a list" where
  "repeated xs n = concat (replicate (nat n) xs)"

definition py_add :: "pyval \<Rightarrow> pyval \<Rightarrow> pyval py" where
  "py_add a b =
     (case (number_of a, number_of b) of
        (Some m, Some n) \<Rightarrow> Inr (VNum (num_add m n))
      | _ \<Rightarrow>
          (case (a, b) of
             (VStr s, VStr t) \<Rightarrow> Inr (VStr (s @ t))
           | (VList xs, VList ys) \<Rightarrow> Inr (VList (xs @ ys))
           | (VTuple xs, VTuple ys) \<Rightarrow> Inr (VTuple (xs @ ys))
           | _ \<Rightarrow> Inl TypeErr))"

definition sequence_times :: "pyval \<Rightarrow> pyval \<Rightarrow> pyval py" where
  "sequence_times a b =
     (case (a, integer_of b) of
        (VStr s, Some n) \<Rightarrow> Inr (VStr (repeated s n))
      | (VList xs, Some n) \<Rightarrow> Inr (VList (repeated xs n))
      | (VTuple xs, Some n) \<Rightarrow> Inr (VTuple (repeated xs n))
      | _ \<Rightarrow> Inl TypeErr)"

definition py_mult :: "pyval \<Rightarrow> pyval \<Rightarrow> pyval py" where
  "py_mult a b =
     (case (number_of a, number_of b) of
        (Some m, Some n) \<Rightarrow> Inr (VNum (num_mul m n))
      | (Some m, None) \<Rightarrow> sequence_times b a
      | _ \<Rightarrow> sequence_times a b)"

definition numeric :: "(jsnum \<Rightarrow> jsnum \<Rightarrow> pyval py) \<Rightarrow> pyval \<Rightarrow> pyval \<Rightarrow> pyval py" where
  "numeric f a b = (case (number_of a, number_of b) of (Some m, Some n) \<Rightarrow> f m n | _ \<Rightarrow> Inl TypeErr)"

definition py_div :: "pyval \<Rightarrow> pyval \<Rightarrow> pyval py" where
  "py_div = numeric (\<lambda>m n. if n = Num 0 then Inl ZeroDivision else Inr (VNum (num_div m n)))"

definition binary :: "python \<Rightarrow> bin_op \<Rightarrow> pyval \<Rightarrow> pyval \<Rightarrow> pyval py" where
  "binary P b left right =
     (case b of
        AddOp \<Rightarrow> py_add left right
      | SubOp \<Rightarrow> numeric (\<lambda>m n. Inr (VNum (num_sub m n))) left right
      | MultOp \<Rightarrow> py_mult left right
      | DivOp \<Rightarrow> if py_eq right (VNum (Num 0)) then Inl ZeroDivision else py_div left right
      | ModOp \<Rightarrow>
          (case left of
             VStr s \<Rightarrow>
               (case percent_format P s right of
                  Inr t \<Rightarrow> Inr (VStr t)
                | Inl mismatch \<Rightarrow> Inl (if mismatch then TypeErr else OtherErr))
           | _ \<Rightarrow> numeric (\<lambda>m n. if n = Num 0 then Inl ZeroDivision else Inr (VNum (num_mod m n))) left right)
      | OtherBin t \<Rightarrow> Inl (FormulaErr ''Unsupported binary operator''))"

definition unary :: "unary_op \<Rightarrow> pyval \<Rightarrow> pyval py" where
  "unary b v =
     (case b of
        OtherUnary t \<Rightarrow> Inl (FormulaErr ''Unsupported unary operator'')
      | _ \<Rightarrow> (case number_of v of None \<Rightarrow> Inl TypeErr | Some n \<Rightarrow> Inr (VNum (if b = NegOp then num_neg n else n))))"

text \<open>A comparison that is none of the six never fails.\<close>

definition holds :: "cmp_op \<Rightarrow> pyval \<Rightarrow> pyval \<Rightarrow> bool py" where
  "holds b left right =
     (case b of
        EqOp \<Rightarrow> Inr (py_eq left right)
      | NotEqOp \<Rightarrow> Inr (\<not> py_eq left right)
      | OtherCmp t \<Rightarrow> Inr True
      | _ \<Rightarrow> py_order b left right)"

section \<open>The functions of a formula\<close>

text \<open>Binding of arguments: the first \<open>k\<close> parameters are positional only, a parameter may have a default.\<close>

definition bind_params ::
    "nat \<Rightarrow> (string \<times> pyval option) list \<Rightarrow> pyval list \<Rightarrow> (string \<times> pyval) list \<Rightarrow> pyval list py" where
  "bind_params k ps args kws =
     (let names = map fst ps;
          bound = map (\<lambda>(i, n, d). if i < length args then Some (args ! i) else or_else (if i < k then None else map_of kws n) d)
            (enumerate 0 ps)
      in if length args > length ps \<or> \<not> (\<forall>(n, v) \<in> set kws. n \<in> set (drop (max k (length args)) names)) \<or> None \<in> set bound
         then Inl TypeErr else Inr (map the bound))"

definition elements :: "pyval \<Rightarrow> pyval list py" where
  "elements v =
     (case v of
        VList vs \<Rightarrow> Inr vs
      | VTuple vs \<Rightarrow> Inr vs
      | VStr s \<Rightarrow> Inr (map (\<lambda>c. VStr [c]) s)
      | _ \<Rightarrow> Inl TypeErr)"

fun add_all :: "pyval \<Rightarrow> pyval list \<Rightarrow> pyval py" where
  "add_all s [] = Inr s"
| "add_all s (v # vs) = py_bind (py_add s v) (\<lambda>t. add_all t vs)"

definition py_sum :: "python \<Rightarrow> pyval \<Rightarrow> pyval list \<Rightarrow> pyval py" where
  "py_sum P start vs =
     (case (number_of start, those (map number_of vs)) of
        (Some n, Some ns) \<Rightarrow> Inr (VNum (rounded_sum P n ns))
      | _ \<Rightarrow> (case start of VStr s \<Rightarrow> Inl TypeErr | _ \<Rightarrow> add_all start vs))"

fun extreme :: "cmp_op \<Rightarrow> pyval \<Rightarrow> pyval list \<Rightarrow> pyval py" where
  "extreme b best [] = Inr best"
| "extreme b best (v # vs) = py_bind (py_order b v best) (\<lambda>better. extreme b (if better then v else best) vs)"

definition py_extreme :: "cmp_op \<Rightarrow> pyval list \<Rightarrow> (string \<times> pyval) list \<Rightarrow> pyval py" where
  "py_extreme b args kws =
     (if \<not> set (map fst kws) \<subseteq> {''default''} then Inl TypeErr
      else case args of
        [] \<Rightarrow> Inl TypeErr
      | [v] \<Rightarrow>
          py_bind (elements v) (\<lambda>vs.
            case vs of
              [] \<Rightarrow> (case map_of kws ''default'' of Some d \<Rightarrow> Inr d | None \<Rightarrow> Inl OtherErr)
            | w # ws \<Rightarrow> extreme b w ws)
      | v # w # ws \<Rightarrow> if kws = [] then extreme b v (w # ws) else Inl TypeErr)"

definition py_round :: "pyval \<Rightarrow> pyval \<Rightarrow> pyval py" where
  "py_round v digits =
     (case (number_of v, digits, integer_of digits) of
        (None, _) \<Rightarrow> Inl TypeErr
      | (Some (Num x), VNone, _) \<Rightarrow> Inr (VNum (Num (of_int (round_half_even x))))
      | (Some n, VNone, _) \<Rightarrow> Inl OtherErr
      | (Some (Num x), _, Some d) \<Rightarrow> Inr (VNum (to_double (of_int (round_half_even (x * pow10 d)) * pow10 (- d))))
      | (Some n, _, Some d) \<Rightarrow> Inr (VNum n)
      | _ \<Rightarrow> Inl TypeErr)"

definition to_integer :: "(rat \<Rightarrow> int) \<Rightarrow> pyval \<Rightarrow> pyval py" where
  "to_integer f v =
     (case number_of v of
        None \<Rightarrow> Inl TypeErr
      | Some (Num x) \<Rightarrow> Inr (VNum (Num (of_int (f x))))
      | Some n \<Rightarrow> Inl OtherErr)"

definition avg :: "python \<Rightarrow> pyval \<Rightarrow> pyval py" where
  "avg P v =
     py_bind (elements v) (\<lambda>vs.
       let ns = List.map_filter number_of vs in
       if ns = [] then Inr VNone else Inr (VNum (num_div (rounded_sum P (Num 0) ns) (num_of_nat (length ns)))))"

definition py_count :: "pyval \<Rightarrow> pyval" where
  "py_count v =
     VNum (case v of
        VNone \<Rightarrow> Num 0
      | VList vs \<Rightarrow> num_of_nat (length vs)
      | VTuple vs \<Rightarrow> num_of_nat (length vs)
      | VStr s \<Rightarrow> num_of_nat (length s)
      | _ \<Rightarrow> Num 1)"

definition contains :: "pyval \<Rightarrow> pyval \<Rightarrow> pyval py" where
  "contains c v =
     (case c of
        VNone \<Rightarrow> Inr (VBool False)
      | VList vs \<Rightarrow> Inr (VBool (list_ex (\<lambda>w. py_eq w v) vs))
      | VTuple vs \<Rightarrow> Inr (VBool (list_ex (\<lambda>w. py_eq w v) vs))
      | VStr s \<Rightarrow> (case v of VStr t \<Rightarrow> Inr (VBool (sublist t s)) | _ \<Rightarrow> Inl TypeErr)
      | _ \<Rightarrow> Inl TypeErr)"

text \<open>A structured value is a view and no dictionary, so \<open>lookup\<close> has only its default to give.\<close>

definition lookup :: "pyval \<Rightarrow> pyval \<Rightarrow> pyval \<Rightarrow> pyval" where
  "lookup m k d = d"

fun hashable :: "pyval \<Rightarrow> bool" where
  "hashable (VList vs) = False"
| "hashable (VTuple vs) = list_all hashable vs"
| "hashable v = True"

definition convert_unit :: "python \<Rightarrow> pyval \<Rightarrow> pyval \<Rightarrow> pyval \<Rightarrow> pyval py" where
  "convert_unit P v a b =
     (if v = VNone \<or> py_eq a b then Inr v
      else if \<not> hashable a \<or> \<not> hashable b then Inl TypeErr
      else if a = VStr ''days'' \<and> b = VStr ''months'' then py_div v (VNum (Num 30))
      else if a = VStr ''months'' \<and> b = VStr ''days'' then py_mult v (VNum (Num 30))
      else if a = VStr ''years'' \<and> b = VStr ''months'' then py_mult v (VNum (Num 12))
      else if a = VStr ''months'' \<and> b = VStr ''years'' then py_div v (VNum (Num 12))
      else Inl (FormulaErr (''Unsupported unit conversion: '' @ text_of_value P a @ '' -> '' @ text_of_value P b)))"

definition parse_date :: "python \<Rightarrow> pyval \<Rightarrow> (int \<times> int \<times> int) option" where
  "parse_date P v =
     (case (case v of VView path kvs \<Rightarrow> coalesce (map_of kvs ''value'') v | _ \<Rightarrow> v) of
        VStr s \<Rightarrow> date_of_text P s
      | _ \<Rightarrow> None)"

definition months_between :: "python \<Rightarrow> pyval \<Rightarrow> pyval \<Rightarrow> int option" where
  "months_between P a b =
     (case (parse_date P a, parse_date P b) of
        (Some (y, m, d), Some (y', m', d')) \<Rightarrow> Some ((y' - y) * 12 + (m' - m))
      | _ \<Rightarrow> None)"

text \<open>Days since the first of January of year one, in the Gregorian calendar.\<close>

definition day_number :: "int \<times> int \<times> int \<Rightarrow> int" where
  "day_number = (\<lambda>(y, m, d).
     let leap = (y mod 4 = 0 \<and> (y mod 100 \<noteq> 0 \<or> y mod 400 = 0));
         days = [31, if leap then 29 else 28, 31, 30, 31, 30, 31, 31, 30, 31, 30, 31]
     in (y - 1) * 365 + (y - 1) div 4 - (y - 1) div 100 + (y - 1) div 400 + sum_list (take (nat m - 1) days) + d - 1)"

definition days_between :: "python \<Rightarrow> pyval \<Rightarrow> pyval \<Rightarrow> int option" where
  "days_between P a b =
     (case (parse_date P a, parse_date P b) of
        (Some s, Some t) \<Rightarrow> Some (day_number t - day_number s)
      | _ \<Rightarrow> None)"

definition optional_number :: "int option \<Rightarrow> pyval" where
  "optional_number n = (case n of Some k \<Rightarrow> VNum (to_double (of_int k)) | None \<Rightarrow> VNone)"

definition py_float :: "python \<Rightarrow> pyval \<Rightarrow> jsnum py" where
  "py_float P v =
     (case v of
        VStr s \<Rightarrow> (case float_of_text P s of Some n \<Rightarrow> Inr n | None \<Rightarrow> Inl OtherErr)
      | _ \<Rightarrow> (case number_of v of Some n \<Rightarrow> Inr n | None \<Rightarrow> Inl TypeErr))"

fun grouped :: "string \<Rightarrow> string" where
  "grouped ds = (if length ds \<le> 3 then ds else grouped (take (length ds - 3) ds) @ '','' @ drop (length ds - 3) ds)"

declare grouped.simps [simp del]

definition fixed :: "(string \<Rightarrow> string) \<Rightarrow> nat \<Rightarrow> jsnum \<Rightarrow> string" where
  "fixed style d n =
     (case n of
        Num x \<Rightarrow>
          let k = nat (round_half_even (\<bar>x\<bar> * pow10 (int d))); whole = k div 10 ^ d; part = nat_digits (k mod 10 ^ d)
          in (if x < 0 then ''-'' else []) @ style (nat_digits whole)
             @ (if d = 0 then [] else ''.'' @ replicate (d - length part) CHR ''0'' @ part)
      | NaN \<Rightarrow> ''nan''
      | Infinity \<Rightarrow> ''inf''
      | NegInfinity \<Rightarrow> ''-inf'')"

definition format_currency :: "python \<Rightarrow> pyval \<Rightarrow> pyval \<Rightarrow> pyval py" where
  "format_currency P amount currency =
     (if amount = VNone then Inr (VStr [])
      else py_bind (py_float P amount) (\<lambda>n. Inr (VStr (text_of_value P currency @ '' '' @ fixed grouped 2 n))))"

definition format_percent :: "python \<Rightarrow> pyval \<Rightarrow> pyval \<Rightarrow> pyval py" where
  "format_percent P v places =
     (if v = VNone then Inr (VStr [])
      else py_bind (py_float P v) (\<lambda>n.
        case (case places of
                VBool b \<Rightarrow> None
              | VStr s \<Rightarrow> if s \<noteq> [] \<and> list_all is_digit s then Some (int (digits_value s)) else None
              | _ \<Rightarrow> integer_of places) of
          Some d \<Rightarrow> if d < 0 then Inl OtherErr else Inr (VStr (fixed (\<lambda>s. s) (nat d) n @ ''%''))
        | None \<Rightarrow> Inl OtherErr))"

definition iff_value :: "pyval \<Rightarrow> pyval \<Rightarrow> pyval \<Rightarrow> pyval" where
  "iff_value c t e = (if truthy c then t else e)"

definition with_params ::
    "nat \<Rightarrow> (string \<times> pyval option) list \<Rightarrow> pyval list \<Rightarrow> (string \<times> pyval) list \<Rightarrow> (pyval list \<Rightarrow> pyval py) \<Rightarrow> pyval py" where
  "with_params k ps args kws f = py_bind (bind_params k ps args kws) f"

definition call_function :: "python \<Rightarrow> string \<Rightarrow> pyval list \<Rightarrow> (string \<times> pyval) list \<Rightarrow> pyval py" where
  "call_function P name args kws =
     (let p = (\<lambda>n. (n, None :: pyval option)); dates = [p ''start'', p ''end''] in
      if name = ''sum'' then with_params 1 [p ''iterable'', (''start'', Some (VNum (Num 0)))] args kws
        (\<lambda>vs. py_bind (elements (vs ! 0)) (py_sum P (vs ! 1)))
      else if name = ''avg'' then with_params 0 [p ''values''] args kws (\<lambda>vs. avg P (vs ! 0))
      else if name = ''min'' then py_extreme LtOp args kws
      else if name = ''max'' then py_extreme GtOp args kws
      else if name = ''count'' then with_params 0 [p ''values''] args kws (\<lambda>vs. Inr (py_count (vs ! 0)))
      else if name = ''round'' then with_params 0 [p ''number'', (''ndigits'', Some VNone)] args kws (\<lambda>vs. py_round (vs ! 0) (vs ! 1))
      else if name = ''floor'' then with_params 1 [p ''x''] args kws (\<lambda>vs. to_integer floor (vs ! 0))
      else if name = ''ceil'' then with_params 1 [p ''x''] args kws (\<lambda>vs. to_integer ceiling (vs ! 0))
      else if name = ''coalesce'' then
        (if kws = [] then Inr (coalesce (find (\<lambda>v. v \<noteq> VNone) args) VNone) else Inl TypeErr)
      else if name = ''months_between'' then with_params 0 dates args kws
        (\<lambda>vs. Inr (optional_number (months_between P (vs ! 0) (vs ! 1))))
      else if name = ''days_between'' then with_params 0 dates args kws
        (\<lambda>vs. Inr (optional_number (days_between P (vs ! 0) (vs ! 1))))
      else if name = ''years_between'' then with_params 0 dates args kws
        (\<lambda>vs. Inr (optional_number (map_option (\<lambda>k. k div 12) (months_between P (vs ! 0) (vs ! 1)))))
      else if name = ''contains'' then with_params 0 [p ''container'', p ''item''] args kws (\<lambda>vs. contains (vs ! 0) (vs ! 1))
      else if name = ''lookup'' then with_params 0 [p ''mapping'', p ''key'', (''default'', Some VNone)] args kws
        (\<lambda>vs. Inr (lookup (vs ! 0) (vs ! 1) (vs ! 2)))
      else if name = ''convert_unit'' then with_params 0 [p ''number'', p ''from_unit'', p ''to_unit''] args kws
        (\<lambda>vs. convert_unit P (vs ! 0) (vs ! 1) (vs ! 2))
      else if name = ''format_currency'' then with_params 0 [p ''amount'', (''currency'', Some (VStr ''USD''))] args kws
        (\<lambda>vs. format_currency P (vs ! 0) (vs ! 1))
      else if name = ''format_percent'' then with_params 0 [p ''value'', (''decimal_places'', Some (VNum (Num 2)))] args kws
        (\<lambda>vs. format_percent P (vs ! 0) (vs ! 1))
      else if name = ''iff'' then with_params 0 [p ''condition'', p ''when_true'', p ''when_false''] args kws
        (\<lambda>vs. Inr (iff_value (vs ! 0) (vs ! 1) (vs ! 2)))
      else Inl TypeErr)"

definition call_value :: "python \<Rightarrow> pyval \<Rightarrow> pyval list \<Rightarrow> (string \<times> pyval) list \<Rightarrow> pyval py" where
  "call_value P fn args kws = (case fn of VFun name \<Rightarrow> call_function P name args kws | _ \<Rightarrow> Inl TypeErr)"

section \<open>The evaluator\<close>

definition attribute :: "pyval \<Rightarrow> string \<Rightarrow> pyval py" where
  "attribute v a =
     (case v of
        VView path kvs \<Rightarrow> Inr (if a = ''unwrap'' then VFun ''unwrap'' else coalesce (map_of kvs a) VNone)
      | _ \<Rightarrow> Inl (FormulaErr ''Attribute access is only supported on structured field values.''))"

definition name_value :: "(string \<Rightarrow> pyval option) \<Rightarrow> string \<Rightarrow> pyval py" where
  "name_value env n =
     (case env n of
        Some v \<Rightarrow> Inr v
      | None \<Rightarrow>
          if n \<in> set ALLOWED_FUNCTIONS then Inr (VFun n) else Inl (FormulaErr (''Unknown identifier: '' @ n)))"

fun visit :: "python \<Rightarrow> (string \<Rightarrow> pyval option) \<Rightarrow> expr \<Rightarrow> pyval py"
  and visits :: "python \<Rightarrow> (string \<Rightarrow> pyval option) \<Rightarrow> expr list \<Rightarrow> pyval list py"
  and compares :: "python \<Rightarrow> (string \<Rightarrow> pyval option) \<Rightarrow> pyval \<Rightarrow> (cmp_op \<times> expr) list \<Rightarrow> pyval py"
  and keywords_of :: "python \<Rightarrow> (string \<Rightarrow> pyval option) \<Rightarrow> (string option \<times> expr) list \<Rightarrow> (string \<times> pyval) list py" where
  "visit P env (EConst v) = Inr v"
| "visit P env (EName n) = name_value env n"
| "visit P env (EAttr e a) =
     (if prefix ''_'' a then Inl (FormulaErr ''Private attribute access is not allowed in formulas.'')
      else py_bind (visit P env e) (\<lambda>v. attribute v a))"
| "visit P env (EList es) = py_bind (visits P env es) (\<lambda>vs. Inr (VList vs))"
| "visit P env (ETuple es) = py_bind (visits P env es) (\<lambda>vs. Inr (VTuple vs))"
| "visit P env (EBool b es) =
     py_bind (visits P env es) (\<lambda>vs. Inr (VBool (case b of AndOp \<Rightarrow> list_all truthy vs | OrOp \<Rightarrow> list_ex truthy vs)))"
| "visit P env (ECompare e rest) = py_bind (visit P env e) (\<lambda>v. compares P env v rest)"
| "visit P env (EIf t b e) = py_bind (visit P env t) (\<lambda>c. if truthy c then visit P env b else visit P env e)"
| "visit P env (ECall f args kws) =
     (case f of
        EName n \<Rightarrow>
          if n \<in> set ALLOWED_FUNCTIONS then
            py_bind (name_value env n) (\<lambda>fn.
            py_bind (visits P env args) (\<lambda>vs.
            py_bind (keywords_of P env kws) (\<lambda>ks. call_value P fn vs ks)))
          else Inl (FormulaErr ''Only built-in formula helper functions are callable.'')
      | _ \<Rightarrow> Inl (FormulaErr ''Only built-in formula helper functions are callable.''))"
| "visit P env (EUnary b e) = py_bind (visit P env e) (unary b)"
| "visit P env (EBin l b r) = py_bind (visit P env l) (\<lambda>v. py_bind (visit P env r) (binary P b v))"
| "visit P env (EOther t es) = Inl (FormulaErr (''Unsupported formula syntax: '' @ t))"
| "visits P env [] = Inr []"
| "visits P env (e # es) = py_bind (visit P env e) (\<lambda>v. py_bind (visits P env es) (\<lambda>vs. Inr (v # vs)))"
| "compares P env v [] = Inr (VBool True)"
| "compares P env v ((b, e) # rest) =
     py_bind (visit P env e) (\<lambda>r.
       py_bind (holds b v r) (\<lambda>ok. if ok then compares P env r rest else Inr (VBool False)))"
| "keywords_of P env [] = Inr []"
| "keywords_of P env ((k, e) # kws) =
     (case k of
        None \<Rightarrow> Inl (FormulaErr ''Keyword argument unpacking is not supported.'')
      | Some n \<Rightarrow> py_bind (visit P env e) (\<lambda>v. py_bind (keywords_of P env kws) (\<lambda>ks. Inr ((n, v) # ks))))"

definition formula_context :: "json obj \<Rightarrow> string \<Rightarrow> pyval option" where
  "formula_context context n = map_option (wrap_value [Inl n]) (obj_get context n)"

definition evaluation_of :: "pyval py \<Rightarrow> evaluation" where
  "evaluation_of r =
     (case r of
        Inr v \<Rightarrow> (case unwrap_value v of Some j \<Rightarrow> Evaluated j | None \<Rightarrow> Uncaught)
      | Inl ZeroDivision \<Rightarrow> DividedByZero
      | Inl TypeErr \<Rightarrow> TypeFailure
      | Inl (FormulaErr m) \<Rightarrow> FormulaFailure m
      | Inl OtherErr \<Rightarrow> Uncaught)"

definition evaluate_formula :: "python \<Rightarrow> string \<Rightarrow> json obj \<Rightarrow> evaluation" where
  "evaluate_formula P f context =
     (case compile_formula P f of
        Inl m \<Rightarrow> FormulaFailure m
      | Inr e \<Rightarrow> evaluation_of (visit P (formula_context context) e))"

definition FormulaEngine :: "python \<Rightarrow> (string list \<Rightarrow> string list) \<Rightarrow> formula_engine" where
  "FormulaEngine P order =
     \<lparr>identifiers = formula_identifiers P, evaluation = evaluate_formula P, set_order = order\<rparr>"

lemma engine_simps [simp]:
  "identifiers (FormulaEngine P order) = formula_identifiers P" "evaluation (FormulaEngine P order) = evaluate_formula P"
  "set_order (FormulaEngine P order) = order"
  by (simp_all add: FormulaEngine_def)

section \<open>A formula depends on its identifiers only\<close>

lemma walk_todo: "set todo \<subseteq> set (walk todo)"
  by (induction todo rule: walk.induct) auto

lemma walk_children: "e \<in> set (walk todo) \<Longrightarrow> set (child_nodes e) \<subseteq> set (walk todo)"
proof (induction todo rule: walk.induct)
  case (2 f todo)
  then show ?case using walk_todo [of "todo @ child_nodes f"] by auto
qed simp

lemma names_of_iff: "n \<in> set (names_of es) \<longleftrightarrow> EName n \<in> set es"
  by (induction es) (auto simp: names_of_def List.map_filter_simps split: expr.split option.split)

definition closed_nodes :: "expr set \<Rightarrow> bool" where
  "closed_nodes S \<longleftrightarrow> (\<forall>e \<in> S. set (child_nodes e) \<subseteq> S)"

lemma closed_walk: "closed_nodes (set (walk todo))"
  using walk_children by (auto simp: closed_nodes_def)

lemma closed_child: "closed_nodes S \<Longrightarrow> e \<in> S \<Longrightarrow> x \<in> set (child_nodes e) \<Longrightarrow> x \<in> S"
  by (auto simp: closed_nodes_def)

lemma closed_parts:
  assumes "closed_nodes S"
  shows "ECompare e rest \<in> S \<Longrightarrow> e \<in> S \<and> snd ` set rest \<subseteq> S" "EIf t b e \<in> S \<Longrightarrow> t \<in> S \<and> b \<in> S \<and> e \<in> S"
    "EBin l c r \<in> S \<Longrightarrow> l \<in> S \<and> r \<in> S" "EAttr e a \<in> S \<Longrightarrow> e \<in> S" "EUnary u e \<in> S \<Longrightarrow> e \<in> S"
    "EList es \<in> S \<Longrightarrow> set es \<subseteq> S" "ETuple es \<in> S \<Longrightarrow> set es \<subseteq> S" "EBool v es \<in> S \<Longrightarrow> set es \<subseteq> S"
proof -
  have "x \<in> S \<Longrightarrow> set (child_nodes x) \<subseteq> S" for x using assms by (simp add: closed_nodes_def)
  note part = this [of "ECompare e rest"] this [of "EIf t b e"] this [of "EBin l c r"] this [of "EAttr e a"]
    this [of "EUnary u e"] this [of "EList es"] this [of "ETuple es"] this [of "EBool v es"]
  show "ECompare e rest \<in> S \<Longrightarrow> e \<in> S \<and> snd ` set rest \<subseteq> S" "EIf t b e \<in> S \<Longrightarrow> t \<in> S \<and> b \<in> S \<and> e \<in> S"
    "EBin l c r \<in> S \<Longrightarrow> l \<in> S \<and> r \<in> S" "EAttr e a \<in> S \<Longrightarrow> e \<in> S" "EUnary u e \<in> S \<Longrightarrow> e \<in> S"
    "EList es \<in> S \<Longrightarrow> set es \<subseteq> S" "ETuple es \<in> S \<Longrightarrow> set es \<subseteq> S" "EBool v es \<in> S \<Longrightarrow> set es \<subseteq> S"
    using part by simp_all
qed

lemma visit_agree:
  assumes S: "closed_nodes S"
  shows "\<forall>n. EName n \<in> S \<longrightarrow> env n = env' n \<Longrightarrow> e \<in> S \<Longrightarrow> visit P env e = visit P env' e"
    "\<forall>n. EName n \<in> S \<longrightarrow> env n = env' n \<Longrightarrow> set es \<subseteq> S \<Longrightarrow> visits P env es = visits P env' es"
    "\<forall>n. EName n \<in> S \<longrightarrow> env n = env' n \<Longrightarrow> snd ` set rest \<subseteq> S \<Longrightarrow> compares P env v rest = compares P env' v rest"
    "\<forall>n. EName n \<in> S \<longrightarrow> env n = env' n \<Longrightarrow> (\<lambda>k. EOther ''keyword'' [snd k]) ` set kws \<subseteq> S \<Longrightarrow>
      keywords_of P env kws = keywords_of P env' kws"
proof (induction P env e and P env es and P env v rest and P env kws rule: visit_visits_compares_keywords_of.induct)
  case (2 P env n)
  then show ?case by (simp add: name_value_def)
next
  case (9 P env f args kws)
  show ?case
  proof (cases f)
    case (EName n)
    have "set (child_nodes (ECall f args kws)) \<subseteq> S" using closed_child [OF S "9.prems"(2)] by blast
    then have "EName n \<in> S" "set args \<subseteq> S" "(\<lambda>k. EOther ''keyword'' [snd k]) ` set kws \<subseteq> S"
      by (auto simp: EName case_prod_unfold)
    moreover from this 9 have "name_value env n = name_value env' n" by (simp add: name_value_def)
    ultimately show ?thesis using 9 EName by (auto intro!: py_bind_cong)
  qed simp_all
next
  case (18 P env k e kws)
  then have "EOther ''keyword'' [e] \<in> S" by simp
  then have "e \<in> S" using closed_child [OF S] by force
  with 18 show ?case by (auto split: option.split intro!: py_bind_cong)
qed (auto dest!: closed_parts [OF S] intro!: py_bind_cong)

lemma engine_reads_identifiers: "reads_identifiers (FormulaEngine P order)"
  unfolding reads_identifiers_def
proof (intro allI impI)
  fix f ids and c c' :: "json obj"
  assume ids: "identifiers (FormulaEngine P order) f = Inr ids" and same: "\<forall>n \<in> set ids. obj_get c n = obj_get c' n"
  then obtain e where e: "compile_formula P f = Inr e" "ids = names_of (walk [e])"
    by (auto simp: FormulaEngine_def formula_identifiers_def res_bind_eq_Inr_iff)
  let ?S = "set (walk [e])"
  have env: "\<forall>n. EName n \<in> ?S \<longrightarrow> formula_context c n = formula_context c' n"
    using same by (auto simp: e(2) names_of_iff formula_context_def)
  have "e \<in> ?S" using walk_todo [of "[e]"] by simp
  with env have "visit P (formula_context c) e = visit P (formula_context c') e"
    by (rule visit_agree(1) [OF closed_walk])
  then show "evaluation (FormulaEngine P order) f c = evaluation (FormulaEngine P order) f c'"
    by (simp add: FormulaEngine_def evaluate_formula_def e(1))
qed

definition orders_names :: "(string list \<Rightarrow> string list) \<Rightarrow> bool" where
  "orders_names order \<longleftrightarrow> (\<forall>ns. set (order ns) = set ns)"

text \<open>
  C9: Python leaves the order in which it walks a set open, and with it the order in which the calculated fields of a
  schema are computed. The results do not depend on it: for every schema whose calculated fields the server accepts,
  two orders of the sets give the same fields with the same values, errors and review flags, or fail on both.
\<close>

theorem calculation_order_does_not_matter:
  assumes "distinct (def_names defs)" "length defs < frames" "orders_names order" "orders_names order'"
    and "validate_calculated_field_contract (FormulaEngine P order) frames extracted blocked defs = Accepted"
  shows "map_option mset (evaluate_calculated_fields (FormulaEngine P order') frames defs found)
    = map_option mset (evaluate_calculated_fields (FormulaEngine P order) frames defs found)"
proof -
  have half: "\<exists>rs'. evaluate_calculated_fields (FormulaEngine P h) frames defs found = Some rs' \<and> mset rs' = mset rs"
    if "evaluate_calculated_fields (FormulaEngine P g) frames defs found = Some rs" "orders_names g" "orders_names h"
      "declared_dependencies (FormulaEngine P g) defs" for g h rs
    using evaluation_same_in_any_order [of defs "FormulaEngine P g" frames h found rs] that assms(1,2)
      engine_reads_identifiers [of P g]
    by (simp add: orders_sets_def orders_names_def FormulaEngine_def)
  have declared: "declared_dependencies (FormulaEngine P order) defs"
    using assms(3,5) by (auto simp: validate_calculated_field_contract_def orders_sets_def orders_names_def FormulaEngine_def
        intro!: contract_dependencies split: sum.splits)
  have declared': "declared_dependencies (FormulaEngine P order') defs"
    using well_ordered_cong(2) [of "FormulaEngine P order" order' defs] declared assms(3,4)
    by (simp add: orders_sets_def orders_names_def FormulaEngine_def)
  show ?thesis
  proof (cases "evaluate_calculated_fields (FormulaEngine P order) frames defs found")
    case None
    then show ?thesis using half [of order' _ order] declared' assms(3,4) by fastforce
  next
    case (Some rs)
    from half [OF this assms(3,4) declared] Some show ?thesis by auto
  qed
qed

section \<open>Names are known when they are read\<close>

text \<open>The exceptions an evaluation can end in.\<close>

definition raises :: "exn set \<Rightarrow> 'a py \<Rightarrow> bool" where
  "raises X r \<longleftrightarrow> (\<forall>e. r = Inl e \<longrightarrow> e \<in> X)"

definition known_names :: "exn set" where
  "known_names = {e. \<forall>m. e = FormulaErr m \<longrightarrow> \<not> prefix ''Unknown '' m}"

lemma raises_simps [simp]: "raises X (Inr v)" "raises X (Inl e) \<longleftrightarrow> e \<in> X"
  by (simp_all add: raises_def)

lemma raises_bind: "raises X m \<Longrightarrow> (\<And>x. m = Inr x \<Longrightarrow> raises X (f x)) \<Longrightarrow> raises X (py_bind m f)"
  by (cases m) simp_all

lemma known_names_simps [simp]:
  "TypeErr \<in> known_names" "ZeroDivision \<in> known_names" "OtherErr \<in> known_names"
  "FormulaErr m \<in> known_names \<longleftrightarrow> \<not> prefix ''Unknown '' m"
  by (simp_all add: known_names_def)

lemma raises_order:
  "raises known_names (py_order b v w)" "raises known_names (items_order b vs ws)"
  by (induction b v w and b vs ws rule: py_order_items_order.induct) (simp_all split: pyval.split list.split option.split)

lemma raises_operators:
  "raises known_names (py_add v w)" "raises known_names (sequence_times v w)" "raises known_names (py_mult v w)"
  "raises known_names (py_div v w)" "raises known_names (holds c v w)" "raises known_names (unary u v)"
  "raises known_names (attribute v a)" "raises known_names (elements v)" "raises known_names (py_float P v)"
  by (simp_all add: py_add_def sequence_times_def py_mult_def py_div_def numeric_def holds_def unary_def attribute_def
      elements_def py_float_def raises_order split: option.split pyval.split cmp_op.split unary_op.split)

lemma raises_binary: "raises known_names (binary P b v w)"
  using raises_operators(1,3,4) by (auto simp: binary_def numeric_def split: bin_op.split option.split pyval.split sum.split)

lemma raises_params: "(\<And>vs. raises known_names (f vs)) \<Longrightarrow> raises known_names (with_params k ps args kws f)"
  by (auto simp: with_params_def bind_params_def Let_def intro!: raises_bind)

lemma raises_folds:
  "raises known_names (add_all v vs)" "raises known_names (extreme b v vs)"
  by (induction vs arbitrary: v) (auto intro!: raises_bind raises_operators raises_order)

lemma raises_sum: "raises known_names (py_sum P v vs)"
  by (simp add: py_sum_def raises_folds split: option.split pyval.split)

lemma raises_extreme: "raises known_names (py_extreme b args kws)"
  by (auto simp: py_extreme_def raises_folds raises_order intro!: raises_bind raises_operators split: list.split option.split)

lemma raises_rounding: "raises known_names (py_round v w)" "raises known_names (to_integer g v)"
  by (auto simp: py_round_def to_integer_def split: option.split pyval.split jsnum.split)

lemma raises_helpers:
  "raises known_names (avg P v)" "raises known_names (contains v w)" "raises known_names (convert_unit P v w x)"
  "raises known_names (format_currency P v w)" "raises known_names (format_percent P v w)"
  by (auto simp: avg_def contains_def convert_unit_def format_currency_def format_percent_def Let_def raises_operators
      intro!: raises_bind split: pyval.split option.split)

lemma raises_call: "raises known_names (call_function P name args kws)"
  by (simp add: call_function_def raises_params raises_extreme raises_rounding raises_helpers raises_bind raises_operators
      raises_sum Let_def)

lemma raises_visit:
  assumes S: "closed_nodes S"
  shows "\<forall>n. EName n \<in> S \<longrightarrow> env n \<noteq> None \<or> n \<in> set ALLOWED_FUNCTIONS \<Longrightarrow> e \<in> S \<Longrightarrow> raises known_names (visit P env e)"
    "\<forall>n. EName n \<in> S \<longrightarrow> env n \<noteq> None \<or> n \<in> set ALLOWED_FUNCTIONS \<Longrightarrow> set es \<subseteq> S \<Longrightarrow> raises known_names (visits P env es)"
    "\<forall>n. EName n \<in> S \<longrightarrow> env n \<noteq> None \<or> n \<in> set ALLOWED_FUNCTIONS \<Longrightarrow> snd ` set rest \<subseteq> S \<Longrightarrow>
      raises known_names (compares P env v rest)"
    "\<forall>n. EName n \<in> S \<longrightarrow> env n \<noteq> None \<or> n \<in> set ALLOWED_FUNCTIONS \<Longrightarrow>
      (\<lambda>k. EOther ''keyword'' [snd k]) ` set kws \<subseteq> S \<Longrightarrow> raises known_names (keywords_of P env kws)"
proof (induction P env e and P env es and P env v rest and P env kws rule: visit_visits_compares_keywords_of.induct)
  case (2 P env n)
  then show ?case by (auto simp: name_value_def split: option.split)
next
  case (9 P env f args kws)
  show ?case
  proof (cases f)
    case (EName n)
    have "set (child_nodes (ECall f args kws)) \<subseteq> S" using closed_child [OF S "9.prems"(2)] by blast
    then have "EName n \<in> S" "set args \<subseteq> S" "(\<lambda>k. EOther ''keyword'' [snd k]) ` set kws \<subseteq> S"
      by (auto simp: EName case_prod_unfold)
    moreover from this(1) have "raises known_names (name_value env n)"
      using "9.prems"(1) by (auto simp: name_value_def split: option.split)
    ultimately show ?thesis using 9 EName
      by (auto simp: call_value_def raises_call intro!: raises_bind split: pyval.split)
  qed simp_all
next
  case (18 P env k e kws)
  then have "EOther ''keyword'' [e] \<in> S" by simp
  then have "e \<in> S" using closed_child [OF S] by force
  with 18 show ?case by (auto split: option.split intro!: raises_bind)
qed (auto dest!: closed_parts [OF S] intro!: raises_bind raises_operators raises_binary)

lemma evaluation_knows_names:
  assumes "identifiers (FormulaEngine P order) f = Inr ids" "evaluation (FormulaEngine P order) f context = FormulaFailure m"
    and "\<And>n. n \<in> set ids \<Longrightarrow> obj_get context n \<noteq> None \<or> n \<in> set ALLOWED_FUNCTIONS"
  shows "\<not> prefix ''Unknown '' m"
proof -
  from assms(1) obtain e where e: "compile_formula P f = Inr e" "ids = names_of (walk [e])"
    by (auto simp: FormulaEngine_def formula_identifiers_def res_bind_eq_Inr_iff)
  have "\<forall>n. EName n \<in> set (walk [e]) \<longrightarrow> formula_context context n \<noteq> None \<or> n \<in> set ALLOWED_FUNCTIONS"
    using assms(3) by (auto simp: e(2) names_of_iff formula_context_def)
  then have "raises known_names (visit P (formula_context context) e)"
    by (rule raises_visit(1) [OF closed_walk]) (use walk_todo [of "[e]"] in simp)
  with assms(2) show ?thesis
    by (auto simp: FormulaEngine_def evaluate_formula_def e(1) evaluation_of_def raises_def split: sum.splits exn.splits option.splits)
qed

lemma contract_names:
  assumes "map_res (\<lambda>_. validate_calculated_field_def E (set extracted \<union> set (def_names defs)) (set blocked - set (def_names defs))) defs = Inr us"
    and "d \<in> set defs"
  shows "\<exists>ids. identifiers E (calc_formula d) = Inr ids \<and> set ids \<subseteq> set ALLOWED_FUNCTIONS \<union> set extracted \<union> set (def_names defs)"
proof -
  from assms(2) obtain k where k: "k < length defs" "d = defs ! k" by (metis in_set_conv_nth)
  from map_res_nth [OF assms(1) k(1)] k(2)
  have "validate_formula E (calc_formula d) (set extracted \<union> set (def_names defs)) = Inr ()"
    by (auto simp: validate_calculated_field_def_def Let_def split: sum.splits)
  then show ?thesis
    by (auto simp: validate_formula_def res_bind_eq_Inr_iff find_None_iff split: option.splits)
qed

lemma validate_known:
  "identifiers E f = Inr ids \<Longrightarrow> set ids \<subseteq> set ALLOWED_FUNCTIONS \<union> available \<Longrightarrow> validate_formula E f available = Inr ()"
  by (auto simp: validate_formula_def find_None_iff split: option.split)

lemma field_errors:
  assumes "evaluate_field E available context d = Some r" "m \<in> set (validation_errors r)"
    and "identifiers E (calc_formula d) = Inr ids" "set ids \<subseteq> set ALLOWED_FUNCTIONS \<union> available"
  shows "evaluation E (calc_formula d) context = FormulaFailure m \<or> \<not> prefix ''Unknown '' m"
proof -
  from assms(1) obtain v es ns w where run: "run_formula E available context d = Some (v, es, ns)"
    and r: "validate_calculated_field (calculated_result d w es ns) (calc_allow_null d) (calc_min d) (calc_max d) = Some r"
    by (auto simp: evaluate_field_def bind_eq_Some_conv)
  from r have "set (validation_errors r) \<subseteq> set es \<union> {''Calculated value is null.'', ''Calculated value is below minimum.'', ''Calculated value is above maximum.''}"
    by (auto simp: validate_calculated_field_def calculated_result_def value_problems_def Let_def bind_eq_Some_conv split: if_splits)
  with assms(2) have "m \<in> set es \<or> \<not> prefix ''Unknown '' m" by auto
  moreover have "validate_formula E (calc_formula d) available = Inr ()" by (rule validate_known [OF assms(3,4)])
  with run have "m \<in> set es \<Longrightarrow> evaluation E (calc_formula d) context = FormulaFailure m \<or> \<not> prefix ''Unknown '' m"
    by (auto simp: run_formula_def formula_failure_def missing_input_def apply_error_handling_def split: evaluation.splits flag_policy.splits if_splits)
  ultimately show ?thesis by blast
qed

lemma each_field_knows_names:
  assumes "orders_names order" "set extracted \<subseteq> set (map field_name found)"
    and "map_res (\<lambda>_. validate_calculated_field_def (FormulaEngine P order) (set extracted \<union> set (def_names defs))
      (set blocked - set (def_names defs))) defs = Inr us"
  defines "E \<equiv> FormulaEngine P order" and "available \<equiv> set (map field_name found) \<union> set (def_names defs)"
  shows "well_ordered E defs (ps @ ds) \<Longrightarrow> mset (ps @ ds) = mset defs \<Longrightarrow> evaluate_each E available c ds = Some rs \<Longrightarrow>
    (\<And>n. n \<in> set (map field_name found) \<union> set (def_names ps) \<Longrightarrow> obj_get c n \<noteq> None) \<Longrightarrow>
    r \<in> set rs \<Longrightarrow> m \<in> set (validation_errors r) \<Longrightarrow> \<not> prefix ''Unknown '' m"
proof (induction ds arbitrary: ps c rs)
  case (Cons d ds)
  from Cons.prems(3) obtain r' rs' where r': "evaluate_field E available c d = Some r'"
    and rs: "evaluate_each E available (obj_put (calc_name d) (coalesce (calculated_value r') JNull) c) ds = Some rs'" "rs = r' # rs'"
    by (auto simp: bind_eq_Some_conv)
  show ?case
  proof (cases "r = r'")
    case True
    have "d \<in> set defs" using mset_eq_setD [OF Cons.prems(2)] by auto
    from contract_names [OF assms(3) this] obtain ids where ids: "identifiers E (calc_formula d) = Inr ids"
      "set ids \<subseteq> set ALLOWED_FUNCTIONS \<union> set extracted \<union> set (def_names defs)" unfolding E_def by blast
    have order: "orders_sets E" using assms(1) by (simp add: E_def orders_sets_def orders_names_def FormulaEngine_def)
    have "obj_get c n \<noteq> None \<or> n \<in> set ALLOWED_FUNCTIONS" if "n \<in> set ids" for n
    proof (cases "n \<in> set (def_names defs)")
      case True
      then have "n \<in> set (def_names ps)" by (rule needed_before [OF Cons.prems(1,2) order ids(1) that])
      then show ?thesis using Cons.prems(4) by blast
    next
      case False
      then show ?thesis using that ids(2) assms(2) Cons.prems(4) by blast
    qed
    then have "evaluation E (calc_formula d) c = FormulaFailure m \<Longrightarrow> \<not> prefix ''Unknown '' m"
      using evaluation_knows_names [OF ids(1) [unfolded E_def]] unfolding E_def by blast
    moreover have "set ids \<subseteq> set ALLOWED_FUNCTIONS \<union> available" using ids(2) assms(2) by (auto simp: available_def)
    ultimately show ?thesis using field_errors [OF r' _ ids(1)] Cons.prems(6) True by blast
  next
    case False
    with rs(2) Cons.prems(5) have "r \<in> set rs'" by simp
    show ?thesis
    proof (rule Cons.IH [of "ps @ [d]", OF _ _ rs(1) _ \<open>r \<in> set rs'\<close> Cons.prems(6)])
      show "obj_get (obj_put (calc_name d) (coalesce (calculated_value r') JNull) c) n \<noteq> None"
        if "n \<in> set (map field_name found) \<union> set (def_names (ps @ [d]))" for n
        using that Cons.prems(4) by (auto simp: get_obj_put def_names_def)
    qed (use Cons.prems(1,2) in simp_all)
  qed
qed simp

lemma accepted_run:
  assumes "distinct (def_names defs)" "length defs < frames" "orders_names order"
    and "validate_calculated_field_contract (FormulaEngine P order) frames extracted blocked defs = Accepted"
    and "evaluate_calculated_fields (FormulaEngine P order) frames defs found = Some rs"
  obtains us os where
    "map_res (\<lambda>_. validate_calculated_field_def (FormulaEngine P order) (set extracted \<union> set (def_names defs))
      (set blocked - set (def_names defs))) defs = Inr us"
    "well_ordered (FormulaEngine P order) defs os" "mset os = mset defs"
    "evaluate_each (FormulaEngine P order) (set (map field_name found) \<union> set (def_names defs)) (extracted_context found) os = Some rs"
proof -
  let ?E = "FormulaEngine P order"
  from assms(4) obtain us where us: "map_res (\<lambda>_. validate_calculated_field_def ?E (set extracted \<union> set (def_names defs))
      (set blocked - set (def_names defs))) defs = Inr us"
    by (auto simp: validate_calculated_field_contract_def split: sum.splits)
  have "orders_sets ?E" using assms(3) by (simp add: orders_sets_def orders_names_def)
  from contract_dependencies [OF us this] have dd: "declared_dependencies ?E defs" .
  from assms(5) obtain v where "detect_formula_cycles defs = Inr v"
    by (auto simp: evaluate_calculated_fields_def topologically_sort_calculated_fields_def split: sum.splits)
  from sort_outcome_ok [OF assms(1) dd assms(2) this] obtain os where
    os: "topologically_sort_calculated_fields ?E frames defs = Sorted os" "well_ordered ?E defs os" "mset os = mset defs" by auto
  from assms(5) os(1) have "evaluate_each ?E (set (map field_name found) \<union> set (def_names defs)) (extracted_context found) os = Some rs"
    by (simp add: evaluate_calculated_fields_def)
  with us os show ?thesis by (intro that)
qed

lemma context_get:
  "obj_get (extracted_context found) n = map_of (rev (map (\<lambda>f. (field_name f, coalesce (normalized_value f) JNull)) found)) n"
  by (simp add: extracted_context_def get_from_entries)

lemma context_none: "obj_get (extracted_context found) n = None \<longleftrightarrow> n \<notin> set (map field_name found)"
  by (simp add: context_get map_of_eq_None_iff image_image)

text \<open>
  C10: A formula that the server accepted with its schema never fails on a name: when a result has the extracted fields of
  the schema, no calculated field of it carries an error about an unknown field or an unknown identifier, in whatever
  order the fields are computed. Every name is that of a function, of an extracted field or of a calculated
  field that has been computed before.
\<close>

theorem accepted_formulas_know_their_names:
  assumes "distinct (def_names defs)" "length defs < frames" "orders_names order"
    and "validate_calculated_field_contract (FormulaEngine P order) frames extracted blocked defs = Accepted"
    and "set extracted \<subseteq> set (map field_name found)"
    and "evaluate_calculated_fields (FormulaEngine P order) frames defs found = Some rs"
  shows "\<forall>r \<in> set rs. \<forall>m \<in> set (validation_errors r). \<not> prefix ''Unknown '' m"
proof (intro ballI)
  fix r m assume r: "r \<in> set rs" and m: "m \<in> set (validation_errors r)"
  from assms(1-4,6) obtain us os where us: "map_res (\<lambda>_. validate_calculated_field_def (FormulaEngine P order)
      (set extracted \<union> set (def_names defs)) (set blocked - set (def_names defs))) defs = Inr us"
    and os: "well_ordered (FormulaEngine P order) defs ([] @ os)" "mset ([] @ os) = mset defs"
    and run: "evaluate_each (FormulaEngine P order) (set (map field_name found) \<union> set (def_names defs)) (extracted_context found) os = Some rs"
    by (auto elim!: accepted_run)
  have "obj_get (extracted_context found) n \<noteq> None" if "n \<in> set (map field_name found) \<union> set (def_names [])" for n
    using that by (simp add: context_none def_names_def)
  from each_field_knows_names [OF assms(3,5) us os run this r m] show "\<not> prefix ''Unknown '' m" .
qed

section \<open>A condition that does not guard\<close>

lemma call_iff: "call_function P ''iff'' [c, t, e] [] = Inr (iff_value c t e)"
  by (simp add: call_function_def with_params_def bind_params_def Let_def)

lemma iff_evaluates:
  assumes "env ''iff'' = None" "visit P env c = Inr vc" "visit P env t = Inr vt"
  shows "visit P env (ECall (EName ''iff'') [c, t, e] []) = py_bind (visit P env e) (\<lambda>ve. Inr (iff_value vc vt ve))"
  using assms by (cases "visit P env e") (simp_all add: name_value_def ALLOWED_FUNCTIONS_def call_value_def call_iff)

text \<open>
  C36: The conditional of a formula does not guard: \<open>if(c, t, a / q)\<close> is rewritten into a call whose arguments are all
  evaluated first, so when \<open>q\<close> is zero the field gets the error policy of a division by zero even where \<open>c\<close> holds and
  the other value was asked for. Python's own conditional expression, which the evaluator also knows, takes the value.
\<close>

theorem conditional_does_not_guard:
  assumes "env = formula_context context" and "compile_formula P (calc_formula d) = Inr (ECall (EName ''iff'') [c, t, EBin a DivOp q] [])"
    "obj_get context ''iff'' = None" "visit P env c = Inr vc" "truthy vc" "visit P env t = Inr vt"
    and "visit P env a = Inr va" "visit P env q = Inr vq" "py_eq vq (VNum (Num 0))"
    and "validate_formula (FormulaEngine P order) (calc_formula d) available = Inr ()"
  shows "run_formula (FormulaEngine P order) available context d
      = Some (JNull, apply_error_handling (on_divide_by_zero d) ''Division by zero.'' ''Division by zero returned null by policy.'')
    \<and> visit P env (EIf c t (EBin a DivOp q)) = Inr vt"
proof -
  have "env ''iff'' = None" using assms(1,3) by (simp add: formula_context_def)
  then have "visit P env (ECall (EName ''iff'') [c, t, EBin a DivOp q] []) = Inl ZeroDivision"
    using iff_evaluates [of env P c vc t vt "EBin a DivOp q"] assms(4-9) by (simp add: binary_def)
  then have "evaluate_formula P (calc_formula d) context = DividedByZero"
    using assms(1) by (simp add: evaluate_formula_def assms(2) evaluation_of_def)
  then show ?thesis using assms(4-6,10) by (simp add: run_formula_def)
qed

section \<open>An exception that nobody catches\<close>

lemma call_max: "call_function P ''max'' [VList []] [] = Inl OtherErr"
  by (simp add: call_function_def py_extreme_def elements_def)

lemma maximum_of_nothing:
  assumes "compile_formula P (calc_formula d) = Inr (ECall (EName ''max'') [EName n] [])"
    and "obj_get context n = Some (JArr [])" "obj_get context ''max'' = None"
    and "evaluate_field (FormulaEngine P order) available context d = Some r"
  shows "\<exists>m. validate_formula (FormulaEngine P order) (calc_formula d) available = Inl m"
proof (cases "validate_formula (FormulaEngine P order) (calc_formula d) available")
  case (Inr u)
  have "visit P (formula_context context) (ECall (EName ''max'') [EName n] []) = Inl OtherErr"
    using assms(2,3) by (simp add: name_value_def formula_context_def ALLOWED_FUNCTIONS_def call_value_def call_max)
  then have "evaluate_formula P (calc_formula d) context = Uncaught"
    by (simp add: evaluate_formula_def assms(1) evaluation_of_def del: visit.simps)
  then have "run_formula (FormulaEngine P order) available context d = None" by (simp add: run_formula_def Inr)
  with assms(4) show ?thesis by (simp add: evaluate_field_def)
qed simp

lemma evaluate_each_uses:
  assumes "n \<notin> set (def_names ds)" "m \<notin> set (def_names ds)" "d \<in> set ds" "evaluate_each E available c ds = Some rs"
  shows "\<exists>context r. obj_get context n = obj_get c n \<and> obj_get context m = obj_get c m \<and> evaluate_field E available context d = Some r"
  using assms
proof (induction ds arbitrary: c rs)
  case (Cons e ds)
  then obtain r rs' where r: "evaluate_field E available c e = Some r"
    "evaluate_each E available (obj_put (calc_name e) (coalesce (calculated_value r) JNull) c) ds = Some rs'"
    by (auto simp: bind_eq_Some_conv)
  show ?case
  proof (cases "d = e")
    case True
    with r show ?thesis by blast
  next
    case False
    with Cons.IH [OF _ _ _ r(2)] Cons.prems show ?thesis by (auto simp: def_names_def get_obj_put)
  qed
qed simp

lemma apply_edits_last:
  "apply_edits r who (es @ [e]) fs = Some (gs, rows) \<Longrightarrow> \<exists>hs rows'. apply_edits r who es fs = Some (hs, rows') \<and> apply_edit e hs = Some gs"
  by (induction es arbitrary: fs gs rows) (auto simp: bind_eq_Some_conv)

lemma context_of_last_edit:
  assumes "distinct (map field_name fs)" "apply_edits r who (es @ [e]) fs = Some (gs, rows)"
  shows "obj_get (extracted_context gs) (edit_field e) = Some (edit_value e)" "map field_name gs = map field_name fs"
proof -
  from apply_edits_last [OF assms(2)] obtain hs rows' where hs: "apply_edits r who es fs = Some (hs, rows')" "apply_edit e hs = Some gs" by blast
  show names: "map field_name gs = map field_name fs" by (rule apply_edits_flags(1) [OF assms])
  have "distinct (map field_name hs)" using apply_edits_flags(1) [OF assms(1) hs(1)] assms(1) by simp
  from apply_edit_eq [OF this hs(2)] have gs: "gs = map (\<lambda>f. if field_name f = edit_field e then edited_field e f else f) hs" .
  from hs(2) obtain f where f: "f \<in> set hs" "field_name f = edit_field e" by (auto simp: apply_edit_def split: if_splits)
  then have "edited_field e f \<in> set gs" by (auto simp: gs)
  then have "(edit_field e, edit_value e) \<in> set (map (\<lambda>f. (field_name f, coalesce (normalized_value f) JNull)) gs)"
    using f(2) by (force simp: edited_field_def mark_reviewed_def)
  moreover have "distinct (map fst (map (\<lambda>f. (field_name f, coalesce (normalized_value f) JNull)) gs))"
    using names assms(1) by (simp add: comp_def)
  ultimately show "obj_get (extracted_context gs) (edit_field e) = Some (edit_value e)"
    unfolding context_get by (intro map_of_is_SomeI) (simp_all add: rev_map [symmetric])
qed


section \<open>Three more behaviours of the evaluator\<close>

text \<open>A membership or identity test is a comparison that never fails.\<close>

lemma membership_is_not_tested:
  "visit P env l = Inr v \<Longrightarrow> visit P env r = Inr w \<Longrightarrow> visit P env (ECompare l [(OtherCmp t, r)]) = Inr (VBool True)"
  by (simp add: holds_def)

text \<open>\<open>lookup\<close> gives its default for every mapping a field can hold.\<close>

lemma lookup_never_finds: "call_function P ''lookup'' [m, k, d] [] = Inr d"
  by (simp add: call_function_def with_params_def bind_params_def lookup_def Let_def)

text \<open>A field with the name of a function hides it, and its formulas fail as if an input were missing.\<close>

lemma field_hides_function:
  assumes "obj_get c n = Some v" "n \<in> set ALLOWED_FUNCTIONS" "visits P (formula_context c) es = Inr vs"
  shows "visit P (formula_context c) (ECall (EName n) es []) = Inl TypeErr"
proof -
  have "\<forall>m. wrap_value [Inl n] v \<noteq> VFun m" by (cases v) simp_all
  then show ?thesis using assms by (simp add: name_value_def formula_context_def call_value_def split: pyval.split)
qed

section \<open>Formulas of an example\<close>

definition demo_python :: python where
  "demo_python =
     \<lparr>parse_expression = (\<lambda>f.
        if f = ''net + tax'' then Inr (EBin (EName ''net'') AddOp (EName ''tax''))
        else if f = ''iff(net == 0, 0, tax / net)'' then
          Inr (ECall (EName ''iff'') [ECompare (EName ''net'') [(EqOp, EConst (VNum (Num 0)))], EConst (VNum (Num 0)),
            EBin (EName ''tax'') DivOp (EName ''net'')] [])
        else if f = ''max(items)'' then Inr (ECall (EName ''max'') [EName ''items''] [])
        else Inl ''Invalid formula syntax: invalid syntax''),
      rounded_sum = foldl num_add, float_of_text = (\<lambda>s. None), date_of_text = (\<lambda>s. None), text_of_value = (\<lambda>v. []),
      percent_format = (\<lambda>s v. Inl True)\<rparr>"

definition demo_formulas :: "calculated_def list" where
  "demo_formulas = [sum_def ''share'' ''if(net == 0, 0, tax / net)'' [''net'', ''tax''] False,
     sum_def ''tax'' ''max(items)'' [''items''] False]"

definition demo_found :: "json list \<Rightarrow> review_field list" where
  "demo_found vs = [sample_field ''net'' ''number'' (JNum (Num 4)), sample_field ''items'' ''list'' (JArr vs)]"

abbreviation demo_engine :: "(string list \<Rightarrow> string list) \<Rightarrow> formula_engine" where
  "demo_engine \<equiv> FormulaEngine demo_python"

lemma demo_formulas_ok: "distinct (def_names demo_formulas)" "length demo_formulas < 3" "orders_names (\<lambda>ns. ns)" "orders_names rev"
  by (simp_all add: demo_formulas_def def_names_def sum_def_def orders_names_def)

lemma demo_accepted:
  "validate_calculated_field_contract (demo_engine (\<lambda>ns. ns)) 3 [''net'', ''items''] [] demo_formulas = Accepted"
  by code_simp

lemma demo_values:
  "map_option (map calculated_value) (evaluate_calculated_fields (demo_engine (\<lambda>ns. ns)) 3 demo_formulas
     (demo_found [JNum (Num 1), JNum (Num 2)])) = Some [Some (JNum (Num 2)), Some (JNum (Num (1 / 2)))]"
  by code_simp

lemma calculation_order_does_not_matter_witness:
  "map_option mset (evaluate_calculated_fields (demo_engine rev) 3 demo_formulas (demo_found [JNum (Num 2)]))
    = map_option mset (evaluate_calculated_fields (demo_engine (\<lambda>ns. ns)) 3 demo_formulas (demo_found [JNum (Num 2)]))"
  by (rule calculation_order_does_not_matter [OF demo_formulas_ok(1-4) demo_accepted])

lemma accepted_formulas_know_their_names_witness:
  "\<exists>rs. evaluate_calculated_fields (demo_engine (\<lambda>ns. ns)) 3 demo_formulas (demo_found [JNum (Num 1), JNum (Num 2)]) = Some rs
    \<and> (\<forall>r \<in> set rs. \<forall>m \<in> set (validation_errors r). \<not> prefix ''Unknown '' m)"
proof -
  obtain rs where rs: "evaluate_calculated_fields (demo_engine (\<lambda>ns. ns)) 3 demo_formulas (demo_found [JNum (Num 1), JNum (Num 2)]) = Some rs"
    using demo_values by auto
  have "set [''net'', ''items''] \<subseteq> set (map field_name (demo_found [JNum (Num 1), JNum (Num 2)]))"
    by (simp add: demo_found_def sample_field_def)
  from accepted_formulas_know_their_names [OF demo_formulas_ok(1-3) demo_accepted this rs] rs show ?thesis by blast
qed

definition zero_context :: "json obj" where
  "zero_context = [(''net'', JNum (Num 0)), (''tax'', JNum (Num 3))]"

lemma conditional_does_not_guard_witness:
  "run_formula (demo_engine rev) {''net'', ''tax''} zero_context (hd demo_formulas) = Some (JNull, [''Division by zero.''], [])"
proof -
  have f: "compile_formula demo_python (calc_formula (hd demo_formulas)) = Inr (ECall (EName ''iff'')
      [ECompare (EName ''net'') [(EqOp, EConst (VNum (Num 0)))], EConst (VNum (Num 0)), EBin (EName ''tax'') DivOp (EName ''net'')] [])"
    by code_simp
  have ok: "validate_formula (demo_engine rev) (calc_formula (hd demo_formulas)) {''net'', ''tax''} = Inr ()" by code_simp
  have c: "obj_get zero_context ''iff'' = None"
    "visit demo_python (formula_context zero_context) (ECompare (EName ''net'') [(EqOp, EConst (VNum (Num 0)))]) = Inr (VBool True)"
    "truthy (VBool True)" "visit demo_python (formula_context zero_context) (EConst (VNum (Num 0))) = Inr (VNum (Num 0))"
    "visit demo_python (formula_context zero_context) (EName ''tax'') = Inr (VNum (Num 3))"
    "visit demo_python (formula_context zero_context) (EName ''net'') = Inr (VNum (Num 0))" "py_eq (VNum (Num 0)) (VNum (Num 0))"
    by code_simp+
  from conditional_does_not_guard [OF refl f c ok] show ?thesis
    by (simp add: demo_formulas_def sum_def_def apply_error_handling_def)
qed

definition items_result :: stored_result where
  "items_result = \<lparr>stored_id = Num 4, stored_job = Num 1, stored_tenant = ''default'',
     stored_json = sample_result (demo_found [JNum (Num 1)]), stored_status = ''pending''\<rparr>"

definition items_db :: review_db where
  "items_db = \<lparr>db_results = [items_result], db_edits = [], db_calculations = [(Num 1, ''default'', demo_formulas)],
     db_require_cleared = (\<lambda>t. True), db_reviews_audited = []\<rparr>"

definition empty_items :: review_edit where
  "empty_items = \<lparr>edit_field = ''items'', edit_value = JArr [], edit_reason = ''Reviewed in workspace''\<rparr>"


end
