(* ===== verification/VersionDiff.thy ===== *)
theory VersionDiff
  imports SchemaContract SchemaPage
begin

text \<open>
  The version diff of the server, \<open>shared/extraction_core/template_diff.py\<close>: two definitions are validated, their fields
  compared by name and the differences listed; and what the schema page shows of it for the draft it posts.
\<close>

section \<open>Comparing\<close>

text \<open>The equality of Python's dictionaries and numbers: the order of keys does not count, and \<open>True\<close> is one.\<close>

fun canonical :: "json \<Rightarrow> json" where
  "canonical (JBool b) = JNum (Num (if b then 1 else 0))"
| "canonical (JArr vs) = JArr (map canonical vs)"
| "canonical (JObj kvs) = JObj (sort_key fst (map (\<lambda>(k, v). (k, canonical v)) kvs))"
| "canonical v = v"

definition canonical_schema :: "template_field \<Rightarrow> json option" where
  "canonical_schema f = map_option (\<lambda>s. canonical (JObj s)) (or_else (schema f) (field_schema f))"

definition field_required :: "template_field \<Rightarrow> bool" where
  "field_required f = coalesce (required f) False"

definition field_cited :: "template_field \<Rightarrow> bool" where
  "field_cited f = coalesce (citation_required f) True"

definition canonical_config :: "langextract_config \<Rightarrow> string \<times> (string \<times> (string \<times> string \<times> attribute_value obj) list) list" where
  "canonical_config c =
     (coalesce (prompt_description c) [],
      map (\<lambda>e. (example_text e, map (\<lambda>x. (extraction_class x, extraction_text x, sort_key fst (coalesce (attributes x) [])))
         (extractions e))) (coalesce (config_examples c) []))"

text \<open>\<open>repr\<close> of a string and of a list of strings, and the text of a truth value.\<close>

definition repr_char :: "char \<Rightarrow> char \<Rightarrow> string" where
  "repr_char q c =
     (let n = of_char c :: nat in
      if c = q \<or> n = 92 then [char_of (92 :: nat), c]
      else if n = 10 then char_of (92 :: nat) # ''n''
      else if n = 13 then char_of (92 :: nat) # ''r''
      else if n = 9 then char_of (92 :: nat) # ''t''
      else if n < 32 \<or> 127 \<le> n \<and> n \<le> 160 \<or> n = 173 then
        char_of (92 :: nat) # ''x'' @ map (\<lambda>d. ''0123456789abcdef'' ! d) [n div 16, n mod 16]
      else [c])"

definition py_repr :: "string \<Rightarrow> string" where
  "py_repr s =
     (let apostrophe = char_of (39 :: nat); q = (if apostrophe \<in> set s \<and> CHR 0x22 \<notin> set s then CHR 0x22 else apostrophe)
      in q # concat (map (repr_char q) s) @ [q])"

definition py_repr_list :: "string list \<Rightarrow> string" where
  "py_repr_list ss = ''['' @ js_join '', '' (map py_repr ss) @ '']''"

definition py_bool :: "bool \<Rightarrow> string" where
  "py_bool b = (if b then ''True'' else ''False'')"

definition arrow :: "string \<Rightarrow> string \<Rightarrow> string \<Rightarrow> string" where
  "arrow label a b = label @ '': '' @ a @ '' -> '' @ b"

definition modified :: "string \<Rightarrow> string list \<Rightarrow> field_change option" where
  "modified n details =
     (if details = [] then None else Some \<lparr>changed_name = n, change_kind = ''modified'', change_details = details\<rparr>)"

definition describe_field_change :: "string \<Rightarrow> template_field \<Rightarrow> template_field \<Rightarrow> field_change option" where
  "describe_field_change n before after = modified n
     ((if field_def_label before \<noteq> field_def_label after
       then [arrow ''label'' (py_repr (field_def_label before)) (py_repr (field_def_label after))] else [])
      @ (if field_def_type before \<noteq> field_def_type after then [arrow ''type'' (field_def_type before) (field_def_type after)] else [])
      @ (if field_required before \<noteq> field_required after
         then [arrow ''required'' (py_bool (field_required before)) (py_bool (field_required after))] else [])
      @ (if field_cited before \<noteq> field_cited after
         then [arrow ''citation_required'' (py_bool (field_cited before)) (py_bool (field_cited after))] else [])
      @ (if coalesce (allowed_values before) [] \<noteq> coalesce (allowed_values after) [] then [''allowed_values updated''] else [])
      @ (if canonical_schema before \<noteq> canonical_schema after then [''field_schema updated''] else []))"

definition describe_calculated_change :: "string \<Rightarrow> calculated_def \<Rightarrow> calculated_def \<Rightarrow> field_change option" where
  "describe_calculated_change n before after = modified n
     ((if calc_formula before \<noteq> calc_formula after
       then [arrow ''formula'' (py_repr (calc_formula before)) (py_repr (calc_formula after))] else [])
      @ (if calc_depends_on before \<noteq> calc_depends_on after
         then [arrow ''depends_on'' (py_repr_list (calc_depends_on before)) (py_repr_list (calc_depends_on after))] else [])
      @ (if calc_output_type before \<noteq> calc_output_type after
         then [arrow ''output_type'' (calc_output_type before) (calc_output_type after)] else []))"

section \<open>The diff\<close>

text \<open>Fields are looked up in a dictionary by name, and sets of names are listed in order.\<close>

definition named :: "('a \<Rightarrow> string) \<Rightarrow> 'a list \<Rightarrow> string \<Rightarrow> 'a option" where
  "named name_of xs n = find (\<lambda>x. name_of x = n) (rev xs)"

definition listed :: "('a \<Rightarrow> string) \<Rightarrow> 'a list \<Rightarrow> (string \<Rightarrow> bool) \<Rightarrow> string list" where
  "listed name_of xs P = sort (remdups (filter P (map name_of xs)))"

definition only_in :: "('a \<Rightarrow> string) \<Rightarrow> 'a list \<Rightarrow> 'a list \<Rightarrow> string list" where
  "only_in name_of xs ys = listed name_of xs (\<lambda>n. n \<notin> name_of ` set ys)"

definition changed_in_both ::
    "('a \<Rightarrow> string) \<Rightarrow> (string \<Rightarrow> 'a \<Rightarrow> 'a \<Rightarrow> field_change option) \<Rightarrow> 'a list \<Rightarrow> 'a list \<Rightarrow> field_change list" where
  "changed_in_both name_of describe xs ys =
     List.map_filter (\<lambda>n. Option.bind (named name_of xs n) (\<lambda>x. Option.bind (named name_of ys n) (describe n x)))
       (listed name_of xs (\<lambda>n. n \<in> name_of ` set ys))"

definition diff_definitions :: "template_definition \<Rightarrow> calculated_def list \<Rightarrow> template_definition \<Rightarrow> calculated_def list \<Rightarrow> version_diff" where
  "diff_definitions before before_calculated after after_calculated =
     \<lparr>before_version = template_version before, after_version = template_version after,
      extracted_added = only_in field_def_name (extracted_fields after) (extracted_fields before),
      extracted_removed = only_in field_def_name (extracted_fields before) (extracted_fields after),
      extracted_changed = changed_in_both field_def_name describe_field_change (extracted_fields before) (extracted_fields after),
      calculated_added = only_in calc_name after_calculated before_calculated,
      calculated_removed = only_in calc_name before_calculated after_calculated,
      calculated_changed = changed_in_both calc_name describe_calculated_change before_calculated after_calculated,
      langextract_changed = (map_option canonical_config (definition_langextract_config before)
        \<noteq> map_option canonical_config (definition_langextract_config after))\<rparr>"

definition diff_template_definitions ::
    "formula_engine \<Rightarrow> nat \<Rightarrow> (json obj \<Rightarrow> bool) \<Rightarrow> schema_body \<Rightarrow> schema_body \<Rightarrow> version_diff option" where
  "diff_template_definitions E frames valid_schema before after =
     (if validate_extraction_template E frames valid_schema before = Accepted
         \<and> validate_extraction_template E frames valid_schema after = Accepted
      then case (parse_body valid_schema before, parse_body valid_schema after) of
             (Inr ds, Inr ds') \<Rightarrow> Some (diff_definitions (body_definition before) ds (body_definition after) ds')
           | _ \<Rightarrow> None
      else None)"

section \<open>What an empty diff means\<close>

lemma modified_None [simp]: "modified n details = None \<longleftrightarrow> details = []"
  by (simp add: modified_def)

lemma named_None: "named name_of xs n = None \<longleftrightarrow> n \<notin> name_of ` set xs"
  by (auto simp: named_def find_None_iff)

lemma set_listed: "set (listed name_of xs P) = {n \<in> name_of ` set xs. P n}"
  by (auto simp: listed_def)

lemma listed_Nil: "listed name_of xs P = [] \<longleftrightarrow> (\<forall>x \<in> set xs. \<not> P (name_of x))"
  unfolding set_empty [symmetric] set_listed by auto

lemma only_in_Nil: "only_in name_of xs ys = [] \<longleftrightarrow> name_of ` set xs \<subseteq> name_of ` set ys"
  by (auto simp: only_in_def listed_Nil)

lemma changed_Nil:
  "changed_in_both name_of describe xs ys = [] \<longleftrightarrow>
    (\<forall>n x y. named name_of xs n = Some x \<longrightarrow> named name_of ys n = Some y \<longrightarrow> describe n x y = None)"
proof -
  let ?d = "\<lambda>n. Option.bind (named name_of xs n) (\<lambda>x. Option.bind (named name_of ys n) (describe n x))"
  have "changed_in_both name_of describe xs ys = [] \<longleftrightarrow>
      (\<forall>n \<in> set (listed name_of xs (\<lambda>n. n \<in> name_of ` set ys)). ?d n = None)"
    by (auto simp: changed_in_both_def List.map_filter_def filter_empty_conv)
  also have "\<dots> \<longleftrightarrow> (\<forall>n x y. named name_of xs n = Some x \<longrightarrow> named name_of ys n = Some y \<longrightarrow> describe n x y = None)"
  proof -
    have "?d n = None \<longleftrightarrow> (\<forall>x y. named name_of xs n = Some x \<longrightarrow> named name_of ys n = Some y \<longrightarrow> describe n x y = None)" for n
      by (cases "named name_of xs n"; cases "named name_of ys n") simp_all
    moreover have "n \<in> name_of ` set zs \<longleftrightarrow> named name_of zs n \<noteq> None" for n zs by (simp add: named_None)
    ultimately show ?thesis unfolding set_listed by fastforce
  qed
  finally show ?thesis .
qed

text \<open>What a diff compares: of a field six of its entries, of a calculated field three, and the LangExtract configuration.\<close>

definition compared_field :: "template_field \<Rightarrow> string \<times> string \<times> bool \<times> bool \<times> string list \<times> json option" where
  "compared_field f =
     (field_def_label f, field_def_type f, field_required f, field_cited f, coalesce (allowed_values f) [], canonical_schema f)"

definition compared_calculated :: "calculated_def \<Rightarrow> string \<times> string list \<times> string" where
  "compared_calculated d = (calc_formula d, calc_depends_on d, calc_output_type d)"

definition same_for_every_name :: "('a \<Rightarrow> string) \<Rightarrow> ('a \<Rightarrow> 'b) \<Rightarrow> 'a list \<Rightarrow> 'a list \<Rightarrow> bool" where
  "same_for_every_name name_of view xs ys \<longleftrightarrow>
     (\<forall>n. map_option view (named name_of xs n) = map_option view (named name_of ys n))"

definition same_search_contract :: "template_definition \<Rightarrow> calculated_def list \<Rightarrow> template_definition \<Rightarrow> calculated_def list \<Rightarrow> bool" where
  "same_search_contract d ds e es \<longleftrightarrow>
     same_for_every_name field_def_name compared_field (extracted_fields d) (extracted_fields e)
     \<and> same_for_every_name calc_name compared_calculated ds es
     \<and> map_option canonical_config (definition_langextract_config d) = map_option canonical_config (definition_langextract_config e)"

lemma same_names_iff:
  assumes "\<And>n x y. describe n x y = None \<longleftrightarrow> view x = view y"
  shows "only_in name_of ys xs = [] \<and> only_in name_of xs ys = [] \<and> changed_in_both name_of describe xs ys = []
    \<longleftrightarrow> same_for_every_name name_of view xs ys"
proof -
  have "only_in name_of ys xs = [] \<and> only_in name_of xs ys = [] \<longleftrightarrow> (\<forall>n. named name_of xs n = None \<longleftrightarrow> named name_of ys n = None)"
    by (auto simp: only_in_Nil named_None)
  moreover have "changed_in_both name_of describe xs ys = [] \<longleftrightarrow>
      (\<forall>n x y. named name_of xs n = Some x \<longrightarrow> named name_of ys n = Some y \<longrightarrow> view x = view y)"
    by (simp add: changed_Nil assms)
  moreover have "map_option view a = map_option view b \<longleftrightarrow> (a = None \<longleftrightarrow> b = None) \<and> (\<forall>x y. a = Some x \<longrightarrow> b = Some y \<longrightarrow> view x = view y)"
    for a b by (cases a; cases b) simp_all
  ultimately show ?thesis by (auto simp: same_for_every_name_def)
qed

lemma described_iff:
  "describe_field_change n f g = None \<longleftrightarrow> compared_field f = compared_field g"
  "describe_calculated_change n d e = None \<longleftrightarrow> compared_calculated d = compared_calculated e"
  by (auto simp: describe_field_change_def describe_calculated_change_def compared_field_def compared_calculated_def)

lemma empty_diff_iff: "diff_shown (diff_definitions d ds e es) = [] \<longleftrightarrow> same_search_contract d ds e es"
  unfolding same_search_contract_def same_names_iff [where describe = describe_field_change, OF described_iff(1), symmetric]
    same_names_iff [where describe = describe_calculated_change, OF described_iff(2), symmetric]
  by (auto simp: diff_shown_def diff_definitions_def names_shown_def changes_shown_def)

section \<open>What the schema page shows\<close>

abbreviation matches_notice :: "string list" where
  "matches_notice \<equiv> [''Current draft matches the selected saved version.'']"

lemma shown_differs: "diff_shown d \<noteq> matches_notice"
proof
  assume "diff_shown d = matches_notice"
  then have "''Current draft matches the selected saved version.'' \<in> set (diff_shown d)" by simp
  then show False by (auto simp: diff_shown_def names_shown_def changes_shown_def split: if_splits)
qed

lemma diff_parts:
  assumes "diff_template_definitions E frames valid_schema before after = Some d"
  obtains ds es where "parse_body valid_schema before = Inr ds" "parse_body valid_schema after = Inr es"
    "d = diff_definitions (body_definition before) ds (body_definition after) es"
  using assms by (auto simp: diff_template_definitions_def split: if_splits sum.splits)

text \<open>
  C29: The page says that the draft matches the saved version exactly when the diff of the server finds the same
  search contract: for every name the same field up to its label, type, obligation, citation, allowed values and schema,
  for every calculated name the same formula, dependencies and type, and the same LangExtract configuration.
\<close>

theorem matching_notice_is_exact:
  assumes "diff_template_definitions E frames valid_schema before after = Some d"
    and "parse_body valid_schema before = Inr ds" "parse_body valid_schema after = Inr es"
    and "selectedSavedVersion c = Some v" "versionDiff s = Some (diff_json d)"
  shows "version_diff_panel c s = Some (Some matches_notice)
    \<longleftrightarrow> same_search_contract (body_definition before) ds (body_definition after) es"
proof -
  from assms(1-3) have d: "d = diff_definitions (body_definition before) ds (body_definition after) es"
    by (auto elim: diff_parts)
  have "version_diff_panel c s = Some (Some (if diff_shown d = [] then matches_notice else diff_shown d))"
    by (simp add: version_diff_panel_def assms(4,5) diff_lines_shown)
  then show ?thesis using shown_differs [of d] by (simp add: d empty_diff_iff)
qed

lemma same_for_every_name_refl [simp]: "same_for_every_name name_of view xs xs"
  by (simp add: same_for_every_name_def)

lemma draft_keeps_fields:
  assumes "buildDraftTemplateDefinitionSafe form chosen base = e"
  shows "extracted_fields e = extracted_fields base" "calculated_fields e = calculated_fields base"
  using assms by (auto simp: buildDraftTemplateDefinitionSafe_def buildTemplatePayload_def Let_def res_bind_eq_Inr_iff split: sum.splits)

lemma parsed_calculations:
  assumes "parse_body valid_schema before = Inr ds" "parse_body valid_schema (before\<lparr>body_definition := e\<rparr>) = Inr es"
  shows "es = ds"
  using assms by (auto simp: parse_body_def Let_def res_bind_eq_Inr_iff split: option.splits if_splits)

lemma draft_diff_lines:
  assumes "diff_template_definitions E frames valid_schema before (before\<lparr>body_definition := e\<rparr>) = Some d"
    and "buildDraftTemplateDefinitionSafe form chosen (body_definition before) = e"
  shows "diff_shown d =
    (if map_option canonical_config (definition_langextract_config (body_definition before))
        = map_option canonical_config (definition_langextract_config e)
     then [] else [''LangExtract prompt or examples changed''])"
proof -
  from diff_parts [OF assms(1)] obtain ds es where p: "parse_body valid_schema before = Inr ds"
      "parse_body valid_schema (before\<lparr>body_definition := e\<rparr>) = Inr es"
      "d = diff_definitions (body_definition before) ds (body_definition (before\<lparr>body_definition := e\<rparr>)) es" .
  from parsed_calculations [OF p(1,2)] p(3) have d: "d = diff_definitions (body_definition before) ds e ds" by simp
  have "changed_in_both field_def_name describe_field_change fs fs = []" "changed_in_both calc_name describe_calculated_change ds ds = []" for fs
    by (auto simp: changed_Nil described_iff)
  then show ?thesis
    using draft_keeps_fields(1) [OF assms(2)]
    by (simp add: d diff_shown_def diff_definitions_def names_shown_def changes_shown_def only_in_Nil)
qed

text \<open>
  C38: Of the draft the page posts, the diff knows one difference from the selected version: the LangExtract prompt
  or its examples. Whatever else the form holds, a new name, description, document type, version or provider, the page
  says that the draft matches the saved version, since the fields are those of the version.
\<close>

theorem draft_diff_sees_examples_only:
  assumes "selectedSavedVersion c = Some v" "currentTemplateDefinition c = Some (definition_of v)"
    and "body_definition before = definition_of v"
    and "diff_template_definitions E frames valid_schema before (before\<lparr>body_definition := draftTemplateDefinition c\<rparr>) = Some d"
    and "versionDiff s = Some (diff_json d)"
  shows "version_diff_panel c s = Some (Some
    (if map_option canonical_config (definition_langextract_config (definition_of v))
        = map_option canonical_config (definition_langextract_config (draftTemplateDefinition c))
     then matches_notice else [''LangExtract prompt or examples changed'']))"
proof -
  have "buildDraftTemplateDefinitionSafe (draftTemplate c) (provider c) (body_definition before) = draftTemplateDefinition c"
    by (simp add: draftTemplateDefinition_def assms(2,3))
  from draft_diff_lines [OF assms(4) this] show ?thesis
    by (simp add: version_diff_panel_def assms(1,3,5) diff_lines_shown)
qed

section \<open>A version and a renamed copy of it\<close>

definition saved_definition :: template_definition where
  "saved_definition = starterTemplateDefinition\<lparr>calculated_fields := []\<rparr>"

definition copying_app :: app_state where
  "copying_app = start_app\<lparr>provider := Some langextract_provider, draftTemplate := starter_draft, selectedTemplateId := Some (Num 1),
     templateVersions := [demo_version\<lparr>definition_of := saved_definition\<rparr>], selectedTemplateVersionId := Some (Num 11)\<rparr>"

definition saved_body :: schema_body where
  "saved_body = literal_body saved_definition"

definition copied_body :: schema_body where
  "copied_body = saved_body\<lparr>body_definition := draftTemplateDefinition copying_app\<rparr>"

lemma copying_app_version:
  "selectedSavedVersion copying_app = Some (demo_version\<lparr>definition_of := saved_definition\<rparr>)"
  "currentTemplateDefinition copying_app = Some saved_definition"
  "body_definition saved_body = saved_definition"
  by (simp_all add: selectedSavedVersion_def selectedVersions_def copying_app_def demo_version_def same_id_def num_eq_def
      currentTemplateDefinition_def find_version_def saved_body_def literal_body_def)

lemma copying_app_draft:
  "draftTemplateDefinition copying_app =
     buildDraftTemplateDefinitionSafe starter_draft (Some langextract_provider) saved_definition"
  unfolding draftTemplateDefinition_def copying_app_version by (simp add: copying_app_def)

lemma copied_diff:
  "\<exists>d. diff_template_definitions sum_engine 9 (\<lambda>_. True) saved_body copied_body = Some d"
  "template_name (draftTemplateDefinition copying_app) \<noteq> template_name saved_definition"
  "map_option canonical_config (definition_langextract_config saved_definition)
    = map_option canonical_config (definition_langextract_config (draftTemplateDefinition copying_app))"
proof -
  have "diff_template_definitions sum_engine 9 (\<lambda>_. True) saved_body copied_body \<noteq> None"
    unfolding copied_body_def copying_app_draft by code_simp
  then show "\<exists>d. diff_template_definitions sum_engine 9 (\<lambda>_. True) saved_body copied_body = Some d" by blast
  show "template_name (draftTemplateDefinition copying_app) \<noteq> template_name saved_definition"
    unfolding copying_app_draft by code_simp
  show "map_option canonical_config (definition_langextract_config saved_definition)
      = map_option canonical_config (definition_langextract_config (draftTemplateDefinition copying_app))"
    unfolding copying_app_draft by code_simp
qed

lemma draft_diff_sees_examples_only_witness:
  "\<exists>d. diff_template_definitions sum_engine 9 (\<lambda>_. True) saved_body copied_body = Some d
     \<and> template_name (draftTemplateDefinition copying_app) \<noteq> template_name saved_definition
     \<and> version_diff_panel copying_app (initial_schema_page\<lparr>versionDiff := Some (diff_json d)\<rparr>) = Some (Some matches_notice)"
proof -
  from copied_diff(1) obtain d where d: "diff_template_definitions sum_engine 9 (\<lambda>_. True) saved_body copied_body = Some d" ..
  have "version_diff_panel copying_app (initial_schema_page\<lparr>versionDiff := Some (diff_json d)\<rparr>) = Some (Some matches_notice)"
    using draft_diff_sees_examples_only [OF copying_app_version(1), of saved_body sum_engine 9 "\<lambda>_. True" d
        "initial_schema_page\<lparr>versionDiff := Some (diff_json d)\<rparr>"]
      copying_app_version(2,3) copied_diff(3) d by (simp add: copied_body_def)
  with d copied_diff(2) show ?thesis by blast
qed

lemma matching_notice_is_exact_witness:
  "\<exists>d ds es. diff_template_definitions sum_engine 9 (\<lambda>_. True) saved_body copied_body = Some d
     \<and> (version_diff_panel copying_app (initial_schema_page\<lparr>versionDiff := Some (diff_json d)\<rparr>) = Some (Some matches_notice)
        \<longleftrightarrow> same_search_contract saved_definition ds (draftTemplateDefinition copying_app) es)"
proof -
  from copied_diff(1) obtain d where d: "diff_template_definitions sum_engine 9 (\<lambda>_. True) saved_body copied_body = Some d" ..
  from diff_parts [OF d] obtain ds es where p: "parse_body (\<lambda>_. True) saved_body = Inr ds" "parse_body (\<lambda>_. True) copied_body = Inr es" .
  have "versionDiff (initial_schema_page\<lparr>versionDiff := Some (diff_json d)\<rparr>) = Some (diff_json d)" by simp
  from matching_notice_is_exact [OF d p copying_app_version(1) this] d copying_app_version(3) show ?thesis
    by (auto simp: copied_body_def)
qed

end
