(* ===== verification/Spec2Isabelle.thy ===== *)
theory Spec2Isabelle
  imports AppInvariant EditorSessions Display WorkspaceView SchemaPage SettingsPage Shell ExamplesEditor BundleSize JobServer Formulas VersionDiff
begin

text \<open>
  \<^bold>\<open>ExtractFlow.\<close> ExtractFlow extracts fields from documents. Its frontend (\<open>frontend/src\<close>, React and TypeScript)
  is one page application: the component \<open>App\<close> of \<open>App.tsx\<close> holds all shared state, loads it from the HTTP API,
  and passes it with its handlers to the pages. Behind the API, a backend keeps schemas, jobs and results and worker
  processes run the jobs (\<open>backend\<close>, \<open>worker\<close>, \<open>shared/extraction_core\<close>, Python); of these, the parts the frontend
  relies on are modelled.

  \<^bold>\<open>Theories.\<close>
  \<^item> \<open>Prelude\<close>: strings, arrays, property maps (insertion order, integer keys first) and results of the
    JavaScript library; the locale \<open>keyed_store\<close>, interpreted on property maps and on records keyed by number.
  \<^item> \<open>JsNumber\<close>: IEEE doubles as exact rationals with rounding, \<open>NaN\<close> and infinities; printing and parsing.
  \<^item> \<open>Json\<close>: \<open>JSON.stringify\<close> and \<open>JSON.parse\<close>; the locale \<open>codec\<close>, interpreted on both printers.
  \<^item> \<open>Types\<close>: the types of \<open>App.tsx\<close>, \<open>langextract.ts\<close> and \<open>LangExtractEditor.tsx\<close>.
  \<^item> \<open>LangExtract\<close>: \<open>langextract.ts\<close>. \<open>ReviewDraft\<close>: \<open>lib/review-draft.ts\<close>, \<open>lib/review-helpers.ts\<close>,
    \<open>lib/job-progress.ts\<close> and the edits of a review. \<open>ReviewEditors\<close>: \<open>components/review\<close>.
  \<^item> \<open>WorkspaceUrl\<close>: \<open>lib/workspace-url.ts\<close>. \<open>ProviderDraft\<close>: \<open>lib/custom-provider-draft-storage.ts\<close>,
    \<open>lib/mock-provider.ts\<close> and the custom provider functions of \<open>App.tsx\<close>; the locale \<open>persisted_slot\<close>.
  \<^item> \<open>Display\<close>: labels and formatting. \<open>Templates\<close>: schema payloads and drafts.
  \<^item> \<open>Effects\<close>: \<open>lib/api.ts\<close> and \<open>lib/config.ts\<close>; asynchronous code as trees with a weakest precondition, a
    sequential run and an interleaving relation; the locales \<open>owned_flag\<close> and \<open>cancellable_load\<close>.
  \<^item> \<open>AppState\<close>: the state of \<open>App\<close>, the refresh, the polling, selection, seeding and feedback effects.
  \<^item> \<open>AppHandlers\<close>: the handlers of \<open>App\<close> and their interleaving.
  \<^item> \<open>AppInvariant\<close>: what holds of the state of \<open>App\<close> in every reachable state; the locale \<open>state_invariant\<close>, the
    induction over interleaved handlers, interpreted on all updates the handlers and effects make.
  \<^item> \<open>Workspace\<close>, \<open>WorkspaceView\<close>: \<open>ExtractionWorkspacePage\<close>, first what it derives from the state (the stage of
    the selected job, the job groups, the actions it offers and what they call), then its panels.
  \<^item> \<open>PageLoads\<close>: \<open>ParsedTextPanel.tsx\<close>, \<open>AuditPage\<close> and \<open>AdminPage\<close>, each with a state and loads of its own, as
    step relations over requests in flight; they interpret \<open>cancellable_load\<close> and \<open>owned_flag\<close>.
  \<^item> \<open>SchemaPage\<close>: \<open>SchemaPage\<close>, its version diff and its dry run. \<open>SettingsPage\<close>: \<open>SettingsPage\<close>, the provider form,
    the presets and the saved profiles. \<open>Shell\<close>: navigation, desktop panels and notices around the page.
  \<^item> \<open>ExamplesEditor\<close>: \<open>LangExtractEditor.tsx\<close>, every edit of the form and the focus that follows it.
  \<^item> \<open>EditorSessions\<close>: sequences of actions of an editor that works on a text; the locale \<open>text_editor\<close>,
    interpreted on \<open>TableReviewEditor.tsx\<close>.
  \<^item> \<open>Calculations\<close>: \<open>calculations.py\<close> and the cycle check and sort of \<open>formulas.py\<close>. \<open>Formulas\<close>: the rest of
    \<open>formulas.py\<close>, the evaluator over Python's syntax trees and the functions of a formula. \<open>SchemaContract\<close>: the
    validators of \<open>models.py\<close>. \<open>VersionDiff\<close>: \<open>template_diff.py\<close> and what the
    schema page shows of it. \<open>ReviewServer\<close>: \<open>result_service.py\<close>. \<open>JobServer\<close>: the routes of a job,
    \<open>job_service.py\<close> and the pass of \<open>worker/app/main.py\<close>, as a step relation over the rows they share.
  \<^item> \<open>BundleSize\<close>: \<open>scripts/check-frontend-bundle-size.mjs\<close>.

  \<^bold>\<open>What is shown.\<close> The handlers send only what the page allows and report every failure; late replies are
  ignored where the code guards them, and the theorems say what happens where it does not. Drafts, schemas,
  provider forms and the address bar survive their round trips. What a page offers agrees with what the handler
  behind it will do: the export gate with the stage, the save button with the schema builder, the profile
  badge with activation. A session of the table editor refines the same actions on its rows. Frontend and server
  are then composed: the run button and the server apply one contract, the export gates of both agree, the buttons
  of a job are those the server accepts, and a queued job ends in the review stage of the workspace.

  \<^bold>\<open>Correspondence.\<close> Definitions carry the names of the source. A handler is a tree of updates and awaited
  requests over the closure of the render that created it; replies are arbitrary, and the weakest
  precondition also allows any change of the state at an await. \<open>fetch\<close>, the clock, the date parser and the
  locale's number format and collation are parameters. On the server a request is one transaction, and the pass of a
  worker is cut where the code commits or reads a row afresh. Its parameters are Python's parser of an expression and
  its number and date formats, the order in which Python walks through a set, the check of a JSON schema and the reply of a provider's probe.

  \<^bold>\<open>Bounds.\<close> The JSON parser has fuel, which \<open>json_parse\<close> sets to twice the length of the text plus one;
  the round trip shows that it is enough. The number printer searches at most 17 significant digits, which
  identify every double. The sort of the calculated fields counts the frames of Python's recursion; one more
  than there are calculated fields is enough when the contract of \<open>SchemaContract\<close> accepts them. Every other recursion is structural or has a
  termination proof.

  \<^bold>\<open>Not modelled.\<close> Markup, class names, badges of pure decoration, the fixed texts of \<open>HelpPage\<close> and the components
  under \<open>components/ui\<close>; the desktop shell, whose replies are arbitrary; on the server, the parsing of documents, the
  calls of language models, storage, authentication, feedback, administration and export files.
\<close>

section \<open>Overlapping refreshes\<close>

definition alive :: reply where
  "alive = Response True '''' (Some (VPolicy \<lparr>require_review_cleared = False\<rparr>))"

definition dead :: reply where
  "dead = Rejected (JsError ''Failed to fetch'')"

text \<open>The continuation of a suspended handler.\<close>

definition resume :: "('s, 'a) proc \<Rightarrow> reply list \<Rightarrow> ('s, 'a) proc" where
  "resume p = (case p of Request qs k \<Rightarrow> k | _ \<Rightarrow> (\<lambda>_. p))"

lemma dead_settles [simp]: "settle as (reply_at (map (\<lambda>_. dead) qs) i) = (if i < length qs then Inl (JsError ''Failed to fetch'') else Inl OtherThrown)"
  by (simp add: settle_def reply_at_def dead_def)

lemma dead_core [simp]: "fulfilled as (map (\<lambda>_. dead) qs) i = None"
  by (simp add: fulfilled_def)

lemma refresh_steps:
  "\<exists>k k2 k3. (\<forall>s. advance (refreshCoreData start_app) s = (s, Request [health_request] k))
     \<and> (\<forall>s. advance (k [dead]) s =
          (s\<lparr>apiUnavailable := True, devStatus := None, coreDataState := CoreUnavailable, resultsByJob := []\<rparr>, Return ()))
     \<and> (\<forall>s. advance (k [alive]) s = (s\<lparr>apiUnavailable := False\<rparr>, Request (map get_json core_paths) k2))
     \<and> (\<forall>s. advance (k2 (map (\<lambda>_. dead) core_paths)) s =
          ((apply_core_data (map (\<lambda>_. dead) core_paths) s)\<lparr>templateVersions := []\<rparr>, Request [] k3))
     \<and> (\<forall>s. advance (k3 []) s = (s\<lparr>resultsByJob := [], coreDataState := CoreReady\<rparr>, Return ()))"
proof -
  let ?k = "resume (refreshCoreData start_app)"
  let ?k2 = "resume (snd (advance (?k [alive]) start_app))"
  let ?k3 = "resume (snd (advance (?k2 (map (\<lambda>_. dead) core_paths)) start_app))"
  have id: "\<not> id_truthy (selectedJobId start_app)" by (simp add: start_app_def initial_app_def id_truthy_def)
  have health: "settle as_any (reply_at [dead] 0) = Inl (JsError ''Failed to fetch'')" "settle as_any (reply_at [alive] 0) = Inr ()"
    by (simp_all add: settle_def reply_at_def dead_def alive_def as_any_def)
  have 1: "advance (refreshCoreData start_app) s = (s, Request [health_request] ?k)" for s
    by (simp add: refreshCoreData_def readJson_def await_def health_request_def resume_def get_json_def)
  have 2: "advance (?k [dead]) s =
      (s\<lparr>apiUnavailable := True, devStatus := None, coreDataState := CoreUnavailable, resultsByJob := []\<rparr>, Return ())" for s
    by (simp add: refreshCoreData_def readJson_def await_def resume_def health)
  have 3: "advance (?k [alive]) s = (s\<lparr>apiUnavailable := False\<rparr>, Request (map get_json core_paths) ?k2)" for s
    by (simp add: refreshCoreData_def readJson_def await_def resume_def health)
  have 4: "advance (?k2 (map (\<lambda>_. dead) core_paths)) s =
      ((apply_core_data (map (\<lambda>_. dead) core_paths) s)\<lparr>templateVersions := []\<rparr>, Request [] ?k3)" for s
    by (simp add: refreshCoreData_def readJson_def await_def resume_def health load_versions_def load_results_def
        live_templates_def live_jobs_def completed_jobs_def)
  have 5: "advance (?k3 []) s = (s\<lparr>resultsByJob := [], coreDataState := CoreReady\<rparr>, Return ())" for s
    by (simp add: refreshCoreData_def readJson_def await_def resume_def health load_versions_def load_results_def
        live_templates_def live_jobs_def completed_jobs_def result_entries_def List.map_filter_def id)
  from 1 2 3 4 5 show ?thesis by (intro exI conjI allI)
qed


end
